theory Spec2Isabelle
  imports Main
begin

section \<open>Data model of the Fortran front end (gcc/fortran/openmp.c)\<close>

text \<open>
  Symbols, statements and expression nodes are heap objects in the C source and are
  compared by pointer.  A pointer is modelled as a natural number (the address); the
  symbols live in a symbol heap \<open>sym_ptr \<Rightarrow> gfc_symbol\<close>, and an expression node
  carries its own address in \<open>e_addr\<close>.
\<close>

type_synonym sym_ptr = nat
type_synonym code_ptr = nat
type_synonym ns_ptr = nat
type_synonym locus = nat

text \<open>The basic types \<open>bt\<close> of a type specification (declared in a header outside src/).\<close>

datatype bt =
    BT_UNKNOWN | BT_INTEGER | BT_LOGICAL | BT_REAL | BT_COMPLEX | BT_DERIVED
  | BT_CHARACTER | BT_CLASS | BT_PROCEDURE | BT_HOLLERITH | BT_VOID | BT_ASSUMED

datatype intmod_id = INTMOD_NONE | INTMOD_ISO_C_BINDING | INTMOD_OTHER

text \<open>What the code reads of \<open>ts.u.derived\<close>: \<open>attr.alloc_comp\<close>, \<open>from_intmod\<close> and
  whether \<open>intmod_sym_id\<close> is \<open>ISOCBINDING_PTR\<close>.\<close>

record gfc_derived =
  alloc_comp :: bool
  from_intmod :: intmod_id
  is_isocbinding_ptr :: bool

record gfc_typespec =
  ts_type :: bt
  ts_kind :: int
  ts_derived :: gfc_derived

datatype sym_flavor = FL_UNKNOWN | FL_VARIABLE | FL_PROCEDURE | FL_OTHER

datatype procedure_type = PROC_UNKNOWN | PROC_INTRINSIC | PROC_OTHER

datatype ifsrc = IFSRC_UNKNOWN | IFSRC_OTHER

datatype array_spec_type = AS_EXPLICIT | AS_ASSUMED_SHAPE | AS_DEFERRED | AS_ASSUMED_SIZE

record symbol_attribute =
  flavor :: sym_flavor
  proc_pointer :: bool
  dummy :: bool
  attr_function :: bool
  threadprivate :: bool
  cray_pointee :: bool
  cray_pointer :: bool
  pointer :: bool
  allocatable :: bool
  in_namelist :: bool
  attr_value :: bool
  entry_master :: bool
  intrinsic :: bool
  external :: bool
  generic :: bool
  attr_entry :: bool
  attr_result :: bool
  subroutine :: bool
  target :: bool
  use_assoc :: bool
  proc :: procedure_type
  if_source :: ifsrc

record gfc_symbol =
  sym_name :: string
  attr :: symbol_attribute
  sym_ts :: gfc_typespec
  sym_as :: "array_spec_type option"
  sym_ns :: ns_ptr
  sym_result :: "sym_ptr option"
  mark :: bool

type_synonym sym_heap = "sym_ptr \<Rightarrow> gfc_symbol"

subsection \<open>Expressions\<close>

text \<open>The expression types of resolved expressions.  \<open>EXPR_COMPCALL\<close> and \<open>EXPR_PPC\<close>
  are left out: \<open>expr_references_sym\<close> declares them unreachable.\<close>

datatype expr_t =
    EXPR_OP | EXPR_FUNCTION | EXPR_CONSTANT | EXPR_VARIABLE | EXPR_SUBSTRING
  | EXPR_STRUCTURE | EXPR_ARRAY | EXPR_NULL

datatype gfc_intrinsic_op =
    INTRINSIC_NONE | INTRINSIC_UPLUS | INTRINSIC_UMINUS | INTRINSIC_PLUS
  | INTRINSIC_MINUS | INTRINSIC_TIMES | INTRINSIC_DIVIDE | INTRINSIC_POWER
  | INTRINSIC_CONCAT | INTRINSIC_AND | INTRINSIC_OR | INTRINSIC_EQV
  | INTRINSIC_NEQV | INTRINSIC_EQ | INTRINSIC_NE | INTRINSIC_GT | INTRINSIC_GE
  | INTRINSIC_LT | INTRINSIC_LE | INTRINSIC_NOT | INTRINSIC_PARENTHESES
  | INTRINSIC_USER

datatype gfc_isym_id =
    GFC_ISYM_CONVERSION | GFC_ISYM_MIN | GFC_ISYM_MAX | GFC_ISYM_IAND
  | GFC_ISYM_IOR | GFC_ISYM_IEOR | GFC_ISYM_OTHER

datatype dimen_t = DIMEN_ELEMENT | DIMEN_VECTOR | DIMEN_RANGE | DIMEN_STAR | DIMEN_OTHER

text \<open>The fields every \<open>gfc_expr\<close> node has, whatever its \<open>expr_type\<close>.\<close>

record expr_hdr =
  e_addr :: nat
  e_ts :: gfc_typespec
  e_rank :: int
  symtree :: "sym_ptr option"
  e_where :: locus

text \<open>
  A node is its header, its reference chain \<open>ref\<close> and its \<open>expr_type\<close> together with
  the member of the union \<open>value\<close> that the \<open>expr_type\<close> selects: the operator and the
  operands of an \<open>EXPR_OP\<close> (\<open>op2\<close> is null for a unary operator), \<open>isym->id\<close> (if
  \<open>isym\<close> is not null), \<open>esym\<close> and the actual arguments of an \<open>EXPR_FUNCTION\<close> (an
  argument whose \<open>expr\<close> is NULL is \<open>None\<close>), and \<open>value.integer\<close> of an
  \<open>EXPR_CONSTANT\<close>.
\<close>

datatype gfc_expr = Gfc_expr (hdr: expr_hdr) (e_ref: "gfc_ref list") (e_val: gfc_value)
and gfc_value =
    V_op gfc_intrinsic_op gfc_expr "gfc_expr option"
  | V_function "gfc_isym_id option" "sym_ptr option" "gfc_expr option list"
  | V_constant int
  | V_variable
  | V_substring
  | V_structure
  | V_array
  | V_null
and gfc_ref =
    REF_ARRAY gfc_array_ref
  | REF_COMPONENT
  | REF_SUBSTRING "gfc_expr option" "gfc_expr option"
and gfc_array_ref = Array_ref (codimen: nat) (ar_dims: "gfc_dimen list")
and gfc_dimen =
  Dimen (ar_stride: "gfc_expr option") (dimen_type: dimen_t)
        (ar_start: "gfc_expr option") (ar_end: "gfc_expr option")

fun expr_type :: "gfc_expr \<Rightarrow> expr_t" where
  "expr_type (Gfc_expr h r (V_op _ _ _)) = EXPR_OP"
| "expr_type (Gfc_expr h r (V_function _ _ _)) = EXPR_FUNCTION"
| "expr_type (Gfc_expr h r (V_constant _)) = EXPR_CONSTANT"
| "expr_type (Gfc_expr h r V_variable) = EXPR_VARIABLE"
| "expr_type (Gfc_expr h r V_substring) = EXPR_SUBSTRING"
| "expr_type (Gfc_expr h r V_structure) = EXPR_STRUCTURE"
| "expr_type (Gfc_expr h r V_array) = EXPR_ARRAY"
| "expr_type (Gfc_expr h r V_null) = EXPR_NULL"

subsection \<open>Clause sets\<close>

text \<open>
  The list-class enumeration \<open>OMP_LIST_*\<close> is declared in a header outside src/.  Its
  order is the one \<open>clause_names\<close> in \<open>resolve_omp_clauses\<close> relies on (eleven named
  classes, then the reduction classes from \<open>OMP_LIST_REDUCTION_FIRST\<close> to
  \<open>OMP_LIST_REDUCTION_LAST\<close>).
\<close>

datatype omp_list =
    OMP_LIST_PRIVATE | OMP_LIST_FIRSTPRIVATE | OMP_LIST_LASTPRIVATE
  | OMP_LIST_COPYPRIVATE | OMP_LIST_SHARED | OMP_LIST_COPYIN | OMP_LIST_UNIFORM
  | OMP_LIST_ALIGNED | OMP_LIST_LINEAR | OMP_LIST_DEPEND_IN | OMP_LIST_DEPEND_OUT
  | OMP_LIST_PLUS | OMP_LIST_MULT | OMP_LIST_SUB | OMP_LIST_AND | OMP_LIST_OR
  | OMP_LIST_EQV | OMP_LIST_NEQV | OMP_LIST_MAX | OMP_LIST_MIN | OMP_LIST_IAND
  | OMP_LIST_IOR | OMP_LIST_IEOR

text \<open>A namelist entry; the \<open>next\<close> link is the tail of the list that holds it.\<close>

record gfc_omp_namelist =
  nl_sym :: sym_ptr
  nl_expr :: "gfc_expr option"

datatype gfc_omp_sched_kind =
    OMP_SCHED_NONE | OMP_SCHED_STATIC | OMP_SCHED_DYNAMIC | OMP_SCHED_GUIDED
  | OMP_SCHED_RUNTIME | OMP_SCHED_AUTO

datatype gfc_omp_default_sharing =
    OMP_DEFAULT_UNKNOWN | OMP_DEFAULT_NONE | OMP_DEFAULT_PRIVATE | OMP_DEFAULT_SHARED
  | OMP_DEFAULT_FIRSTPRIVATE

datatype gfc_omp_proc_bind_kind =
    OMP_PROC_BIND_UNKNOWN | OMP_PROC_BIND_MASTER | OMP_PROC_BIND_SPREAD
  | OMP_PROC_BIND_CLOSE

datatype gfc_omp_cancel_kind =
    OMP_CANCEL_UNKNOWN | OMP_CANCEL_PARALLEL | OMP_CANCEL_SECTIONS | OMP_CANCEL_DO
  | OMP_CANCEL_TASKGROUP

record gfc_omp_clauses =
  if_expr :: "gfc_expr option"
  final_expr :: "gfc_expr option"
  num_threads :: "gfc_expr option"
  chunk_size :: "gfc_expr option"
  safelen_expr :: "gfc_expr option"
  simdlen_expr :: "gfc_expr option"
  omp_lists :: "omp_list \<Rightarrow> gfc_omp_namelist list"
  sched_kind :: gfc_omp_sched_kind
  default_sharing :: gfc_omp_default_sharing
  proc_bind :: gfc_omp_proc_bind_kind
  cancel :: gfc_omp_cancel_kind
  collapse :: int
  ordered :: bool
  untied :: bool
  mergeable :: bool
  inbranch :: bool
  notinbranch :: bool

text \<open>\<open>gfc_get_omp_clauses\<close>: a zero-initialised clause set.\<close>

definition gfc_get_omp_clauses :: gfc_omp_clauses where
  "gfc_get_omp_clauses =
     \<lparr> if_expr = None, final_expr = None, num_threads = None, chunk_size = None,
       safelen_expr = None, simdlen_expr = None, omp_lists = (\<lambda>_. []),
       sched_kind = OMP_SCHED_NONE, default_sharing = OMP_DEFAULT_UNKNOWN,
       proc_bind = OMP_PROC_BIND_UNKNOWN, cancel = OMP_CANCEL_UNKNOWN, collapse = 0,
       ordered = False, untied = False, mergeable = False, inbranch = False,
       notinbranch = False \<rparr>"

section \<open>Predetermined privatisation of DO iterators\<close>

text \<open>
  \<open>struct omp_context\<close>: the directive statement that opened the context and its two
  pointer sets.  The \<open>previous\<close> link is the rest of the stack \<open>omp_current_ctx\<close>.
\<close>

record omp_context =
  ctx_code :: code_ptr
  sharing_clauses :: "sym_ptr set"
  private_iterators :: "sym_ptr set"

text \<open>
  The file-level state of openmp.c (\<open>omp_current_ctx\<close>, \<open>omp_current_do_code\<close>,
  \<open>omp_current_do_collapse\<close>) together with the clause sets of the directive
  statements, which \<open>gfc_resolve_do_iterator\<close> updates through
  \<open>omp_current_ctx->code->ext.omp_clauses\<close>.
\<close>

record omp_state =
  omp_current_ctx :: "omp_context list"
  omp_current_do_code :: "code_ptr option"
  omp_current_do_collapse :: int
  ext_omp_clauses :: "code_ptr \<Rightarrow> gfc_omp_clauses"

text \<open>
  The loop \<open>while (i-- >= 1) { if (code == c) return; c = c->block->next; }\<close>.
  \<open>block_next p\<close> is \<open>p->block->next\<close>.  The result is \<open>Some True\<close> when the loop
  returns from the function, \<open>Some False\<close> when it runs out, and \<open>None\<close> when it
  dereferences a null \<open>c\<close>.
\<close>

fun do_code_in_span ::
  "(code_ptr \<Rightarrow> code_ptr option) \<Rightarrow> nat \<Rightarrow> code_ptr option \<Rightarrow> code_ptr \<Rightarrow> bool option"
where
  "do_code_in_span block_next 0 c code = Some False"
| "do_code_in_span block_next (Suc i) c code =
     (if c = Some code then Some True
      else (case c of
              None \<Rightarrow> None
            | Some p \<Rightarrow> do_code_in_span block_next i (block_next p) code))"

definition gfc_resolve_do_iterator ::
  "sym_heap \<Rightarrow> (code_ptr \<Rightarrow> code_ptr option) \<Rightarrow> omp_state \<Rightarrow> code_ptr \<Rightarrow> sym_ptr
     \<Rightarrow> omp_state option"
where
  "gfc_resolve_do_iterator syms block_next st code sy =
     (if threadprivate (attr (syms sy)) then Some st
      else
        (case do_code_in_span block_next (nat (omp_current_do_collapse st))
                (omp_current_do_code st) code of
           None \<Rightarrow> None
         | Some True \<Rightarrow> Some st
         | Some False \<Rightarrow>
             (case omp_current_ctx st of
                [] \<Rightarrow> Some st
              | ctx # previous \<Rightarrow>
                  if sy \<in> sharing_clauses ctx then Some st
                  else if sy \<in> private_iterators ctx
                  then Some st
                  else
                    (let ctx' = ctx\<lparr>private_iterators := insert sy (private_iterators ctx)\<rparr>;
                         omp_clauses = ext_omp_clauses st (ctx_code ctx);
                         p = \<lparr>nl_sym = sy, nl_expr = None\<rparr>;
                         omp_clauses' = omp_clauses\<lparr>omp_lists := (omp_lists omp_clauses)
                           (OMP_LIST_PRIVATE := p # omp_lists omp_clauses OMP_LIST_PRIVATE)\<rparr>
                     in Some (st\<lparr>omp_current_ctx := ctx' # previous,
                                 ext_omp_clauses := (ext_omp_clauses st)
                                   (ctx_code ctx := omp_clauses')\<rparr>)))))"

section \<open>Clause validation: \<open>resolve_omp_clauses\<close>\<close>

text \<open>
  Collaborators of the validator that live outside src/ are parameters of the model:
  \<open>gfc_resolve_expr\<close> (success, and the expression as resolution leaves it),
  \<open>gfc_extract_int\<close> (\<open>None\<close> when it returns an error message), the order
  \<open>bt_gt\<close> of the enumeration \<open>bt\<close> that \<open>is_conversion\<close> compares with \<open>>\<close>,
  \<open>gfc_compare_types\<close> and \<open>gfc_convert_type\<close>.
\<close>

record gfc_ext =
  gfc_resolve_expr :: "gfc_expr \<Rightarrow> bool \<times> gfc_expr"
  gfc_extract_int :: "gfc_expr \<Rightarrow> int option"
  bt_gt :: "bt \<Rightarrow> bt \<Rightarrow> bool"
  gfc_compare_types :: "gfc_typespec \<Rightarrow> gfc_typespec \<Rightarrow> bool"
  gfc_convert_type :: "gfc_expr \<Rightarrow> gfc_typespec \<Rightarrow> gfc_expr"

text \<open>
  Modelled from the spec: \<open>gfc_numeric_ts\<close> is defined outside src/; the operators
  \<open>+\<close>, \<open>*\<close> and \<open>-\<close> "require a numeric type", which in Fortran is integer, real or
  complex.
\<close>

definition gfc_numeric_ts :: "gfc_typespec \<Rightarrow> bool" where
  "gfc_numeric_ts t = (ts_type t = BT_INTEGER \<or> ts_type t = BT_REAL \<or> ts_type t = BT_COMPLEX)"

datatype exec_op =
    EXEC_NOP | EXEC_ASSIGN | EXEC_CONTINUE | EXEC_DO | EXEC_DO_WHILE
  | EXEC_DO_CONCURRENT | EXEC_OMP_DIRECTIVE | EXEC_OTHER

text \<open>
  What the validator reads of a namespace: its procedure, its entry list and its
  parent.  \<open>proc_name\<close> is dereferenced without a test, so it is always present.
\<close>

datatype gfc_namespace =
  Namespace (proc_name: sym_ptr) (entries: "sym_ptr list") (parent: "gfc_namespace option")

text \<open>
  One constructor for each \<open>gfc_error\<close> call of \<open>resolve_omp_clauses\<close>, in the order of
  the source.  Every message is reported at the directive's location \<open>where\<close> (or at the
  expression's own); a message that prints \<open>n->sym->name\<close> carries the symbol, one that
  prints the clause name or the operator carries that string.  The four messages on the
  type of a reduction variable carry the list-class they were reported for as well.
\<close>

datatype clause_error =
    Err_if_scalar_logical locus
  | Err_final_scalar_logical locus
  | Err_num_threads_scalar_integer locus
  | Err_chunk_size_scalar_integer locus
  | Err_not_dummy_argument sym_ptr
  | Err_not_a_variable sym_ptr
  | Err_multiple_clauses sym_ptr
  | Err_copyin_non_threadprivate sym_ptr
  | Err_copyin_alloc_comp sym_ptr
  | Err_copyprivate_assumed_size sym_ptr
  | Err_copyprivate_alloc_comp sym_ptr
  | Err_shared_threadprivate sym_ptr
  | Err_shared_cray_pointee sym_ptr
  | Err_aligned_object sym_ptr
  | Err_aligned_alignment sym_ptr
  | Err_depend_not_array_section sym_ptr
  | Err_depend_coarray
  | Err_depend_stride
  | Err_depend_zero_size sym_ptr
  | Err_threadprivate_object sym_ptr string
  | Err_cray_pointee sym_ptr string
  | Err_pointer_object sym_ptr string
  | Err_alloc_comp sym_ptr string
  | Err_cray_pointer sym_ptr string
  | Err_assumed_size sym_ptr string
  | Err_in_namelist sym_ptr string
  | Err_reduction_numeric omp_list string sym_ptr
  | Err_reduction_logical omp_list string sym_ptr
  | Err_reduction_integer_or_real omp_list string sym_ptr
  | Err_reduction_integer omp_list string sym_ptr
  | Err_linear_integer sym_ptr
  | Err_linear_value sym_ptr
  | Err_linear_step_scalar sym_ptr
  | Err_linear_step_constant sym_ptr
  | Err_safelen_scalar_integer locus
  | Err_simdlen_scalar_integer locus

text \<open>The enumeration values of the list-classes, and the lists in that order.\<close>

fun omp_list_num :: "omp_list \<Rightarrow> nat" where
  "omp_list_num OMP_LIST_PRIVATE = 0"
| "omp_list_num OMP_LIST_FIRSTPRIVATE = 1"
| "omp_list_num OMP_LIST_LASTPRIVATE = 2"
| "omp_list_num OMP_LIST_COPYPRIVATE = 3"
| "omp_list_num OMP_LIST_SHARED = 4"
| "omp_list_num OMP_LIST_COPYIN = 5"
| "omp_list_num OMP_LIST_UNIFORM = 6"
| "omp_list_num OMP_LIST_ALIGNED = 7"
| "omp_list_num OMP_LIST_LINEAR = 8"
| "omp_list_num OMP_LIST_DEPEND_IN = 9"
| "omp_list_num OMP_LIST_DEPEND_OUT = 10"
| "omp_list_num OMP_LIST_PLUS = 11"
| "omp_list_num OMP_LIST_MULT = 12"
| "omp_list_num OMP_LIST_SUB = 13"
| "omp_list_num OMP_LIST_AND = 14"
| "omp_list_num OMP_LIST_OR = 15"
| "omp_list_num OMP_LIST_EQV = 16"
| "omp_list_num OMP_LIST_NEQV = 17"
| "omp_list_num OMP_LIST_MAX = 18"
| "omp_list_num OMP_LIST_MIN = 19"
| "omp_list_num OMP_LIST_IAND = 20"
| "omp_list_num OMP_LIST_IOR = 21"
| "omp_list_num OMP_LIST_IEOR = 22"

definition all_omp_lists :: "omp_list list" where
  "all_omp_lists =
     [OMP_LIST_PRIVATE, OMP_LIST_FIRSTPRIVATE, OMP_LIST_LASTPRIVATE, OMP_LIST_COPYPRIVATE,
      OMP_LIST_SHARED, OMP_LIST_COPYIN, OMP_LIST_UNIFORM, OMP_LIST_ALIGNED, OMP_LIST_LINEAR,
      OMP_LIST_DEPEND_IN, OMP_LIST_DEPEND_OUT, OMP_LIST_PLUS, OMP_LIST_MULT, OMP_LIST_SUB,
      OMP_LIST_AND, OMP_LIST_OR, OMP_LIST_EQV, OMP_LIST_NEQV, OMP_LIST_MAX, OMP_LIST_MIN,
      OMP_LIST_IAND, OMP_LIST_IOR, OMP_LIST_IEOR]"

definition OMP_LIST_REDUCTION_FIRST :: omp_list where
  "OMP_LIST_REDUCTION_FIRST = OMP_LIST_PLUS"

definition OMP_LIST_REDUCTION_LAST :: omp_list where
  "OMP_LIST_REDUCTION_LAST = OMP_LIST_IEOR"

text \<open>\<open>list >= OMP_LIST_REDUCTION_FIRST && list <= OMP_LIST_REDUCTION_LAST\<close>.\<close>

definition is_reduction_list :: "omp_list \<Rightarrow> bool" where
  "is_reduction_list l =
     (omp_list_num OMP_LIST_REDUCTION_FIRST \<le> omp_list_num l
      \<and> omp_list_num l \<le> omp_list_num OMP_LIST_REDUCTION_LAST)"

text \<open>The table \<open>clause_names\<close> and the choice of \<open>name\<close> from it.\<close>

definition clause_names :: "string list" where
  "clause_names =
     [''PRIVATE'', ''FIRSTPRIVATE'', ''LASTPRIVATE'', ''COPYPRIVATE'', ''SHARED'',
      ''COPYIN'', ''UNIFORM'', ''ALIGNED'', ''LINEAR'', ''DEPEND'', ''DEPEND'',
      ''REDUCTION'']"

definition clause_name :: "omp_list \<Rightarrow> string" where
  "clause_name l =
     (if omp_list_num l < omp_list_num OMP_LIST_REDUCTION_FIRST
      then clause_names ! omp_list_num l
      else clause_names ! omp_list_num OMP_LIST_REDUCTION_FIRST)"

subsection \<open>The scalar clause expressions\<close>

text \<open>
  \<open>!gfc_resolve_expr (expr) || expr->ts.type != t || expr->rank != 0\<close>, read on the
  expression as resolution leaves it.
\<close>

definition not_scalar_of_type :: "gfc_ext \<Rightarrow> bt \<Rightarrow> gfc_expr \<Rightarrow> bool" where
  "not_scalar_of_type ext t e =
     (let (ok, e') = gfc_resolve_expr ext e
      in \<not> ok \<or> ts_type (e_ts (hdr e')) \<noteq> t \<or> e_rank (hdr e') \<noteq> 0)"

definition check_scalar_clause ::
  "gfc_ext \<Rightarrow> bt \<Rightarrow> (locus \<Rightarrow> clause_error) \<Rightarrow> gfc_expr option \<Rightarrow> clause_error list"
where
  "check_scalar_clause ext t err x =
     (case x of
        None \<Rightarrow> []
      | Some e \<Rightarrow> if not_scalar_of_type ext t e then [err (e_where (hdr e))] else [])"

subsection \<open>Marks: no symbol on several clauses\<close>

definition set_mark :: "sym_heap \<Rightarrow> sym_ptr \<Rightarrow> bool \<Rightarrow> sym_heap" where
  "set_mark syms p b = syms(p := (syms p)\<lparr>mark := b\<rparr>)"

text \<open>
  The body of the first loop over all lists (\<open>n->sym->mark = 0\<close>, then the test that the
  object is a variable).  \<open>code_null\<close> is \<open>!code\<close>, \<open>ns\<close> the namespace argument and
  \<open>cur\<close> the current namespace \<open>gfc_current_ns\<close>.
\<close>

definition in_entry_master :: "sym_heap \<Rightarrow> gfc_namespace \<Rightarrow> sym_ptr \<Rightarrow> bool" where
  "in_entry_master syms nsp p =
     (entry_master (attr (syms (proc_name nsp))) \<and> p \<in> set (entries nsp))"

definition check_is_variable ::
  "bool \<Rightarrow> ns_ptr \<Rightarrow> gfc_namespace \<Rightarrow> sym_heap \<Rightarrow> sym_ptr \<Rightarrow> clause_error list"
where
  "check_is_variable code_null ns cur syms p =
     (let sy = syms p;
          not_dummy = (code_null \<and> (\<not> dummy (attr sy) \<or> sym_ns sy \<noteq> ns))
      in if flavor (attr sy) = FL_VARIABLE \<or> proc_pointer (attr sy) \<or> not_dummy
         then (if not_dummy then [Err_not_dummy_argument p] else [])
         else if flavor (attr sy) = FL_PROCEDURE \<and> sym_result sy = Some p
                 \<and> attr_function (attr sy)
                 \<and> (proc_name cur = p
                     \<or> (case parent cur of None \<Rightarrow> False | Some par \<Rightarrow> proc_name par = p)
                     \<or> in_entry_master syms cur p
                     \<or> (case parent cur of
                           None \<Rightarrow> False
                         | Some par \<Rightarrow> in_entry_master syms par p))
         then []
         else [Err_not_a_variable p])"

fun clear_and_check ::
  "bool \<Rightarrow> ns_ptr \<Rightarrow> gfc_namespace \<Rightarrow> sym_heap \<Rightarrow> gfc_omp_namelist list
     \<Rightarrow> sym_heap \<times> clause_error list"
where
  "clear_and_check code_null ns cur syms [] = (syms, [])"
| "clear_and_check code_null ns cur syms (n # ns') =
     (let syms1 = set_mark syms (nl_sym n) False;
          e = check_is_variable code_null ns cur syms1 (nl_sym n);
          (syms2, es) = clear_and_check code_null ns cur syms1 ns'
      in (syms2, e @ es))"

text \<open>
  \<open>if (n->sym->mark) gfc_error (...) else n->sym->mark = 1\<close> along one list.
\<close>

fun mark_or_report :: "sym_heap \<Rightarrow> gfc_omp_namelist list \<Rightarrow> sym_heap \<times> clause_error list" where
  "mark_or_report syms [] = (syms, [])"
| "mark_or_report syms (n # ns) =
     (if mark (syms (nl_sym n))
      then (let (syms', es) = mark_or_report syms ns
            in (syms', Err_multiple_clauses (nl_sym n) # es))
      else mark_or_report (set_mark syms (nl_sym n) True) ns)"

text \<open>
  \<open>if (n->sym->mark) { gfc_error (...); n->sym->mark = 0; }\<close> along one list.
\<close>

fun report_and_unmark :: "sym_heap \<Rightarrow> gfc_omp_namelist list \<Rightarrow> sym_heap \<times> clause_error list" where
  "report_and_unmark syms [] = (syms, [])"
| "report_and_unmark syms (n # ns) =
     (if mark (syms (nl_sym n))
      then (let (syms', es) = report_and_unmark (set_mark syms (nl_sym n) False) ns
            in (syms', Err_multiple_clauses (nl_sym n) # es))
      else report_and_unmark syms ns)"

text \<open>\<open>n->sym->mark = 0\<close> along one list.\<close>

fun unmark :: "sym_heap \<Rightarrow> gfc_omp_namelist list \<Rightarrow> sym_heap" where
  "unmark syms [] = syms"
| "unmark syms (n # ns) = unmark (set_mark syms (nl_sym n) False) ns"

text \<open>A pass \<open>f\<close> over the lists \<open>ls\<close> of a clause set, in order.\<close>

fun over_lists ::
  "(sym_heap \<Rightarrow> gfc_omp_namelist list \<Rightarrow> sym_heap \<times> clause_error list) \<Rightarrow> gfc_omp_clauses
     \<Rightarrow> sym_heap \<Rightarrow> omp_list list \<Rightarrow> sym_heap \<times> clause_error list"
where
  "over_lists f c syms [] = (syms, [])"
| "over_lists f c syms (l # ls) =
     (let (syms1, e) = f syms (omp_lists c l);
          (syms2, es) = over_lists f c syms1 ls
      in (syms2, e @ es))"

text \<open>The lists the first marking pass leaves out.\<close>

definition exempt_from_marking :: "omp_list \<Rightarrow> bool" where
  "exempt_from_marking l =
     (l = OMP_LIST_FIRSTPRIVATE \<or> l = OMP_LIST_LASTPRIVATE \<or> l = OMP_LIST_ALIGNED
      \<or> l = OMP_LIST_DEPEND_IN \<or> l = OMP_LIST_DEPEND_OUT)"

text \<open>
  Lines 1181 to 1281: the marks are cleared, every list outside the exempt ones is
  marked with a report of each symbol met twice, then firstprivate and lastprivate
  report (and unmark) what is marked already, and firstprivate, lastprivate and aligned
  are each checked for a symbol listed twice.
\<close>

definition check_multiple_clauses ::
  "bool \<Rightarrow> ns_ptr \<Rightarrow> gfc_namespace \<Rightarrow> gfc_omp_clauses \<Rightarrow> sym_heap
     \<Rightarrow> sym_heap \<times> clause_error list"
where
  "check_multiple_clauses code_null ns cur c syms =
     (let (s0, e0) = over_lists (clear_and_check code_null ns cur) c syms all_omp_lists;
          (s1, e1) = over_lists mark_or_report c s0
                       (filter (\<lambda>l. \<not> exempt_from_marking l) all_omp_lists);
          (s2, e2) = over_lists report_and_unmark c s1
                       [OMP_LIST_FIRSTPRIVATE, OMP_LIST_LASTPRIVATE];
          (s3, e3) = mark_or_report s2 (omp_lists c OMP_LIST_FIRSTPRIVATE);
          s4 = unmark s3 (omp_lists c OMP_LIST_LASTPRIVATE);
          (s5, e5) = mark_or_report s4 (omp_lists c OMP_LIST_LASTPRIVATE);
          s6 = unmark s5 (omp_lists c OMP_LIST_ALIGNED);
          (s7, e7) = mark_or_report s6 (omp_lists c OMP_LIST_ALIGNED)
      in (s7, e0 @ e1 @ e2 @ e3 @ e5 @ e7))"

subsection \<open>The checks of each list-class\<close>

definition has_alloc_comp :: "gfc_symbol \<Rightarrow> bool" where
  "has_alloc_comp sy =
     (ts_type (sym_ts sy) = BT_DERIVED \<and> alloc_comp (ts_derived (sym_ts sy)))"

definition is_assumed_size :: "gfc_symbol \<Rightarrow> bool" where
  "is_assumed_size sy = (sym_as sy = Some AS_ASSUMED_SIZE)"

definition check_copyin :: "sym_heap \<Rightarrow> gfc_omp_namelist \<Rightarrow> clause_error list" where
  "check_copyin syms n =
     (let p = nl_sym n; sy = syms p
      in (if \<not> threadprivate (attr sy) then [Err_copyin_non_threadprivate p] else [])
         @ (if has_alloc_comp sy then [Err_copyin_alloc_comp p] else []))"

definition check_copyprivate :: "sym_heap \<Rightarrow> gfc_omp_namelist \<Rightarrow> clause_error list" where
  "check_copyprivate syms n =
     (let p = nl_sym n; sy = syms p
      in (if is_assumed_size sy then [Err_copyprivate_assumed_size p] else [])
         @ (if has_alloc_comp sy then [Err_copyprivate_alloc_comp p] else []))"

definition check_shared :: "sym_heap \<Rightarrow> gfc_omp_namelist \<Rightarrow> clause_error list" where
  "check_shared syms n =
     (let p = nl_sym n; sy = syms p
      in (if threadprivate (attr sy) then [Err_shared_threadprivate p] else [])
         @ (if cray_pointee (attr sy) then [Err_shared_cray_pointee p] else []))"

definition check_aligned :: "gfc_ext \<Rightarrow> sym_heap \<Rightarrow> gfc_omp_namelist \<Rightarrow> clause_error list" where
  "check_aligned ext syms n =
     (let p = nl_sym n; sy = syms p
      in if \<not> pointer (attr sy) \<and> \<not> allocatable (attr sy) \<and> \<not> cray_pointer (attr sy)
            \<and> (ts_type (sym_ts sy) \<noteq> BT_DERIVED
                \<or> from_intmod (ts_derived (sym_ts sy)) \<noteq> INTMOD_ISO_C_BINDING
                \<or> \<not> is_isocbinding_ptr (ts_derived (sym_ts sy)))
         then [Err_aligned_object p]
         else (case nl_expr n of
                 None \<Rightarrow> []
               | Some e \<Rightarrow>
                   (let (ok, e') = gfc_resolve_expr ext e
                    in if \<not> ok \<or> ts_type (e_ts (hdr e')) \<noteq> BT_INTEGER \<or> e_rank (hdr e') \<noteq> 0
                          \<or> (case gfc_extract_int ext e' of
                                None \<Rightarrow> True
                              | Some alignment \<Rightarrow> alignment \<le> 0)
                       then [Err_aligned_alignment p]
                       else [])))"

text \<open>
  \<open>start\<close> and \<open>end\<close> both constant with \<open>mpz_cmp (start, end) > 0\<close>; the integer of a
  constant is its \<open>value.integer\<close>.
\<close>

definition constant_integer :: "gfc_expr option \<Rightarrow> int option" where
  "constant_integer x =
     (case x of
        None \<Rightarrow> None
      | Some e \<Rightarrow>
          (case e_val e of V_constant i \<Rightarrow> Some i | _ \<Rightarrow> None))"

text \<open>The loop over the dimensions of a depend array section: the first finding ends it.\<close>

fun check_depend_dims :: "sym_ptr \<Rightarrow> gfc_dimen list \<Rightarrow> clause_error list" where
  "check_depend_dims p [] = []"
| "check_depend_dims p (d # ds) =
     (if ar_stride d \<noteq> None then [Err_depend_stride]
      else if dimen_type d \<noteq> DIMEN_ELEMENT \<and> dimen_type d \<noteq> DIMEN_RANGE
      then [Err_depend_not_array_section p]
      else (case (constant_integer (ar_start d), constant_integer (ar_end d)) of
              (Some a, Some b) \<Rightarrow>
                if a > b then [Err_depend_zero_size p] else check_depend_dims p ds
            | _ \<Rightarrow> check_depend_dims p ds))"

definition check_depend :: "gfc_ext \<Rightarrow> gfc_omp_namelist \<Rightarrow> clause_error list" where
  "check_depend ext n =
     (case nl_expr n of
        None \<Rightarrow> []
      | Some e \<Rightarrow>
          (let (ok, e') = gfc_resolve_expr ext e
           in if \<not> ok \<or> expr_type e' \<noteq> EXPR_VARIABLE
              then [Err_depend_not_array_section (nl_sym n)]
              else (case e_ref e' of
                      [REF_ARRAY ar] \<Rightarrow>
                        if codimen ar \<noteq> 0 then [Err_depend_coarray]
                        else check_depend_dims (nl_sym n) (ar_dims ar)
                    | _ \<Rightarrow> [Err_depend_not_array_section (nl_sym n)])))"

text \<open>
  The inner \<open>switch (list)\<close> of the default branch: the type of a reduction variable,
  and the linear clause.  The strings are the operator names the messages print (the
  source prints \<open>IEOR\<close> for the class \<open>OMP_LIST_IOR\<close> too, since it compares with
  \<open>OMP_LIST_MULT\<close> there).  The second component is True when
  \<open>gcc_assert (code && code->op != EXEC_NOP)\<close> fails for the private list.
\<close>

definition check_linear ::
  "gfc_ext \<Rightarrow> exec_op option \<Rightarrow> sym_heap \<Rightarrow> gfc_omp_namelist \<Rightarrow> clause_error list"
where
  "check_linear ext code syms n =
     (let p = nl_sym n; sy = syms p
      in if ts_type (sym_ts sy) \<noteq> BT_INTEGER then [Err_linear_integer p]
         else if code = None \<and> \<not> attr_value (attr sy) then [Err_linear_value p]
         else (case nl_expr n of
                 None \<Rightarrow> []
               | Some e \<Rightarrow>
                   (let (ok, e') = gfc_resolve_expr ext e
                    in if \<not> ok \<or> ts_type (e_ts (hdr e')) \<noteq> BT_INTEGER \<or> e_rank (hdr e') \<noteq> 0
                       then [Err_linear_step_scalar p]
                       else if code = None \<and> expr_type e' \<noteq> EXPR_CONSTANT
                       then [Err_linear_step_constant p]
                       else [])))"

definition check_list_switch ::
  "gfc_ext \<Rightarrow> exec_op option \<Rightarrow> sym_heap \<Rightarrow> omp_list \<Rightarrow> gfc_omp_namelist
     \<Rightarrow> clause_error list \<times> bool"
where
  "check_list_switch ext code syms l n =
     (let p = nl_sym n; t = sym_ts (syms p)
      in if l = OMP_LIST_PLUS \<or> l = OMP_LIST_MULT \<or> l = OMP_LIST_SUB
         then (if \<not> gfc_numeric_ts t
               then [Err_reduction_numeric l
                       (if l = OMP_LIST_PLUS then ''+''
                        else if l = OMP_LIST_MULT then ''*'' else ''-'') p]
               else [], False)
         else if l = OMP_LIST_AND \<or> l = OMP_LIST_OR \<or> l = OMP_LIST_EQV \<or> l = OMP_LIST_NEQV
         then (if ts_type t \<noteq> BT_LOGICAL
               then [Err_reduction_logical l
                       (if l = OMP_LIST_AND then ''.AND.''
                        else if l = OMP_LIST_OR then ''.OR.''
                        else if l = OMP_LIST_EQV then ''.EQV.'' else ''.NEQV.'') p]
               else [], False)
         else if l = OMP_LIST_MAX \<or> l = OMP_LIST_MIN
         then (if ts_type t \<noteq> BT_INTEGER \<and> ts_type t \<noteq> BT_REAL
               then [Err_reduction_integer_or_real l
                       (if l = OMP_LIST_MAX then ''MAX'' else ''MIN'') p]
               else [], False)
         else if l = OMP_LIST_IAND \<or> l = OMP_LIST_IOR \<or> l = OMP_LIST_IEOR
         then (if ts_type t \<noteq> BT_INTEGER
               then [Err_reduction_integer l
                       (if l = OMP_LIST_IAND then ''IAND''
                        else if l = OMP_LIST_MULT then ''IOR'' else ''IEOR'') p]
               else [], False)
         else if l = OMP_LIST_LINEAR then (check_linear ext code syms n, False)
         else if l = OMP_LIST_PRIVATE
         then ([], \<not> (code \<noteq> None \<and> code \<noteq> Some EXEC_NOP))
         else ([], False))"

text \<open>The body of the default branch for one entry of the list \<open>l\<close>.\<close>

definition check_default ::
  "gfc_ext \<Rightarrow> exec_op option \<Rightarrow> sym_heap \<Rightarrow> omp_list \<Rightarrow> gfc_omp_namelist
     \<Rightarrow> clause_error list \<times> bool"
where
  "check_default ext code syms l n =
     (let p = nl_sym n; sy = syms p; name = clause_name l; red = is_reduction_list l;
          (es, abort) = check_list_switch ext code syms l n
      in ((if threadprivate (attr sy) then [Err_threadprivate_object p name] else [])
          @ (if cray_pointee (attr sy) then [Err_cray_pointee p name] else [])
          @ (if l \<noteq> OMP_LIST_PRIVATE
             then (if pointer (attr sy) \<and> red then [Err_pointer_object p name] else [])
                  @ (if \<not> red \<and> has_alloc_comp sy then [Err_alloc_comp p name] else [])
                  @ (if cray_pointer (attr sy) \<and> red then [Err_cray_pointer p name] else [])
             else [])
          @ (if is_assumed_size sy then [Err_assumed_size p name] else [])
          @ (if in_namelist (attr sy) \<and> \<not> red then [Err_in_namelist p name] else [])
          @ es,
          abort))"

text \<open>The outer \<open>switch (list)\<close>: the check that one entry of the list \<open>l\<close> gets.\<close>

definition check_entry ::
  "gfc_ext \<Rightarrow> exec_op option \<Rightarrow> sym_heap \<Rightarrow> omp_list \<Rightarrow> gfc_omp_namelist
     \<Rightarrow> clause_error list \<times> bool"
where
  "check_entry ext code syms l n =
     (if l = OMP_LIST_COPYIN then (check_copyin syms n, False)
      else if l = OMP_LIST_COPYPRIVATE then (check_copyprivate syms n, False)
      else if l = OMP_LIST_SHARED then (check_shared syms n, False)
      else if l = OMP_LIST_ALIGNED then (check_aligned ext syms n, False)
      else if l = OMP_LIST_DEPEND_IN \<or> l = OMP_LIST_DEPEND_OUT then (check_depend ext n, False)
      else check_default ext code syms l n)"

text \<open>
  A loop whose body may end the whole function by a failed assertion: the errors
  reported up to there are kept, and the flag says that the compiler stopped.
\<close>

fun until_abort :: "('a \<Rightarrow> clause_error list \<times> bool) \<Rightarrow> 'a list \<Rightarrow> clause_error list \<times> bool" where
  "until_abort f [] = ([], False)"
| "until_abort f (x # xs) =
     (let (e, abort) = f x
      in if abort then (e, True)
         else (let (es, abort') = until_abort f xs in (e @ es, abort')))"

definition check_lists ::
  "gfc_ext \<Rightarrow> exec_op option \<Rightarrow> sym_heap \<Rightarrow> gfc_omp_clauses \<Rightarrow> clause_error list \<times> bool"
where
  "check_lists ext code syms c =
     until_abort (\<lambda>l. until_abort (check_entry ext code syms l) (omp_lists c l)) all_omp_lists"

subsection \<open>The validator\<close>

text \<open>
  The outcome of \<open>resolve_omp_clauses\<close>: the errors in the order they are reported,
  whether an assertion stopped the compiler, and the symbol heap with the marks as the
  function leaves them.  \<open>code\<close> is \<open>None\<close> for a null statement and the statement's
  \<open>op\<close> otherwise; \<open>omp_clauses\<close> is \<open>None\<close> for a null clause set.  What
  \<open>gfc_resolve_expr\<close> does to an expression is read by the check that calls it and is
  not written back into the clause set.
\<close>

record resolve_outcome =
  reported :: "clause_error list"
  stopped :: bool
  syms_after :: sym_heap

definition resolve_omp_clauses ::
  "gfc_ext \<Rightarrow> gfc_namespace \<Rightarrow> sym_heap \<Rightarrow> exec_op option \<Rightarrow> gfc_omp_clauses option
     \<Rightarrow> ns_ptr \<Rightarrow> resolve_outcome"
where
  "resolve_omp_clauses ext cur syms code omp_clauses ns =
     (case omp_clauses of
        None \<Rightarrow> \<lparr> reported = [], stopped = False, syms_after = syms \<rparr>
      | Some c \<Rightarrow>
          (let e_scalar =
                 check_scalar_clause ext BT_LOGICAL Err_if_scalar_logical (if_expr c)
                 @ check_scalar_clause ext BT_LOGICAL Err_final_scalar_logical (final_expr c)
                 @ check_scalar_clause ext BT_INTEGER Err_num_threads_scalar_integer
                     (num_threads c)
                 @ check_scalar_clause ext BT_INTEGER Err_chunk_size_scalar_integer
                     (chunk_size c);
               (syms', e_marks) = check_multiple_clauses (code = None) ns cur c syms;
               (e_lists, abort) = check_lists ext code syms' c
           in if abort
              then \<lparr> reported = e_scalar @ e_marks @ e_lists, stopped = True,
                     syms_after = syms' \<rparr>
              else \<lparr> reported = e_scalar @ e_marks @ e_lists
                       @ check_scalar_clause ext BT_INTEGER Err_safelen_scalar_integer
                           (safelen_expr c)
                       @ check_scalar_clause ext BT_INTEGER Err_simdlen_scalar_integer
                           (simdlen_expr c),
                     stopped = False, syms_after = syms' \<rparr>))"

text \<open>
  The requirement on the type of a reduction variable, as the specification words it:
  the arithmetic operators need a numeric type, the logical operators a boolean type,
  \<open>max\<close> and \<open>min\<close> integer or real, \<open>iand\<close>, \<open>ior\<close> and \<open>ieor\<close> integer.
\<close>

definition spec_reduction_type_ok :: "omp_list \<Rightarrow> gfc_typespec \<Rightarrow> bool" where
  "spec_reduction_type_ok l t =
     (if l \<in> {OMP_LIST_PLUS, OMP_LIST_MULT, OMP_LIST_SUB}
      then ts_type t \<in> {BT_INTEGER, BT_REAL, BT_COMPLEX}
      else if l \<in> {OMP_LIST_AND, OMP_LIST_OR, OMP_LIST_EQV, OMP_LIST_NEQV}
      then ts_type t = BT_LOGICAL
      else if l \<in> {OMP_LIST_MAX, OMP_LIST_MIN}
      then ts_type t \<in> {BT_INTEGER, BT_REAL}
      else if l \<in> {OMP_LIST_IAND, OMP_LIST_IOR, OMP_LIST_IEOR}
      then ts_type t = BT_INTEGER
      else True)"

text \<open>The errors that say that the type of the reduction variable \<open>p\<close> of the
  list-class \<open>l\<close> is wrong.\<close>

definition is_reduction_type_error :: "omp_list \<Rightarrow> sym_ptr \<Rightarrow> clause_error \<Rightarrow> bool" where
  "is_reduction_type_error l p e =
     (case e of
        Err_reduction_numeric l' s q \<Rightarrow> l' = l \<and> q = p
      | Err_reduction_logical l' s q \<Rightarrow> l' = l \<and> q = p
      | Err_reduction_integer_or_real l' s q \<Rightarrow> l' = l \<and> q = p
      | Err_reduction_integer l' s q \<Rightarrow> l' = l \<and> q = p
      | _ \<Rightarrow> False)"

text \<open>How often a symbol stands on a list, and how often it is reported as present on
  multiple clauses.\<close>

definition occurrences :: "sym_ptr \<Rightarrow> gfc_omp_namelist list \<Rightarrow> nat" where
  "occurrences p ns = length (filter (\<lambda>n. nl_sym n = p) ns)"

definition multiple_clause_errors :: "sym_ptr \<Rightarrow> clause_error list \<Rightarrow> nat" where
  "multiple_clause_errors p es = length (filter (\<lambda>e. e = Err_multiple_clauses p) es)"

definition occ_lists :: "sym_ptr \<Rightarrow> gfc_omp_clauses \<Rightarrow> omp_list list \<Rightarrow> nat" where
  "occ_lists p c ls = sum_list (map (\<lambda>l. occurrences p (omp_lists c l)) ls)"

text \<open>The number of "present on multiple clauses" errors that validating the clause set
  \<open>c\<close> reports for the symbol \<open>p\<close>.\<close>

definition multiple_reports ::
  "gfc_ext \<Rightarrow> gfc_namespace \<Rightarrow> sym_heap \<Rightarrow> exec_op option \<Rightarrow> gfc_omp_clauses \<Rightarrow> ns_ptr
     \<Rightarrow> sym_ptr \<Rightarrow> nat"
where
  "multiple_reports ext cur syms code c ns p =
     multiple_clause_errors p (reported (resolve_omp_clauses ext cur syms code (Some c) ns))"

section \<open>Atomic directives: \<open>resolve_omp_atomic\<close>\<close>

subsection \<open>Statements and diagnostics\<close>

text \<open>An assignment statement \<open>gfc_code\<close>: its \<open>op\<close>, its location and its two
  expressions.  The \<open>next\<close> link is the tail of the list that holds the statement.\<close>

record gfc_code =
  c_op :: exec_op
  c_loc :: locus
  expr1 :: gfc_expr
  expr2 :: gfc_expr

datatype gfc_omp_atomic_op =
    GFC_OMP_ATOMIC_UPDATE | GFC_OMP_ATOMIC_READ | GFC_OMP_ATOMIC_WRITE
  | GFC_OMP_ATOMIC_CAPTURE

text \<open>
  The directive statement: \<open>ext.omp_atomic\<close> is the operation kind (the bits under
  \<open>GFC_OMP_ATOMIC_MASK\<close>) with the flags \<open>GFC_OMP_ATOMIC_SEQ_CST\<close> and
  \<open>GFC_OMP_ATOMIC_SWAP\<close>; \<open>block\<close> is the statement list \<open>code->block->next\<close>.
\<close>

record atomic_code =
  omp_atomic :: gfc_omp_atomic_op
  seq_cst :: bool
  swap :: bool
  block :: "gfc_code list"

text \<open>One constructor for each \<open>gfc_error\<close> call of \<open>resolve_omp_atomic\<close>, with the
  location the message is reported at (and the symbol whose name it prints).\<close>

datatype atomic_error =
    Err_atomic_must_set_scalar locus
  | Err_atomic_read_must_read_scalar locus
  | Err_atomic_write_expr locus
  | Err_capture_must_read_scalar locus
  | Err_capture_update_must_set_scalar locus
  | Err_capture_different_variable locus
  | Err_atomic_allocatable locus
  | Err_atomic_operator locus
  | Err_atomic_var_op_expr locus
  | Err_atomic_not_mathematically_equivalent locus
  | Err_atomic_expr_references_var locus
  | Err_atomic_intrinsic_two_arguments locus
  | Err_atomic_intrinsic_kind locus
  | Err_atomic_intrinsic_args_reference sym_ptr locus
  | Err_atomic_intrinsic_args_scalar locus
  | Err_atomic_intrinsic_first_or_last sym_ptr locus
  | Err_atomic_no_operator locus
  | Err_capture_must_set_scalar locus

subsection \<open>\<open>expr_references_sym\<close> and \<open>is_conversion\<close>\<close>

text \<open>
  \<open>expr_references_sym (e, s, se)\<close> for a non-null \<open>e\<close>; \<open>se\<close> is the address of the
  node to leave out, or \<open>None\<close> for a null \<open>se\<close>.  A null operand or argument refers to
  nothing.
\<close>

fun expr_references_sym :: "gfc_expr \<Rightarrow> sym_ptr \<Rightarrow> nat option \<Rightarrow> bool" where
  "expr_references_sym (Gfc_expr h r v) s se =
     (if Some (e_addr h) = se then False
      else (case v of
              V_op _ op1 op2 \<Rightarrow>
                (case op2 of None \<Rightarrow> False | Some b \<Rightarrow> expr_references_sym b s se)
                \<or> expr_references_sym op1 s se
            | V_function _ _ actual \<Rightarrow>
                list_ex (\<lambda>arg. case arg of None \<Rightarrow> False
                                | Some a \<Rightarrow> expr_references_sym a s se) actual
            | V_substring \<Rightarrow>
                (case r of
                   REF_SUBSTRING ss_start ss_end # _ \<Rightarrow>
                     (case ss_start of None \<Rightarrow> False | Some a \<Rightarrow> expr_references_sym a s se)
                     \<or> (case ss_end of None \<Rightarrow> False | Some b \<Rightarrow> expr_references_sym b s se)
                 | _ \<Rightarrow> False)
            | _ \<Rightarrow> symtree h = Some s))"

text \<open>
  \<open>is_conversion (expr, widening)\<close>.  The comparison \<open>ts1->type > ts2->type\<close> is the
  order \<open>bt_gt\<close> of the enumeration.  A conversion call always has its argument; a
  call without one is read as no conversion.
\<close>

definition is_conversion :: "gfc_ext \<Rightarrow> gfc_expr \<Rightarrow> bool \<Rightarrow> gfc_expr option" where
  "is_conversion ext expr widening =
     (case e_val expr of
        V_function (Some GFC_ISYM_CONVERSION) None (Some arg # _) \<Rightarrow>
          (let ts1 = (if widening then e_ts (hdr expr) else e_ts (hdr arg));
               ts2 = (if widening then e_ts (hdr arg) else e_ts (hdr expr))
           in if bt_gt ext (ts_type ts1) (ts_type ts2)
                 \<or> (ts_type ts1 = ts_type ts2 \<and> ts_kind ts1 > ts_kind ts2)
              then Some arg else None)
      | _ \<Rightarrow> None)"

definition intrinsic_type :: "bt \<Rightarrow> bool" where
  "intrinsic_type t = (t = BT_INTEGER \<or> t = BT_REAL \<or> t = BT_COMPLEX \<or> t = BT_LOGICAL)"

text \<open>The test the function makes five times: a scalar variable of intrinsic type.\<close>

definition scalar_intrinsic_variable :: "gfc_expr \<Rightarrow> bool" where
  "scalar_intrinsic_variable e =
     (expr_type e = EXPR_VARIABLE \<and> symtree (hdr e) \<noteq> None \<and> e_rank (hdr e) = 0
      \<and> intrinsic_type (ts_type (e_ts (hdr e))))"

text \<open>\<open>e->expr_type == EXPR_VARIABLE && e->symtree != NULL && e->symtree->n.sym == var\<close>.\<close>

definition is_var :: "gfc_expr \<Rightarrow> sym_ptr \<Rightarrow> bool" where
  "is_var e var = (expr_type e = EXPR_VARIABLE \<and> symtree (hdr e) = Some var)"

text \<open>
  The choice of \<open>expr2\<close> for a right-hand side: the argument of a narrowing conversion,
  else (where widening conversions are looked through as well) the argument of a
  widening conversion, else the right-hand side itself.  The flag says whether \<open>expr2\<close>
  is the right-hand side itself (\<open>expr2 == code->expr2\<close>).
\<close>

definition choose_expr2 :: "gfc_ext \<Rightarrow> gfc_expr \<Rightarrow> bool \<Rightarrow> gfc_expr \<times> bool" where
  "choose_expr2 ext rhs widening_too =
     (case is_conversion ext rhs False of
        Some x \<Rightarrow> (x, False)
      | None \<Rightarrow>
          (if widening_too
           then (case is_conversion ext rhs True of Some x \<Rightarrow> (x, False) | None \<Rightarrow> (rhs, True))
           else (rhs, True)))"

text \<open>Storing a new \<open>expr2\<close>: into \<open>code->expr2\<close> when \<open>expr2\<close> was the right-hand side
  itself, else into the argument of the conversion call that the right-hand side is.\<close>

definition store_expr2 :: "gfc_code \<Rightarrow> bool \<Rightarrow> gfc_expr \<Rightarrow> gfc_code" where
  "store_expr2 code is_rhs e =
     (if is_rhs then code\<lparr>expr2 := e\<rparr>
      else (case expr2 code of
              Gfc_expr h r (V_function isym esym (_ # actual)) \<Rightarrow>
                code\<lparr>expr2 := Gfc_expr h r (V_function isym esym (Some e # actual))\<rparr>
            | _ \<Rightarrow> code))"

subsection \<open>The operator shape\<close>

text \<open>The first \<open>switch (op)\<close>: the alternative operator, or \<open>None\<close> for the default
  branch that reports an error.\<close>

fun alt_op_of :: "gfc_intrinsic_op \<Rightarrow> gfc_intrinsic_op option" where
  "alt_op_of INTRINSIC_PLUS = Some INTRINSIC_MINUS"
| "alt_op_of INTRINSIC_TIMES = Some INTRINSIC_DIVIDE"
| "alt_op_of INTRINSIC_MINUS = Some INTRINSIC_PLUS"
| "alt_op_of INTRINSIC_DIVIDE = Some INTRINSIC_TIMES"
| "alt_op_of INTRINSIC_AND = Some INTRINSIC_NONE"
| "alt_op_of INTRINSIC_OR = Some INTRINSIC_NONE"
| "alt_op_of INTRINSIC_EQV = Some INTRINSIC_NEQV"
| "alt_op_of INTRINSIC_NEQV = Some INTRINSIC_EQV"
| "alt_op_of _ = None"

text \<open>
  The loop \<open>for (q = &expr2->value.op.op1; (e = *q) != NULL; )\<close>, started at the node
  in \<open>*q\<close>.  \<open>Found_direct v\<close>: the variable node \<open>v\<close> was reached with \<open>p\<close> still null.
  \<open>Found_under v d t\<close>: \<open>v\<close> was reached, \<open>*p\<close> is the operator node \<open>d\<close>, and \<open>t\<close> is
  the tree the loop started at with \<open>d\<close>'s right operand put in the place of \<open>d\<close>
  (the effect of \<open>*p = e->value.op.op2\<close>).  \<open>Not_found\<close>: the loop ended with \<open>v\<close>
  null.  \<open>No_operand\<close>: \<open>*p\<close> has no right operand to put there.
\<close>

datatype var_search =
    Not_found
  | No_operand
  | Found_direct gfc_expr
  | Found_under gfc_expr gfc_expr gfc_expr

fun find_var_in_op1 ::
  "gfc_ext \<Rightarrow> gfc_intrinsic_op \<Rightarrow> gfc_intrinsic_op \<Rightarrow> sym_ptr \<Rightarrow> gfc_expr \<Rightarrow> var_search"
where
  "find_var_in_op1 ext op' alt_op var (Gfc_expr h r v) =
     (if is_var (Gfc_expr h r v) var then Found_direct (Gfc_expr h r v)
      else (case v of
              V_function isym esym (Some arg # actual) \<Rightarrow>
                if is_conversion ext (Gfc_expr h r v) True \<noteq> None
                then (case find_var_in_op1 ext op' alt_op var arg of
                        Found_under x d t \<Rightarrow>
                          Found_under x d
                            (Gfc_expr h r (V_function isym esym (Some t # actual)))
                      | other \<Rightarrow> other)
                else Not_found
            | V_op o1 a b \<Rightarrow>
                if (o1 \<noteq> op' \<and> o1 \<noteq> alt_op) \<or> e_rank h \<noteq> 0 then Not_found
                else (case find_var_in_op1 ext op' alt_op var a of
                        Found_direct x \<Rightarrow>
                          (case b of
                             None \<Rightarrow> No_operand
                           | Some b' \<Rightarrow> Found_under x (Gfc_expr h r v) b')
                      | Found_under x d t \<Rightarrow> Found_under x d (Gfc_expr h r (V_op o1 t b))
                      | other \<Rightarrow> other)
            | _ \<Rightarrow> Not_found))"

text \<open>The operator of an operator node.\<close>

definition op_of :: "gfc_expr \<Rightarrow> gfc_intrinsic_op" where
  "op_of e = (case e_val e of V_op o1 _ _ \<Rightarrow> o1 | _ \<Rightarrow> INTRINSIC_NONE)"

text \<open>
  "Canonicalize into var = var op (expr)": \<open>d\<close> is \<open>*p\<close>, \<open>rest\<close> the old \<open>expr2\<close> after
  \<open>*p = e->value.op.op2\<close>.  The node \<open>d\<close> gets \<open>rest\<close> as its right operand and the type
  of \<open>expr2\<close>; when the type of its left operand differs from that, the left operand
  becomes \<open>v\<close> itself, converted in place (so it keeps its address).
\<close>

definition canonicalize_op ::
  "gfc_ext \<Rightarrow> gfc_expr \<Rightarrow> gfc_expr \<Rightarrow> gfc_expr \<Rightarrow> gfc_expr"
where
  "canonicalize_op ext d rest v =
     (case d of
        Gfc_expr h r (V_op o1 a _) \<Rightarrow>
          (let ts = e_ts (hdr rest);
               h' = h\<lparr>e_ts := ts\<rparr>
           in if \<not> gfc_compare_types ext (e_ts (hdr a)) ts
              then (case gfc_convert_type ext v ts of
                      Gfc_expr hv rv vv \<Rightarrow>
                        Gfc_expr h' r
                          (V_op o1 (Gfc_expr (hv\<lparr>e_addr := e_addr (hdr v)\<rparr>) rv vv)
                             (Some rest)))
              else Gfc_expr h' r (V_op o1 a (Some rest)))
      | _ \<Rightarrow> d)"

text \<open>
  The last test of the operator branch, on the node \<open>e\<close> and the variable node \<open>v\<close>:
  the errors so far, whether the function returns, and the statement.
\<close>

definition check_expr_scalar_no_var ::
  "atomic_error list \<Rightarrow> gfc_code \<Rightarrow> sym_ptr \<Rightarrow> gfc_expr \<Rightarrow> gfc_expr \<Rightarrow> locus
     \<Rightarrow> atomic_error list \<times> bool \<times> gfc_code"
where
  "check_expr_scalar_no_var errs code var e v loc =
     (if e_rank (hdr e) \<noteq> 0 \<or> expr_references_sym (expr2 code) var (Some (e_addr (hdr v)))
      then (errs @ [Err_atomic_expr_references_var loc], True, code)
      else (errs, False, code))"

text \<open>
  The branch \<open>expr2->expr_type == EXPR_OP\<close>.  The result is \<open>None\<close> when a binary
  operator node has no right operand (a null pointer is dereferenced), else the errors,
  whether the function has returned, and the statement with its canonical right-hand
  side.
\<close>

definition resolve_atomic_op ::
  "gfc_ext \<Rightarrow> sym_ptr \<Rightarrow> gfc_code \<Rightarrow> gfc_expr \<Rightarrow> bool
     \<Rightarrow> (atomic_error list \<times> bool \<times> gfc_code) option"
where
  "resolve_atomic_op ext var code e2 is_rhs =
     (case e2 of
        Gfc_expr h r (V_op op' a b) \<Rightarrow>
          (case alt_op_of op' of
             None \<Rightarrow> Some ([Err_atomic_operator (e_where h)], True, code)
           | Some alt_op \<Rightarrow>
               (case b of
                  None \<Rightarrow> None
                | Some e \<Rightarrow>
                    if is_var e var
                    then Some (check_expr_scalar_no_var [] code var e e (e_where h))
                    else if (case is_conversion ext e True of
                               None \<Rightarrow> False | Some c \<Rightarrow> is_var c var)
                    then (case is_conversion ext e True of
                            None \<Rightarrow> None
                          | Some c \<Rightarrow>
                              Some (check_expr_scalar_no_var [] code var e c (e_where h)))
                    else (case find_var_in_op1 ext op' alt_op var a of
                            Not_found \<Rightarrow> Some ([Err_atomic_var_op_expr (e_where h)], True, code)
                          | No_operand \<Rightarrow> None
                          | Found_direct v \<Rightarrow>
                              Some (check_expr_scalar_no_var [] code var v v (e_where h))
                          | Found_under v d t \<Rightarrow>
                              (let errs =
                                     (if op_of d = INTRINSIC_MINUS \<or> op_of d = INTRINSIC_DIVIDE
                                         \<or> op_of d = INTRINSIC_EQV \<or> op_of d = INTRINSIC_NEQV
                                      then [Err_atomic_not_mathematically_equivalent
                                              (e_where h)]
                                      else []);
                                   rest = Gfc_expr h r (V_op op' t b);
                                   e2' = canonicalize_op ext d rest v;
                                   code' = store_expr2 code is_rhs e2'
                               in Some (check_expr_scalar_no_var errs code' var e2' v
                                          (e_where (hdr e2')))))))
      | _ \<Rightarrow> None)"

subsection \<open>The intrinsic shape\<close>

datatype var_arg = No_var_arg | First_arg | Last_arg

text \<open>
  The loop over the actual arguments.  \<open>is_first\<close> says that \<open>arg\<close> is
  \<open>expr2->value.function.actual\<close>; the result is \<open>None\<close> for an argument without an
  expression, else the errors, whether the function returns, and \<open>var_arg\<close>.
\<close>

fun scan_actual_args ::
  "sym_ptr \<Rightarrow> bool \<Rightarrow> var_arg \<Rightarrow> gfc_expr option list
     \<Rightarrow> (atomic_error list \<times> bool \<times> var_arg) option"
where
  "scan_actual_args var is_first va [] = Some ([], False, va)"
| "scan_actual_args var is_first va (None # next) = None"
| "scan_actual_args var is_first va (Some e # next) =
     (let candidate = (is_first \<or> (va = No_var_arg \<and> next = [])) \<and> is_var e var
      in if \<not> candidate \<and> expr_references_sym e var None
         then Some ([Err_atomic_intrinsic_args_reference var (e_where (hdr e))], True, va)
         else if e_rank (hdr e) \<noteq> 0
         then Some ([Err_atomic_intrinsic_args_scalar (e_where (hdr e))], True, va)
         else scan_actual_args var False
                (if candidate then (if is_first then First_arg else Last_arg) else va) next)"

definition resolve_atomic_intrinsic ::
  "sym_ptr \<Rightarrow> gfc_code \<Rightarrow> gfc_expr \<Rightarrow> bool \<Rightarrow> (atomic_error list \<times> bool \<times> gfc_code) option"
where
  "resolve_atomic_intrinsic var code e2 is_rhs =
     (case e2 of
        Gfc_expr h r (V_function (Some isym_id) None actual) \<Rightarrow>
          (if isym_id \<noteq> GFC_ISYM_MIN \<and> isym_id \<noteq> GFC_ISYM_MAX \<and> isym_id \<noteq> GFC_ISYM_IAND
              \<and> isym_id \<noteq> GFC_ISYM_IOR \<and> isym_id \<noteq> GFC_ISYM_IEOR
           then Some ([Err_atomic_intrinsic_kind (e_where h)], True, code)
           else if (isym_id = GFC_ISYM_IAND \<or> isym_id = GFC_ISYM_IOR \<or> isym_id = GFC_ISYM_IEOR)
                   \<and> length actual > 2
           then Some ([Err_atomic_intrinsic_two_arguments (e_where h)], True, code)
           else (case scan_actual_args var True No_var_arg actual of
                   None \<Rightarrow> None
                 | Some (errs, returned, va) \<Rightarrow>
                     if returned then Some (errs, True, code)
                     else if va = No_var_arg
                     then Some ([Err_atomic_intrinsic_first_or_last var (e_where h)], True, code)
                     else if va = Last_arg
                     then Some ([], False,
                                store_expr2 code is_rhs
                                  (Gfc_expr h r
                                     (V_function (Some isym_id) None
                                        (last actual # butlast actual))))
                     else Some ([], False, code)))
      | _ \<Rightarrow> None)"

text \<open>
  The chain \<open>else if (expr2->expr_type == EXPR_OP) ... else if (EXPR_FUNCTION with an
  intrinsic and two arguments at least) ... else gfc_error (...)\<close>.
\<close>

definition resolve_atomic_shape ::
  "gfc_ext \<Rightarrow> sym_ptr \<Rightarrow> gfc_code \<Rightarrow> gfc_expr \<Rightarrow> bool
     \<Rightarrow> (atomic_error list \<times> bool \<times> gfc_code) option"
where
  "resolve_atomic_shape ext var code e2 is_rhs =
     (case e_val e2 of
        V_op _ _ _ \<Rightarrow> resolve_atomic_op ext var code e2 is_rhs
      | V_function (Some _) None (_ # _ # _) \<Rightarrow> resolve_atomic_intrinsic var code e2 is_rhs
      | _ \<Rightarrow> Some ([Err_atomic_no_operator (e_where (hdr e2))], False, code))"

subsection \<open>The capture statement behind an update\<close>

text \<open>Lines 1950 to 1995: the statement \<open>code\<close> that follows the update statement.\<close>

definition check_capture_statement :: "gfc_ext \<Rightarrow> sym_ptr \<Rightarrow> gfc_code \<Rightarrow> atomic_error list" where
  "check_capture_statement ext var code =
     (if \<not> scalar_intrinsic_variable (expr1 code)
      then [Err_capture_must_set_scalar (e_where (hdr (expr1 code)))]
      else (let (e2, _) = choose_expr2 ext (expr2 code) True
            in if \<not> scalar_intrinsic_variable e2
               then [Err_capture_must_read_scalar (e_where (hdr e2))]
               else if symtree (hdr e2) \<noteq> Some var
               then [Err_capture_different_variable (e_where (hdr e2))]
               else []))"

subsection \<open>The resolver\<close>

text \<open>
  From the test of the allocatable attribute to the end of the function.  \<open>code\<close> is
  the update statement, \<open>next\<close> the statement behind it (\<open>None\<close> for a null
  \<open>code->next\<close>).  The result is \<open>None\<close> where the shape checks dereference a null
  pointer, else the errors, the update statement and whether the swap flag is set.
\<close>

definition resolve_atomic_update ::
  "gfc_ext \<Rightarrow> sym_heap \<Rightarrow> gfc_omp_atomic_op \<Rightarrow> sym_ptr \<Rightarrow> gfc_code \<Rightarrow> gfc_code option
     \<Rightarrow> gfc_expr \<Rightarrow> bool \<Rightarrow> (atomic_error list \<times> gfc_code \<times> bool) option"
where
  "resolve_atomic_update ext syms aop var code next e2 is_rhs =
     (if allocatable (attr (syms var))
      then Some ([Err_atomic_allocatable (c_loc code)], code, False)
      else if aop = GFC_OMP_ATOMIC_CAPTURE \<and> next = None \<and> e_rank (hdr (expr2 code)) = 0
              \<and> \<not> expr_references_sym (expr2 code) var None
      then Some ([], code, True)
      else (case resolve_atomic_shape ext var code e2 is_rhs of
              None \<Rightarrow> None
            | Some (errs, returned, code') \<Rightarrow>
                if returned then Some (errs, code', False)
                else (case next of
                        Some capture \<Rightarrow>
                          if aop = GFC_OMP_ATOMIC_CAPTURE
                          then Some (errs @ check_capture_statement ext var capture, code', False)
                          else Some (errs, code', False)
                      | None \<Rightarrow> Some (errs, code', False))))"

text \<open>The two assertions at the head of the function.\<close>

definition atomic_block_ok :: "gfc_omp_atomic_op \<Rightarrow> gfc_code list \<Rightarrow> bool" where
  "atomic_block_ok aop stmts =
     (case stmts of
        [] \<Rightarrow> False
      | code # next \<Rightarrow>
          c_op code = EXEC_ASSIGN
          \<and> ((aop \<noteq> GFC_OMP_ATOMIC_CAPTURE \<and> next = [])
              \<or> (aop = GFC_OMP_ATOMIC_CAPTURE
                  \<and> (case next of [n] \<Rightarrow> c_op n = EXEC_ASSIGN | _ \<Rightarrow> False))))"

text \<open>
  \<open>expr2_tmp\<close> of the capture branch: \<open>expr2\<close>, or the argument of a widening
  conversion when \<open>expr2\<close> is the right-hand side itself and that is one.
\<close>

definition capture_expr2_tmp :: "gfc_ext \<Rightarrow> gfc_expr \<Rightarrow> gfc_expr" where
  "capture_expr2_tmp ext rhs =
     (let (e2, is_rhs) = choose_expr2 ext rhs False
      in if is_rhs then (case is_conversion ext rhs True of None \<Rightarrow> e2 | Some x \<Rightarrow> x)
         else e2)"

text \<open>
  The capture branch when \<open>expr2_tmp\<close> is a variable: \<open>code\<close> reads the variable and
  \<open>update\<close>, the statement behind it, updates it.  \<open>var\<close> is the variable that \<open>code\<close>
  sets.
\<close>

definition resolve_capture_then_update ::
  "gfc_ext \<Rightarrow> sym_heap \<Rightarrow> atomic_code \<Rightarrow> sym_ptr \<Rightarrow> gfc_code \<Rightarrow> gfc_code list
     \<Rightarrow> (atomic_error list \<times> atomic_code) option"
where
  "resolve_capture_then_update ext syms atomic var code next =
     (let expr2_tmp = capture_expr2_tmp ext (expr2 code)
      in if \<not> scalar_intrinsic_variable expr2_tmp \<or> symtree (hdr expr2_tmp) = Some var
         then Some ([Err_capture_must_read_scalar (e_where (hdr expr2_tmp))], atomic)
         else (case (symtree (hdr expr2_tmp), next) of
                 (Some var', [update]) \<Rightarrow>
                   if \<not> scalar_intrinsic_variable (expr1 update)
                   then Some ([Err_capture_update_must_set_scalar
                                 (e_where (hdr (expr1 update)))], atomic)
                   else if symtree (hdr (expr1 update)) \<noteq> Some var'
                   then Some ([Err_capture_different_variable
                                 (e_where (hdr (expr1 update)))], atomic)
                   else (let (e2, is_rhs) = choose_expr2 ext (expr2 update) False
                         in case resolve_atomic_update ext syms GFC_OMP_ATOMIC_CAPTURE var'
                                   update None e2 is_rhs of
                              None \<Rightarrow> None
                            | Some (errs, update', sw) \<Rightarrow>
                                Some (errs, atomic\<lparr>block := [code, update'],
                                                    swap := swap atomic \<or> sw\<rparr>))
               | _ \<Rightarrow> None))"

text \<open>
  \<open>resolve_omp_atomic\<close>.  The result is \<open>None\<close> when the compiler stops (a failed
  assertion or a null pointer), else the errors reported, in order, and the directive
  as the function leaves it.
\<close>

definition resolve_omp_atomic ::
  "gfc_ext \<Rightarrow> sym_heap \<Rightarrow> atomic_code \<Rightarrow> (atomic_error list \<times> atomic_code) option"
where
  "resolve_omp_atomic ext syms atomic =
     (let aop = omp_atomic atomic
      in if \<not> atomic_block_ok aop (block atomic) then None
         else (case block atomic of
                 [] \<Rightarrow> None
               | code # next \<Rightarrow>
                   (case symtree (hdr (expr1 code)) of
                      None \<Rightarrow> Some ([Err_atomic_must_set_scalar (c_loc code)], atomic)
                    | Some var \<Rightarrow>
                        if \<not> scalar_intrinsic_variable (expr1 code)
                        then Some ([Err_atomic_must_set_scalar (c_loc code)], atomic)
                        else (let (e2, is_rhs) =
                                    choose_expr2 ext (expr2 code)
                                      (aop = GFC_OMP_ATOMIC_READ \<or> aop = GFC_OMP_ATOMIC_WRITE)
                              in if aop = GFC_OMP_ATOMIC_READ
                                 then Some (if \<not> scalar_intrinsic_variable e2
                                            then [Err_atomic_read_must_read_scalar
                                                    (e_where (hdr e2))]
                                            else [], atomic)
                                 else if aop = GFC_OMP_ATOMIC_WRITE
                                 then Some (if e_rank (hdr e2) \<noteq> 0
                                               \<or> expr_references_sym (expr2 code) var None
                                            then [Err_atomic_write_expr (e_where (hdr e2))]
                                            else [], atomic)
                                 else if aop = GFC_OMP_ATOMIC_CAPTURE
                                         \<and> expr_type (capture_expr2_tmp ext (expr2 code))
                                             = EXPR_VARIABLE
                                 then resolve_capture_then_update ext syms atomic var code next
                                 else (case resolve_atomic_update ext syms aop var code
                                              (case next of [] \<Rightarrow> None | n # _ \<Rightarrow> Some n)
                                              e2 is_rhs of
                                         None \<Rightarrow> None
                                       | Some (errs, code', sw) \<Rightarrow>
                                           Some (errs,
                                             atomic\<lparr>block := code' # next,
                                               swap := swap atomic \<or> sw\<rparr>))))))"

text \<open>
  The statement that updates the variable, and the variable it sets: the first
  statement, or the second one where a capture directive reads the variable first.
\<close>

definition update_statement :: "gfc_ext \<Rightarrow> atomic_code \<Rightarrow> gfc_code option" where
  "update_statement ext atomic =
     (case block atomic of
        [] \<Rightarrow> None
      | code # next \<Rightarrow>
          if omp_atomic atomic = GFC_OMP_ATOMIC_CAPTURE
             \<and> expr_type (capture_expr2_tmp ext (expr2 code)) = EXPR_VARIABLE
          then (case next of [] \<Rightarrow> None | update # _ \<Rightarrow> Some update)
          else Some code)"

definition updated_variable :: "gfc_ext \<Rightarrow> atomic_code \<Rightarrow> sym_ptr option" where
  "updated_variable ext atomic =
     (case update_statement ext atomic of
        None \<Rightarrow> None
      | Some code \<Rightarrow> symtree (hdr (expr1 code)))"

section \<open>Parsing of directive clauses: \<open>gfc_match_omp_clauses\<close>\<close>

unbundle bit_operations_syntax

subsection \<open>The matchers of the front end\<close>

text \<open>The enumeration \<open>match\<close> of the front end (declared in a header outside src/).\<close>

datatype match = MATCH_NO | MATCH_YES | MATCH_ERROR

text \<open>
  One constructor for each diagnostic of the two parsing functions: the three
  \<open>gfc_error\<close> and \<open>gfc_error_now\<close> calls that print the current locus \<open>%C\<close>, and the
  message that \<open>gfc_extract_int\<close> hands back.
\<close>

datatype parse_error =
    Perr_syntax_in_variable_list locus
  | Perr_common_block_not_found string locus
  | Perr_not_intrinsic_procedure_name string locus
  | Perr_extract_int
  | Perr_collapse_not_positive locus

text \<open>
  The state the parser works on: the current locus in the source text, the symbols
  (attributes are added to them while a reduction clause is read) and the diagnostics
  given so far.
\<close>

record parse_state =
  gfc_current_locus :: locus
  p_syms :: sym_heap
  p_errors :: "parse_error list"

text \<open>
  The matchers and helpers that the two functions call and that are defined outside
  src/ are parameters of the model.  \<open>gfc_match\<close> is variadic in the source: the model
  has one view of it for every kind of pattern used here, \<open>gfc_match\<close> for a pattern
  without a conversion, \<open>gfc_match_e\<close> for a pattern with one \<open>%e\<close> (the expression it
  stores) and \<open>gfc_match_n\<close> for a pattern with one \<open>%n\<close> (the name it stores).
  \<open>gfc_find_common n\<close> is \<open>gfc_find_symtree (gfc_current_ns->common_root, n)\<close> followed
  by the walk along \<open>common_next\<close>: the symbols of the common block, or \<open>None\<close> when
  there is no such block.  \<open>ns_proc_name\<close> is \<open>ns->proc_name\<close>.
\<close>

record gfc_matchers =
  gfc_match :: "string \<Rightarrow> parse_state \<Rightarrow> match \<times> parse_state"
  gfc_match_e :: "string \<Rightarrow> parse_state \<Rightarrow> match \<times> gfc_expr option \<times> parse_state"
  gfc_match_n :: "string \<Rightarrow> parse_state \<Rightarrow> match \<times> string \<times> parse_state"
  gfc_match_symbol :: "parse_state \<Rightarrow> match \<times> sym_ptr \<times> parse_state"
  gfc_match_variable :: "parse_state \<Rightarrow> match \<times> gfc_expr option \<times> parse_state"
  gfc_match_char :: "char \<Rightarrow> parse_state \<Rightarrow> match \<times> parse_state"
  gfc_peek_ascii_char :: "parse_state \<Rightarrow> char"
  gfc_match_space :: "parse_state \<Rightarrow> match \<times> parse_state"
  gfc_gobble_whitespace :: "parse_state \<Rightarrow> parse_state"
  gfc_match_name :: "parse_state \<Rightarrow> match \<times> string \<times> parse_state"
  gfc_match_omp_eos :: "parse_state \<Rightarrow> match \<times> parse_state"
  gfc_find_symbol :: "string \<Rightarrow> parse_state \<Rightarrow> sym_ptr option"
  gfc_find_common :: "string \<Rightarrow> parse_state \<Rightarrow> sym_ptr list option"
  gfc_set_sym_referenced :: "sym_ptr \<Rightarrow> parse_state \<Rightarrow> parse_state"
  gfc_add_flavor :: "sym_ptr \<Rightarrow> sym_flavor \<Rightarrow> parse_state \<Rightarrow> bool \<times> parse_state"
  gfc_add_intrinsic :: "sym_ptr \<Rightarrow> parse_state \<Rightarrow> bool \<times> parse_state"
  ns_proc_name :: "ns_ptr \<Rightarrow> sym_ptr option"
  gfc_get_constant_expr :: "bt \<Rightarrow> int \<Rightarrow> locus \<Rightarrow> gfc_expr"
  gfc_copy_expr :: "gfc_expr \<Rightarrow> gfc_expr"
  gfc_default_integer_kind :: int

text \<open>\<open>gfc_get_omp_namelist\<close>: a zero-initialised entry, then \<open>sym\<close> and \<open>expr\<close> are set.\<close>

definition gfc_get_omp_namelist :: "sym_ptr \<Rightarrow> gfc_expr option \<Rightarrow> gfc_omp_namelist" where
  "gfc_get_omp_namelist sy e = \<lparr>nl_sym = sy, nl_expr = e\<rparr>"

text \<open>\<open>mpz_set_si (e->value.integer, v)\<close> on a constant node.\<close>

definition mpz_set_si :: "gfc_expr \<Rightarrow> int \<Rightarrow> gfc_expr" where
  "mpz_set_si e v = Gfc_expr (hdr e) (e_ref e) (V_constant v)"

definition gfc_error :: "parse_error \<Rightarrow> parse_state \<Rightarrow> parse_state" where
  "gfc_error e st = st\<lparr>p_errors := p_errors st @ [e]\<rparr>"

subsection \<open>\<open>gfc_match_omp_variable_list\<close>\<close>

text \<open>
  One item of the list, from \<open>cur_loc = gfc_current_locus\<close> to the label
  \<open>next_item\<close>: the entries the item adds behind \<open>tail\<close>, or a jump to \<open>syntax\<close> or to
  \<open>cleanup\<close>.
\<close>

datatype list_item =
    Item_entries "gfc_omp_namelist list" parse_state
  | Item_syntax parse_state
  | Item_cleanup parse_state

definition match_list_item :: "gfc_matchers \<Rightarrow> bool \<Rightarrow> bool \<Rightarrow> parse_state \<Rightarrow> list_item" where
  "match_list_item env allow_common allow_sections st =
     (let cur_loc = gfc_current_locus st
      in case gfc_match_symbol env st of
           (MATCH_YES, sy, st1) \<Rightarrow>
             if allow_sections \<and> gfc_peek_ascii_char env st1 = CHR ''(''
             then (case gfc_match_variable env (st1\<lparr>gfc_current_locus := cur_loc\<rparr>) of
                     (MATCH_ERROR, _, st2) \<Rightarrow> Item_cleanup st2
                   | (MATCH_NO, _, st2) \<Rightarrow> Item_syntax st2
                   | (MATCH_YES, expr, st2) \<Rightarrow>
                       Item_entries [gfc_get_omp_namelist sy expr]
                         (gfc_set_sym_referenced env sy st2))
             else Item_entries [gfc_get_omp_namelist sy None]
                    (gfc_set_sym_referenced env sy st1)
         | (MATCH_ERROR, _, st1) \<Rightarrow> Item_cleanup st1
         | (MATCH_NO, _, st1) \<Rightarrow>
             if \<not> allow_common then Item_syntax st1
             else (case gfc_match_n env '' / %n /'' st1 of
                     (MATCH_ERROR, _, st2) \<Rightarrow> Item_cleanup st2
                   | (MATCH_NO, _, st2) \<Rightarrow> Item_syntax st2
                   | (MATCH_YES, n, st2) \<Rightarrow>
                       (case gfc_find_common env n st2 of
                          None \<Rightarrow>
                            Item_cleanup
                              (gfc_error (Perr_common_block_not_found n
                                            (gfc_current_locus st2)) st2)
                        | Some syms \<Rightarrow>
                            Item_entries (map (\<lambda>sy. gfc_get_omp_namelist sy None) syms)
                              (fold (gfc_set_sym_referenced env) syms st2))))"

text \<open>
  From \<open>next_item\<close> to the end of the loop body: the list ends at a colon (only looked
  for when \<open>end_colon\<close> is not null) or at a closing parenthesis, goes on behind a
  comma, and is a syntax error otherwise.
\<close>

datatype list_separator =
    Ends_at_colon parse_state
  | Ends_at_paren parse_state
  | Goes_on parse_state
  | No_separator parse_state

definition next_item :: "gfc_matchers \<Rightarrow> bool \<Rightarrow> parse_state \<Rightarrow> list_separator" where
  "next_item env with_end_colon st =
     (let (colon, st1) =
            (if with_end_colon
             then (case gfc_match_char env CHR '':'' st of (m, st') \<Rightarrow> (m = MATCH_YES, st'))
             else (False, st))
      in if colon then Ends_at_colon st1
         else (case gfc_match_char env CHR '')'' st1 of
                 (MATCH_YES, st2) \<Rightarrow> Ends_at_paren st2
               | (_, st2) \<Rightarrow>
                   (case gfc_match_char env CHR '','' st2 of
                      (MATCH_YES, st3) \<Rightarrow> Goes_on st3
                    | (_, st3) \<Rightarrow> No_separator st3)))"

text \<open>The labels \<open>cleanup\<close> and \<open>syntax\<close>: the list built so far is freed, the locus
  is put back, and the result is \<open>MATCH_ERROR\<close>.\<close>

definition list_cleanup ::
  "locus \<Rightarrow> parse_state \<Rightarrow> match \<times> gfc_omp_namelist list \<times> bool \<times> parse_state"
where
  "list_cleanup old_loc st = (MATCH_ERROR, [], False, st\<lparr>gfc_current_locus := old_loc\<rparr>)"

definition list_syntax ::
  "locus \<Rightarrow> parse_state \<Rightarrow> match \<times> gfc_omp_namelist list \<times> bool \<times> parse_state"
where
  "list_syntax old_loc st =
     list_cleanup old_loc (gfc_error (Perr_syntax_in_variable_list (gfc_current_locus st)) st)"

text \<open>
  The loop \<open>for (;;)\<close>.  \<open>head\<close> is the list built so far; the result is the value
  returned, the list \<open>head\<close>, whether \<open>*end_colon\<close> was set, and the state.  The loop need
  not end (no matcher has to move the locus): a run that does not end has the value
  \<open>None\<close>.
\<close>

partial_function (option) variable_list_loop ::
  "gfc_matchers \<Rightarrow> bool \<Rightarrow> bool \<Rightarrow> bool \<Rightarrow> locus \<Rightarrow> gfc_omp_namelist list \<Rightarrow> parse_state
     \<Rightarrow> (match \<times> gfc_omp_namelist list \<times> bool \<times> parse_state) option"
where
  "variable_list_loop env allow_common with_end_colon allow_sections old_loc head st =
     (case match_list_item env allow_common allow_sections st of
        Item_cleanup st1 \<Rightarrow> Some (list_cleanup old_loc st1)
      | Item_syntax st1 \<Rightarrow> Some (list_syntax old_loc st1)
      | Item_entries ps st1 \<Rightarrow>
          (case next_item env with_end_colon st1 of
             Ends_at_colon st2 \<Rightarrow> Some (MATCH_YES, head @ ps, True, st2)
           | Ends_at_paren st2 \<Rightarrow> Some (MATCH_YES, head @ ps, False, st2)
           | Goes_on st2 \<Rightarrow>
               variable_list_loop env allow_common with_end_colon allow_sections old_loc
                 (head @ ps) st2
           | No_separator st2 \<Rightarrow> Some (list_syntax old_loc st2)))"

declare variable_list_loop.simps [code]

text \<open>
  \<open>gfc_match_omp_variable_list (str, list, allow_common, end_colon, headp,
  allow_sections)\<close>.  \<open>lst\<close> is \<open>*list\<close>; \<open>with_end_colon\<close> says that \<open>end_colon\<close> (and
  with it \<open>headp\<close>) is not null.  The result is the value returned, \<open>*list\<close> afterwards,
  the entries appended (\<open>**headp\<close> is the first of them), \<open>*end_colon\<close>, and the state.
\<close>

definition gfc_match_omp_variable_list ::
  "gfc_matchers \<Rightarrow> string \<Rightarrow> gfc_omp_namelist list \<Rightarrow> bool \<Rightarrow> bool \<Rightarrow> bool \<Rightarrow> parse_state
     \<Rightarrow> (match \<times> gfc_omp_namelist list \<times> gfc_omp_namelist list \<times> bool \<times> parse_state) option"
where
  "gfc_match_omp_variable_list env str lst allow_common with_end_colon allow_sections st =
     (let old_loc = gfc_current_locus st
      in case gfc_match env str st of
           (MATCH_YES, st1) \<Rightarrow>
             (case variable_list_loop env allow_common with_end_colon allow_sections
                     old_loc [] st1 of
                None \<Rightarrow> None
              | Some (MATCH_YES, head, end_colon, st2) \<Rightarrow>
                  Some (MATCH_YES, lst @ head, head, end_colon, st2)
              | Some (m, _, _, st2) \<Rightarrow> Some (m, lst, [], False, st2))
         | (m, st1) \<Rightarrow> Some (m, lst, [], False, st1))"

subsection \<open>The clause masks\<close>

definition OMP_CLAUSE_PRIVATE :: int where "OMP_CLAUSE_PRIVATE = push_bit 0 1"
definition OMP_CLAUSE_FIRSTPRIVATE :: int where "OMP_CLAUSE_FIRSTPRIVATE = push_bit 1 1"
definition OMP_CLAUSE_LASTPRIVATE :: int where "OMP_CLAUSE_LASTPRIVATE = push_bit 2 1"
definition OMP_CLAUSE_COPYPRIVATE :: int where "OMP_CLAUSE_COPYPRIVATE = push_bit 3 1"
definition OMP_CLAUSE_SHARED :: int where "OMP_CLAUSE_SHARED = push_bit 4 1"
definition OMP_CLAUSE_COPYIN :: int where "OMP_CLAUSE_COPYIN = push_bit 5 1"
definition OMP_CLAUSE_REDUCTION :: int where "OMP_CLAUSE_REDUCTION = push_bit 6 1"
definition OMP_CLAUSE_IF :: int where "OMP_CLAUSE_IF = push_bit 7 1"
definition OMP_CLAUSE_NUM_THREADS :: int where "OMP_CLAUSE_NUM_THREADS = push_bit 8 1"
definition OMP_CLAUSE_SCHEDULE :: int where "OMP_CLAUSE_SCHEDULE = push_bit 9 1"
definition OMP_CLAUSE_DEFAULT :: int where "OMP_CLAUSE_DEFAULT = push_bit 10 1"
definition OMP_CLAUSE_ORDERED :: int where "OMP_CLAUSE_ORDERED = push_bit 11 1"
definition OMP_CLAUSE_COLLAPSE :: int where "OMP_CLAUSE_COLLAPSE = push_bit 12 1"
definition OMP_CLAUSE_UNTIED :: int where "OMP_CLAUSE_UNTIED = push_bit 13 1"
definition OMP_CLAUSE_FINAL :: int where "OMP_CLAUSE_FINAL = push_bit 14 1"
definition OMP_CLAUSE_MERGEABLE :: int where "OMP_CLAUSE_MERGEABLE = push_bit 15 1"
definition OMP_CLAUSE_ALIGNED :: int where "OMP_CLAUSE_ALIGNED = push_bit 16 1"
definition OMP_CLAUSE_DEPEND :: int where "OMP_CLAUSE_DEPEND = push_bit 17 1"
definition OMP_CLAUSE_INBRANCH :: int where "OMP_CLAUSE_INBRANCH = push_bit 18 1"
definition OMP_CLAUSE_LINEAR :: int where "OMP_CLAUSE_LINEAR = push_bit 19 1"
definition OMP_CLAUSE_NOTINBRANCH :: int where "OMP_CLAUSE_NOTINBRANCH = push_bit 20 1"
definition OMP_CLAUSE_PROC_BIND :: int where "OMP_CLAUSE_PROC_BIND = push_bit 21 1"
definition OMP_CLAUSE_SAFELEN :: int where "OMP_CLAUSE_SAFELEN = push_bit 22 1"
definition OMP_CLAUSE_SIMDLEN :: int where "OMP_CLAUSE_SIMDLEN = push_bit 23 1"
definition OMP_CLAUSE_UNIFORM :: int where "OMP_CLAUSE_UNIFORM = push_bit 24 1"

text \<open>\<open>mask & bit\<close> as a truth value (\<open>msk\<close> is the parameter \<open>mask\<close>).\<close>

definition allowed :: "int \<Rightarrow> int \<Rightarrow> bool" where
  "allowed msk b = (msk AND b \<noteq> 0)"

subsection \<open>The clauses one by one\<close>

text \<open>
  What one \<open>if\<close> of the loop body does: \<open>continue\<close> (with the clause set, the new value of
  \<open>needs_space\<close> and the state), fall through to the next \<open>if\<close>, \<open>break\<close>, or return
  \<open>MATCH_ERROR\<close> from the function.  A clause whose variable list does not end has no
  outcome (\<open>None\<close>).
\<close>

datatype clause_outcome =
    Clause_continue gfc_omp_clauses bool parse_state
  | Clause_next gfc_omp_clauses parse_state
  | Clause_break gfc_omp_clauses parse_state
  | Clause_error parse_state

type_synonym clause_matcher = "gfc_omp_clauses \<Rightarrow> parse_state \<Rightarrow> clause_outcome option"

text \<open>A clause with one expression in parentheses: \<open>if\<close>, \<open>final\<close>, \<open>num_threads\<close>,
  \<open>safelen\<close>, \<open>simdlen\<close>.\<close>

definition match_expr_clause ::
  "gfc_matchers \<Rightarrow> int \<Rightarrow> int \<Rightarrow> string \<Rightarrow> (gfc_omp_clauses \<Rightarrow> gfc_expr option)
     \<Rightarrow> (gfc_expr option \<Rightarrow> gfc_omp_clauses \<Rightarrow> gfc_omp_clauses) \<Rightarrow> clause_matcher"
where
  "match_expr_clause env msk b pat field set_field c st =
     (if allowed msk b \<and> field c = None
      then (case gfc_match_e env pat st of
              (MATCH_YES, e, st1) \<Rightarrow> Some (Clause_continue (set_field e c) False st1)
            | (_, _, st1) \<Rightarrow> Some (Clause_next c st1))
      else Some (Clause_next c st))"

text \<open>A clause that is a plain variable list, read into the list-class \<open>l\<close>.\<close>

definition match_list_clause ::
  "gfc_matchers \<Rightarrow> int \<Rightarrow> int \<Rightarrow> string \<Rightarrow> omp_list \<Rightarrow> bool \<Rightarrow> bool \<Rightarrow> clause_matcher"
where
  "match_list_clause env msk b str l allow_common allow_sections c st =
     (if allowed msk b
      then (case gfc_match_omp_variable_list env str (omp_lists c l) allow_common False
                   allow_sections st of
              None \<Rightarrow> None
            | Some (MATCH_YES, lst, _, _, st1) \<Rightarrow>
                Some (Clause_continue (c\<lparr>omp_lists := (omp_lists c)(l := lst)\<rparr>) False st1)
            | Some (_, _, _, _, st1) \<Rightarrow> Some (Clause_next c st1))
      else Some (Clause_next c st))"

text \<open>A chain \<open>if (m\<^sub>1 == MATCH_YES) v = v\<^sub>1; else if (m\<^sub>2 == MATCH_YES) v = v\<^sub>2; ...\<close>:
  the value of the first matcher that says yes.\<close>

fun first_yes ::
  "('a \<times> (parse_state \<Rightarrow> match \<times> parse_state)) list \<Rightarrow> parse_state \<Rightarrow> 'a option \<times> parse_state"
where
  "first_yes [] st = (None, st)"
| "first_yes ((v, m) # ms) st =
     (case m st of
        (MATCH_YES, st1) \<Rightarrow> (Some v, st1)
      | (_, st1) \<Rightarrow> first_yes ms st1)"

text \<open>
  The name of a reduction clause that is not an operator: the procedure behind the name
  must be intrinsic, or a name that can still become one.  The result is \<open>n\<close>, \<open>sym\<close> and
  the state.
\<close>

definition reduction_procedure ::
  "gfc_matchers \<Rightarrow> string \<Rightarrow> parse_state \<Rightarrow> string \<times> sym_ptr option \<times> parse_state"
where
  "reduction_procedure env buffer st =
     (case gfc_find_symbol env buffer st of
        None \<Rightarrow> (buffer, None, st)
      | Some sy \<Rightarrow>
          (let s = p_syms st sy; a = attr s
           in if intrinsic a then (sym_name s, Some sy, st)
              else if (flavor a \<noteq> FL_UNKNOWN \<and> flavor a \<noteq> FL_PROCEDURE)
                      \<or> external a \<or> generic a \<or> attr_entry a \<or> attr_result a \<or> dummy a
                      \<or> subroutine a \<or> pointer a \<or> target a \<or> cray_pointer a
                      \<or> cray_pointee a
                      \<or> (proc a \<noteq> PROC_UNKNOWN \<and> proc a \<noteq> PROC_INTRINSIC)
                      \<or> if_source a \<noteq> IFSRC_UNKNOWN
                      \<or> ns_proc_name env (sym_ns s) = Some sy
              then (buffer, None,
                    gfc_error (Perr_not_intrinsic_procedure_name buffer
                                 (gfc_current_locus st)) st)
              else (sym_name s, Some sy, st)))"

definition reduction_of_name :: "string \<Rightarrow> omp_list option" where
  "reduction_of_name n =
     (if n = ''max'' then Some OMP_LIST_MAX
      else if n = ''min'' then Some OMP_LIST_MIN
      else if n = ''iand'' then Some OMP_LIST_IAND
      else if n = ''ior'' then Some OMP_LIST_IOR
      else if n = ''ieor'' then Some OMP_LIST_IEOR
      else None)"

text \<open>The last test of the named case: the symbol is made an intrinsic procedure.  The
  result says whether that failed.\<close>

definition make_intrinsic :: "gfc_matchers \<Rightarrow> sym_ptr \<Rightarrow> parse_state \<Rightarrow> bool \<times> parse_state" where
  "make_intrinsic env sy st =
     (let a = attr (p_syms st sy)
      in if \<not> intrinsic a \<and> \<not> use_assoc a
         then (let (flavor_failed, st1) =
                     (if flavor a = FL_UNKNOWN
                      then (case gfc_add_flavor env sy FL_PROCEDURE st of
                              (ok, st') \<Rightarrow> (\<not> ok, st'))
                      else (False, st))
               in if flavor_failed then (True, st1)
                  else (case gfc_add_intrinsic env sy st1 of (ok, st') \<Rightarrow> (\<not> ok, st')))
         else (False, st))"

text \<open>The operator or name of a reduction clause: the list-class (\<open>None\<close> for
  \<open>OMP_LIST_NUM\<close>), whether the function returns \<open>MATCH_ERROR\<close>, and the state.\<close>

definition match_reduction_operator ::
  "gfc_matchers \<Rightarrow> parse_state \<Rightarrow> omp_list option \<times> bool \<times> parse_state"
where
  "match_reduction_operator env st =
     (case first_yes
             [(OMP_LIST_PLUS, gfc_match_char env CHR ''+''),
              (OMP_LIST_MULT, gfc_match_char env CHR ''*''),
              (OMP_LIST_SUB, gfc_match_char env CHR ''-''),
              (OMP_LIST_AND, gfc_match env ''.and.''),
              (OMP_LIST_OR, gfc_match env ''.or.''),
              (OMP_LIST_EQV, gfc_match env ''.eqv.''),
              (OMP_LIST_NEQV, gfc_match env ''.neqv.'')] st of
        (Some l, st1) \<Rightarrow> (Some l, False, st1)
      | (None, st1) \<Rightarrow>
          (case gfc_match_name env st1 of
             (MATCH_YES, buffer, st2) \<Rightarrow>
               (case reduction_procedure env buffer st2 of
                  (n, sy, st3) \<Rightarrow>
                    (case (reduction_of_name n, sy) of
                       (Some l, Some s) \<Rightarrow>
                         (case make_intrinsic env s st3 of
                            (failed, st4) \<Rightarrow> (Some l, failed, st4))
                     | (reduction, _) \<Rightarrow> (reduction, False, st3)))
           | (_, _, st2) \<Rightarrow> (None, False, st2)))"

definition match_reduction :: "gfc_matchers \<Rightarrow> int \<Rightarrow> clause_matcher" where
  "match_reduction env msk c st =
     (let old_loc = gfc_current_locus st
      in if allowed msk OMP_CLAUSE_REDUCTION
         then (case gfc_match env ''reduction ( '' st of
                 (MATCH_YES, st1) \<Rightarrow>
                   (case match_reduction_operator env st1 of
                      (_, True, st2) \<Rightarrow> Some (Clause_error st2)
                    | (None, False, st2) \<Rightarrow>
                        Some (Clause_next c (st2\<lparr>gfc_current_locus := old_loc\<rparr>))
                    | (Some l, False, st2) \<Rightarrow>
                        (case gfc_match_omp_variable_list env '' :'' (omp_lists c l) False
                                False False st2 of
                           None \<Rightarrow> None
                         | Some (MATCH_YES, lst, _, _, st3) \<Rightarrow>
                             Some (Clause_continue (c\<lparr>omp_lists := (omp_lists c)(l := lst)\<rparr>)
                                     False st3)
                         | Some (_, _, _, _, st3) \<Rightarrow>
                             Some (Clause_next c (st3\<lparr>gfc_current_locus := old_loc\<rparr>))))
               | (_, st1) \<Rightarrow> Some (Clause_next c st1))
         else Some (Clause_next c st))"

definition match_default :: "gfc_matchers \<Rightarrow> int \<Rightarrow> clause_matcher" where
  "match_default env msk c st =
     (if allowed msk OMP_CLAUSE_DEFAULT \<and> default_sharing c = OMP_DEFAULT_UNKNOWN
      then (case first_yes
                   [(OMP_DEFAULT_SHARED, gfc_match env ''default ( shared )''),
                    (OMP_DEFAULT_PRIVATE, gfc_match env ''default ( private )''),
                    (OMP_DEFAULT_NONE, gfc_match env ''default ( none )''),
                    (OMP_DEFAULT_FIRSTPRIVATE, gfc_match env ''default ( firstprivate )'')]
                   st of
              (Some d, st1) \<Rightarrow>
                if d \<noteq> OMP_DEFAULT_UNKNOWN
                then Some (Clause_continue (c\<lparr>default_sharing := d\<rparr>) False st1)
                else Some (Clause_next (c\<lparr>default_sharing := d\<rparr>) st1)
            | (None, st1) \<Rightarrow> Some (Clause_next c st1))
      else Some (Clause_next c st))"

definition match_schedule :: "gfc_matchers \<Rightarrow> int \<Rightarrow> clause_matcher" where
  "match_schedule env msk c st =
     (let old_loc = gfc_current_locus st
      in if allowed msk OMP_CLAUSE_SCHEDULE \<and> sched_kind c = OMP_SCHED_NONE
         then (case gfc_match env ''schedule ( '' st of
                 (MATCH_YES, st1) \<Rightarrow>
                   (case first_yes
                           [(OMP_SCHED_STATIC, gfc_match env ''static''),
                            (OMP_SCHED_DYNAMIC, gfc_match env ''dynamic''),
                            (OMP_SCHED_GUIDED, gfc_match env ''guided''),
                            (OMP_SCHED_RUNTIME, gfc_match env ''runtime''),
                            (OMP_SCHED_AUTO, gfc_match env ''auto'')] st1 of
                      (None, st2) \<Rightarrow>
                        Some (Clause_next c (st2\<lparr>gfc_current_locus := old_loc\<rparr>))
                    | (Some k, st2) \<Rightarrow>
                        (let (m, chunk, st3) =
                               (if k \<noteq> OMP_SCHED_RUNTIME \<and> k \<noteq> OMP_SCHED_AUTO
                                then gfc_match_e env '' , %e )'' st2
                                else (MATCH_NO, None, st2));
                             c1 = (if m = MATCH_YES then c\<lparr>chunk_size := chunk\<rparr> else c);
                             (m', st4) =
                               (if m \<noteq> MATCH_YES then gfc_match_char env CHR '')'' st3
                                else (m, st3))
                         in if m' = MATCH_YES
                            then Some (Clause_continue (c1\<lparr>sched_kind := k\<rparr>) False st4)
                            else Some (Clause_next c1 (st4\<lparr>gfc_current_locus := old_loc\<rparr>))))
               | (_, st1) \<Rightarrow> Some (Clause_next c st1))
         else Some (Clause_next c st))"

text \<open>A clause that is one word and sets a flag (and \<open>needs_space\<close>): \<open>ordered\<close>,
  \<open>untied\<close>, \<open>mergeable\<close>, \<open>inbranch\<close>, \<open>notinbranch\<close>.\<close>

definition match_flag_clause ::
  "gfc_matchers \<Rightarrow> int \<Rightarrow> int \<Rightarrow> string \<Rightarrow> (gfc_omp_clauses \<Rightarrow> bool)
     \<Rightarrow> (gfc_omp_clauses \<Rightarrow> gfc_omp_clauses) \<Rightarrow> clause_matcher"
where
  "match_flag_clause env msk b word field set_field c st =
     (if allowed msk b \<and> \<not> field c
      then (case gfc_match env word st of
              (MATCH_YES, st1) \<Rightarrow> Some (Clause_continue (set_field c) True st1)
            | (_, st1) \<Rightarrow> Some (Clause_next c st1))
      else Some (Clause_next c st))"

text \<open>\<open>collapse\<close>.  A \<open>%e\<close> that matched without an expression would hand a null pointer
  to \<open>gfc_extract_int\<close>: no outcome.\<close>

definition match_collapse :: "gfc_matchers \<Rightarrow> gfc_ext \<Rightarrow> int \<Rightarrow> clause_matcher" where
  "match_collapse env ext msk c st =
     (if allowed msk OMP_CLAUSE_COLLAPSE \<and> collapse c = 0
      then (case gfc_match_e env ''collapse ( %e )'' st of
              (MATCH_YES, None, st1) \<Rightarrow> None
            | (MATCH_YES, Some cexpr, st1) \<Rightarrow>
                (case gfc_extract_int ext cexpr of
                   None \<Rightarrow>
                     Some (Clause_continue (c\<lparr>collapse := 1\<rparr>) False
                             (gfc_error Perr_extract_int st1))
                 | Some n \<Rightarrow>
                     if n \<le> 0
                     then Some (Clause_continue (c\<lparr>collapse := 1\<rparr>) False
                                  (gfc_error (Perr_collapse_not_positive
                                                (gfc_current_locus st1)) st1))
                     else Some (Clause_continue (c\<lparr>collapse := n\<rparr>) False st1))
            | (_, _, st1) \<Rightarrow> Some (Clause_next c st1))
      else Some (Clause_next c st))"

definition match_proc_bind :: "gfc_matchers \<Rightarrow> int \<Rightarrow> clause_matcher" where
  "match_proc_bind env msk c st =
     (if allowed msk OMP_CLAUSE_PROC_BIND \<and> proc_bind c = OMP_PROC_BIND_UNKNOWN
      then (case first_yes
                   [(OMP_PROC_BIND_MASTER, gfc_match env ''proc_bind ( master )''),
                    (OMP_PROC_BIND_SPREAD, gfc_match env ''proc_bind ( spread )''),
                    (OMP_PROC_BIND_CLOSE, gfc_match env ''proc_bind ( close )'')] st of
              (Some b, st1) \<Rightarrow>
                if b \<noteq> OMP_PROC_BIND_UNKNOWN
                then Some (Clause_continue (c\<lparr>proc_bind := b\<rparr>) False st1)
                else Some (Clause_next (c\<lparr>proc_bind := b\<rparr>) st1)
            | (None, st1) \<Rightarrow> Some (Clause_next c st1))
      else Some (Clause_next c st))"

text \<open>
  The loop \<open>for (n = *head; n; n = n->next)\<close> of the \<open>aligned\<close> clause: every entry but
  the last gets a copy of the alignment, the last one the alignment itself.
\<close>

fun set_alignment ::
  "gfc_matchers \<Rightarrow> gfc_expr option \<Rightarrow> gfc_omp_namelist list \<Rightarrow> gfc_omp_namelist list"
where
  "set_alignment env alignment [] = []"
| "set_alignment env alignment (n # next) =
     (if next \<noteq> [] \<and> alignment \<noteq> None
      then n\<lparr>nl_expr := map_option (gfc_copy_expr env) alignment\<rparr>
      else n\<lparr>nl_expr := alignment\<rparr>) # set_alignment env alignment next"

text \<open>
  \<open>aligned\<close>.  When the colon is not followed by \<open>%e )\<close> the entries of this clause are
  freed, \<open>*head\<close> is set to null (the list is as it was before) and the loop is left.
\<close>

definition match_aligned :: "gfc_matchers \<Rightarrow> int \<Rightarrow> clause_matcher" where
  "match_aligned env msk c st =
     (let old_loc = gfc_current_locus st
      in if allowed msk OMP_CLAUSE_ALIGNED
         then (case gfc_match_omp_variable_list env ''aligned ('' (omp_lists c OMP_LIST_ALIGNED)
                      False True False st of
                 None \<Rightarrow> None
               | Some (MATCH_YES, lst, head, end_colon, st1) \<Rightarrow>
                   (let (m, alignment, st2) =
                          (if end_colon then gfc_match_e env '' %e )'' st1
                           else (MATCH_YES, None, st1))
                    in if end_colon \<and> m \<noteq> MATCH_YES
                       then Some (Clause_break c (st2\<lparr>gfc_current_locus := old_loc\<rparr>))
                       else Some (Clause_continue
                                    (c\<lparr>omp_lists := (omp_lists c)
                                         (OMP_LIST_ALIGNED :=
                                            omp_lists c OMP_LIST_ALIGNED
                                              @ set_alignment env alignment head)\<rparr>)
                                    False st2))
               | Some (_, _, _, _, st1) \<Rightarrow> Some (Clause_next c st1))
         else Some (Clause_next c st))"

text \<open>
  \<open>linear\<close>.  The step is stored by \<open>(*head)->expr = step\<close>, in the first entry of
  this clause; without a colon it is the constant that \<open>gfc_get_constant_expr\<close> builds
  for \<open>BT_INTEGER\<close>, the default integer kind and \<open>old_loc\<close>, with its value set to 1.
  An empty \<open>*head\<close> would be a null pointer there: no outcome.
\<close>

definition default_linear_step :: "gfc_matchers \<Rightarrow> locus \<Rightarrow> gfc_expr" where
  "default_linear_step env old_loc =
     mpz_set_si (gfc_get_constant_expr env BT_INTEGER (gfc_default_integer_kind env) old_loc) 1"

definition match_linear :: "gfc_matchers \<Rightarrow> int \<Rightarrow> clause_matcher" where
  "match_linear env msk c st =
     (let old_loc = gfc_current_locus st
      in if allowed msk OMP_CLAUSE_LINEAR
         then (case gfc_match_omp_variable_list env ''linear ('' (omp_lists c OMP_LIST_LINEAR)
                      False True False st of
                 None \<Rightarrow> None
               | Some (MATCH_YES, lst, head, end_colon, st1) \<Rightarrow>
                   (let (m, step, st2) =
                          (if end_colon then gfc_match_e env '' %e )'' st1
                           else (MATCH_YES, Some (default_linear_step env old_loc), st1))
                    in if end_colon \<and> m \<noteq> MATCH_YES
                       then Some (Clause_break c (st2\<lparr>gfc_current_locus := old_loc\<rparr>))
                       else (case head of
                               [] \<Rightarrow> None
                             | n # next \<Rightarrow>
                                 Some (Clause_continue
                                         (c\<lparr>omp_lists := (omp_lists c)
                                              (OMP_LIST_LINEAR :=
                                                 omp_lists c OMP_LIST_LINEAR
                                                   @ n\<lparr>nl_expr := step\<rparr> # next)\<rparr>)
                                         False st2)))
               | Some (_, _, _, _, st1) \<Rightarrow> Some (Clause_next c st1))
         else Some (Clause_next c st))"

subsection \<open>The loop over the clauses\<close>

text \<open>The \<open>if\<close>s of the loop body, tried in the order of the source; behind the last
  one stands \<open>break\<close>.\<close>

fun first_match :: "clause_matcher list \<Rightarrow> clause_matcher" where
  "first_match [] c st = Some (Clause_break c st)"
| "first_match (m # ms) c st =
     (case m c st of
        Some (Clause_next c1 st1) \<Rightarrow> first_match ms c1 st1
      | r \<Rightarrow> r)"

text \<open>The three tests of the \<open>depend\<close> clause, the last ones of the loop body.\<close>

definition depend_matchers :: "gfc_matchers \<Rightarrow> int \<Rightarrow> clause_matcher list" where
  "depend_matchers env msk =
     [match_list_clause env msk OMP_CLAUSE_DEPEND ''depend ( in : '' OMP_LIST_DEPEND_IN
        False True,
      match_list_clause env msk OMP_CLAUSE_DEPEND ''depend ( out : '' OMP_LIST_DEPEND_OUT
        False True,
      match_list_clause env msk OMP_CLAUSE_DEPEND ''depend ( inout : '' OMP_LIST_DEPEND_OUT
        False True]"

text \<open>The tests that stand before them in the loop body, in the order of the source.\<close>

definition tests_before_depend :: "gfc_matchers \<Rightarrow> gfc_ext \<Rightarrow> int \<Rightarrow> clause_matcher list" where
  "tests_before_depend env ext msk =
     [match_expr_clause env msk OMP_CLAUSE_IF ''if ( %e )'' if_expr
        (\<lambda>e c. c\<lparr>if_expr := e\<rparr>),
      match_expr_clause env msk OMP_CLAUSE_FINAL ''final ( %e )'' final_expr
        (\<lambda>e c. c\<lparr>final_expr := e\<rparr>),
      match_expr_clause env msk OMP_CLAUSE_NUM_THREADS ''num_threads ( %e )'' num_threads
        (\<lambda>e c. c\<lparr>num_threads := e\<rparr>),
      match_list_clause env msk OMP_CLAUSE_PRIVATE ''private ('' OMP_LIST_PRIVATE True False,
      match_list_clause env msk OMP_CLAUSE_FIRSTPRIVATE ''firstprivate (''
        OMP_LIST_FIRSTPRIVATE True False,
      match_list_clause env msk OMP_CLAUSE_LASTPRIVATE ''lastprivate (''
        OMP_LIST_LASTPRIVATE True False,
      match_list_clause env msk OMP_CLAUSE_COPYPRIVATE ''copyprivate (''
        OMP_LIST_COPYPRIVATE True False,
      match_list_clause env msk OMP_CLAUSE_SHARED ''shared ('' OMP_LIST_SHARED True False,
      match_list_clause env msk OMP_CLAUSE_COPYIN ''copyin ('' OMP_LIST_COPYIN True False,
      match_reduction env msk,
      match_default env msk,
      match_schedule env msk,
      match_flag_clause env msk OMP_CLAUSE_ORDERED ''ordered'' ordered
        (\<lambda>c. c\<lparr>ordered := True\<rparr>),
      match_flag_clause env msk OMP_CLAUSE_UNTIED ''untied'' untied
        (\<lambda>c. c\<lparr>untied := True\<rparr>),
      match_flag_clause env msk OMP_CLAUSE_MERGEABLE ''mergeable'' mergeable
        (\<lambda>c. c\<lparr>mergeable := True\<rparr>),
      match_collapse env ext msk,
      match_flag_clause env msk OMP_CLAUSE_INBRANCH ''inbranch'' inbranch
        (\<lambda>c. c\<lparr>inbranch := True\<rparr>),
      match_flag_clause env msk OMP_CLAUSE_NOTINBRANCH ''notinbranch'' notinbranch
        (\<lambda>c. c\<lparr>notinbranch := True\<rparr>),
      match_proc_bind env msk,
      match_expr_clause env msk OMP_CLAUSE_SAFELEN ''safelen ( %e )'' safelen_expr
        (\<lambda>e c. c\<lparr>safelen_expr := e\<rparr>),
      match_expr_clause env msk OMP_CLAUSE_SIMDLEN ''simdlen ( %e )'' simdlen_expr
        (\<lambda>e c. c\<lparr>simdlen_expr := e\<rparr>),
      match_list_clause env msk OMP_CLAUSE_UNIFORM ''uniform ('' OMP_LIST_UNIFORM False False,
      match_aligned env msk,
      match_linear env msk]"

definition clause_matchers :: "gfc_matchers \<Rightarrow> gfc_ext \<Rightarrow> int \<Rightarrow> clause_matcher list" where
  "clause_matchers env ext msk = tests_before_depend env ext msk @ depend_matchers env msk"

text \<open>
  The head of the loop: \<open>(first || gfc_match_char (',') != MATCH_YES) && (needs_space
  && gfc_match_space () != MATCH_YES)\<close>, evaluated from left to right, then
  \<open>gfc_gobble_whitespace\<close>.  The result says whether the loop is left.
\<close>

definition clause_separator ::
  "gfc_matchers \<Rightarrow> bool \<Rightarrow> bool \<Rightarrow> parse_state \<Rightarrow> bool \<times> parse_state"
where
  "clause_separator env first needs_space st =
     (let (no_comma, st1) =
            (if first then (True, st)
             else (case gfc_match_char env CHR '','' st of (m, st') \<Rightarrow> (m \<noteq> MATCH_YES, st')));
          (no_space, st2) =
            (if no_comma \<and> needs_space
             then (case gfc_match_space env st1 of (m, st') \<Rightarrow> (m \<noteq> MATCH_YES, st'))
             else (False, st1))
      in if no_comma \<and> no_space then (True, st2)
         else (False, gfc_gobble_whitespace env st2))"

text \<open>The loop \<open>while (1)\<close>: the clause set and the state when the loop is left
  (\<open>Inr\<close>), or the state when the function returns \<open>MATCH_ERROR\<close> from inside (\<open>Inl\<close>).\<close>

partial_function (option) clauses_loop ::
  "gfc_matchers \<Rightarrow> gfc_ext \<Rightarrow> int \<Rightarrow> bool \<Rightarrow> bool \<Rightarrow> gfc_omp_clauses \<Rightarrow> parse_state
     \<Rightarrow> (parse_state + gfc_omp_clauses \<times> parse_state) option"
where
  "clauses_loop env ext msk first needs_space c st =
     (case clause_separator env first needs_space st of
        (leave, st1) \<Rightarrow>
          if leave then Some (Inr (c, st1))
          else (case first_match (clause_matchers env ext msk) c st1 of
                  None \<Rightarrow> None
                | Some outcome \<Rightarrow>
                    (case outcome of
                       Clause_continue c1 needs_space1 st2 \<Rightarrow>
                         clauses_loop env ext msk False needs_space1 c1 st2
                     | Clause_next c1 st2 \<Rightarrow> Some (Inr (c1, st2))
                     | Clause_break c1 st2 \<Rightarrow> Some (Inr (c1, st2))
                     | Clause_error st2 \<Rightarrow> Some (Inl st2))))"

declare clauses_loop.simps [code]

text \<open>
  \<open>gfc_match_omp_clauses (cp, mask, first, needs_space)\<close>: the value returned, \<open>*cp\<close>
  and the state.
\<close>

definition gfc_match_omp_clauses ::
  "gfc_matchers \<Rightarrow> gfc_ext \<Rightarrow> int \<Rightarrow> bool \<Rightarrow> bool \<Rightarrow> parse_state
     \<Rightarrow> (match \<times> gfc_omp_clauses option \<times> parse_state) option"
where
  "gfc_match_omp_clauses env ext msk first needs_space st =
     (case clauses_loop env ext msk first needs_space gfc_get_omp_clauses st of
        None \<Rightarrow> None
      | Some (Inl st1) \<Rightarrow> Some (MATCH_ERROR, None, st1)
      | Some (Inr (c, st1)) \<Rightarrow>
          (case gfc_match_omp_eos env st1 of
             (MATCH_YES, st2) \<Rightarrow> Some (MATCH_YES, Some c, st2)
           | (_, st2) \<Rightarrow> Some (MATCH_ERROR, None, st2)))"

subsection \<open>Passes of the loop body\<close>

text \<open>
  For stating what the parser returns.  \<open>falls_through ms c st\<close>: every test of \<open>ms\<close>
  falls through to the next one, and leaves the clause set and the state given.
  \<open>clause_iterations n\<close>: the values of \<open>first\<close>, \<open>needs_space\<close>, the clause set and the
  state after \<open>n\<close> passes of the loop that ended in \<open>continue\<close>.
\<close>

fun falls_through ::
  "clause_matcher list \<Rightarrow> gfc_omp_clauses \<Rightarrow> parse_state \<Rightarrow> (gfc_omp_clauses \<times> parse_state) option"
where
  "falls_through [] c st = Some (c, st)"
| "falls_through (m # ms) c st =
     (case m c st of
        Some (Clause_next c1 st1) \<Rightarrow> falls_through ms c1 st1
      | _ \<Rightarrow> None)"

fun clause_iterations ::
  "nat \<Rightarrow> gfc_matchers \<Rightarrow> gfc_ext \<Rightarrow> int \<Rightarrow> bool \<Rightarrow> bool \<Rightarrow> gfc_omp_clauses \<Rightarrow> parse_state
     \<Rightarrow> (bool \<times> bool \<times> gfc_omp_clauses \<times> parse_state) option"
where
  "clause_iterations 0 env ext msk first needs_space c st = Some (first, needs_space, c, st)"
| "clause_iterations (Suc n) env ext msk first needs_space c st =
     (case clause_separator env first needs_space st of
        (leave, st1) \<Rightarrow>
          if leave then None
          else (case first_match (clause_matchers env ext msk) c st1 of
                  Some (Clause_continue c1 needs_space1 st2) \<Rightarrow>
                    clause_iterations n env ext msk False needs_space1 c1 st2
                | _ \<Rightarrow> None))"

text \<open>Every list-class of \<open>c'\<close> starts with the entries it has in \<open>c\<close>; a test whose
  outcomes only extend the lists; a test that falls through with the clause set it was
  given.\<close>

definition lists_extend :: "gfc_omp_clauses \<Rightarrow> gfc_omp_clauses \<Rightarrow> bool" where
  "lists_extend c c' = (\<forall>l. \<exists>rest. omp_lists c' l = omp_lists c l @ rest)"

definition outcome_extends :: "gfc_omp_clauses \<Rightarrow> clause_outcome \<Rightarrow> bool" where
  "outcome_extends c r =
     (case r of
        Clause_continue c' _ _ \<Rightarrow> lists_extend c c'
      | Clause_next c' _ \<Rightarrow> lists_extend c c'
      | Clause_break c' _ \<Rightarrow> lists_extend c c'
      | Clause_error _ \<Rightarrow> True)"

definition grows :: "clause_matcher \<Rightarrow> bool" where
  "grows m = (\<forall>c st r. m c st = Some r \<longrightarrow> outcome_extends c r)"

definition keeps_clauses :: "clause_matcher \<Rightarrow> bool" where
  "keeps_clauses m = (\<forall>c st c' st'. m c st = Some (Clause_next c' st') \<longrightarrow> c' = c)"

section \<open>Decomposition of OpenACC kernels regions (gcc/omp-oacc-kernels.c)\<close>

subsection \<open>Trees, clauses and statements\<close>

type_synonym location = nat

datatype tree_code = VAR_DECL | CONST_DECL | PARM_DECL | OTHER_DECL

text \<open>A declaration: what the pass reads of it (\<open>TREE_CODE\<close>, \<open>DECL_ARTIFICIAL\<close>,
  \<open>DECL_SIZE_UNIT\<close>) and a number that tells declarations apart.\<close>

record tree_decl =
  decl_uid :: nat
  decl_code :: tree_code
  decl_artificial :: bool
  decl_size_unit :: nat

text \<open>An operand of a clause: an integer constant, a declaration (\<open>DECL_P\<close>), or any
  other expression such as an array section.\<close>

datatype tree = INTEGER_CST int | DECL tree_decl | SIZE_OF nat | TREE_OTHER nat

definition integer_one_node :: tree where
  "integer_one_node = INTEGER_CST 1"

definition integer_zerop :: "tree option \<Rightarrow> bool" where
  "integer_zerop t = (t = Some (INTEGER_CST 0))"

datatype gomp_map_kind =
    GOMP_MAP_ALLOC | GOMP_MAP_FORCE_PRESENT | GOMP_MAP_POINTER | GOMP_MAP_TO_PSET
  | GOMP_MAP_FORCE_TOFROM | GOMP_MAP_FIRSTPRIVATE_POINTER
  | GOMP_MAP_FIRSTPRIVATE_REFERENCE | GOMP_MAP_OTHER nat

text \<open>The clause codes the pass tests; \<open>TREE_OMP_CLAUSE_IF\<close> is the tree code
  \<open>OMP_CLAUSE_IF\<close>, renamed because the Fortran parser has a mask bit of that name.\<close>

datatype omp_clause_code =
    OMP_CLAUSE_NUM_GANGS | OMP_CLAUSE_AUTO | OMP_CLAUSE_INDEPENDENT | OMP_CLAUSE_SEQ
  | OMP_CLAUSE_MAP | TREE_OMP_CLAUSE_IF | OMP_CLAUSE_OTHER nat

text \<open>
  One clause.  \<open>clause_operand\<close> is \<open>OMP_CLAUSE_OPERAND (c, 0)\<close>, which is
  \<open>OMP_CLAUSE_DECL\<close> for a map clause; the \<open>OMP_CLAUSE_CHAIN\<close> of a clause is the tail
  of the list that holds it.
\<close>

record omp_clause =
  clause_code :: omp_clause_code
  clause_location :: location
  clause_operand :: "tree option"
  clause_size :: "tree option"
  clause_map_kind :: gomp_map_kind

definition build_omp_clause :: "location \<Rightarrow> omp_clause_code \<Rightarrow> omp_clause" where
  "build_omp_clause loc code' =
     \<lparr> clause_code = code', clause_location = loc, clause_operand = None,
       clause_size = None, clause_map_kind = GOMP_MAP_ALLOC \<rparr>"

text \<open>\<open>unshare_expr\<close> copies a tree; a copy is the same value.\<close>

definition unshare_expr :: "'a \<Rightarrow> 'a" where
  "unshare_expr t = t"

datatype gf_omp_target_kind =
    GF_OMP_TARGET_KIND_OACC_KERNELS
  | GF_OMP_TARGET_KIND_OACC_PARALLEL_KERNELS_GANG_SINGLE
  | GF_OMP_TARGET_KIND_OACC_PARALLEL_KERNELS_PARALLELIZED
  | GF_OMP_TARGET_KIND_OACC_DATA_KERNELS
  | GF_OMP_TARGET_KIND_OTHER

datatype gimple_try_kind = GIMPLE_TRY_CATCH | GIMPLE_TRY_FINALLY

text \<open>
  Statements.  Every statement has a location.  An assignment is its left-hand side
  (the right-hand side is not read), a loop its clauses, a bind its variables and its
  body, a try statement its body and its cleanup, a target region its kind, its clauses
  and its body.  The last argument of an assignment, a loop and any other statement
  stands for the parts the pass does not look at.
\<close>

datatype gimple =
    GIMPLE_ASSIGN location tree nat
  | GIMPLE_OMP_FOR location "omp_clause list" nat
  | GIMPLE_BIND location "tree_decl list" "gimple list"
  | GIMPLE_TRY location "gimple list" "gimple list" gimple_try_kind
  | GIMPLE_OMP_TARGET location gf_omp_target_kind "omp_clause list" "gimple option"
  | GIMPLE_CALL location string
  | GIMPLE_NOP location
  | GIMPLE_OTHER location nat

fun gimple_location :: "gimple \<Rightarrow> location" where
  "gimple_location (GIMPLE_ASSIGN loc _ _) = loc"
| "gimple_location (GIMPLE_OMP_FOR loc _ _) = loc"
| "gimple_location (GIMPLE_BIND loc _ _) = loc"
| "gimple_location (GIMPLE_TRY loc _ _ _) = loc"
| "gimple_location (GIMPLE_OMP_TARGET loc _ _ _) = loc"
| "gimple_location (GIMPLE_CALL loc _) = loc"
| "gimple_location (GIMPLE_NOP loc) = loc"
| "gimple_location (GIMPLE_OTHER loc _) = loc"

fun gimple_set_location :: "gimple \<Rightarrow> location \<Rightarrow> gimple" where
  "gimple_set_location (GIMPLE_ASSIGN _ l r) loc = GIMPLE_ASSIGN loc l r"
| "gimple_set_location (GIMPLE_OMP_FOR _ c b) loc = GIMPLE_OMP_FOR loc c b"
| "gimple_set_location (GIMPLE_BIND _ v b) loc = GIMPLE_BIND loc v b"
| "gimple_set_location (GIMPLE_TRY _ e c k) loc = GIMPLE_TRY loc e c k"
| "gimple_set_location (GIMPLE_OMP_TARGET _ k c b) loc = GIMPLE_OMP_TARGET loc k c b"
| "gimple_set_location (GIMPLE_CALL _ f) loc = GIMPLE_CALL loc f"
| "gimple_set_location (GIMPLE_NOP _) loc = GIMPLE_NOP loc"
| "gimple_set_location (GIMPLE_OTHER _ x) loc = GIMPLE_OTHER loc x"

text \<open>A statement built by \<open>gimple_build_*\<close> has no location yet.\<close>

definition UNKNOWN_LOCATION :: location where
  "UNKNOWN_LOCATION = 0"

definition gimple_build_bind :: "tree_decl list \<Rightarrow> gimple list \<Rightarrow> gimple" where
  "gimple_build_bind vars body = GIMPLE_BIND UNKNOWN_LOCATION vars body"

fun is_omp_for :: "gimple \<Rightarrow> bool" where
  "is_omp_for (GIMPLE_OMP_FOR _ _ _) = True"
| "is_omp_for _ = False"

fun is_assign :: "gimple \<Rightarrow> bool" where
  "is_assign (GIMPLE_ASSIGN _ _ _) = True"
| "is_assign _ = False"

fun is_bind :: "gimple \<Rightarrow> bool" where
  "is_bind (GIMPLE_BIND _ _ _) = True"
| "is_bind _ = False"

subsection \<open>\<open>top_level_omp_for_in_stmt\<close>\<close>

text \<open>The loop over a bind body that is not a singleton: assignments, then a loop as
  the last statement.\<close>

fun assignments_then_omp_for :: "gimple list \<Rightarrow> gimple option" where
  "assignments_then_omp_for [] = None"
| "assignments_then_omp_for (body_stmt # rest) =
     (if is_assign body_stmt then assignments_then_omp_for rest
      else if is_omp_for body_stmt \<and> rest = [] then Some body_stmt
      else None)"

fun top_level_omp_for_in_stmt :: "gimple \<Rightarrow> gimple option" where
  "top_level_omp_for_in_stmt (GIMPLE_OMP_FOR loc c b) = Some (GIMPLE_OMP_FOR loc c b)"
| "top_level_omp_for_in_stmt (GIMPLE_BIND loc vars [maybe_for_or_try]) =
     (case maybe_for_or_try of
        GIMPLE_OMP_FOR _ _ _ \<Rightarrow> Some maybe_for_or_try
      | GIMPLE_TRY _ try_body _ _ \<Rightarrow>
          (case try_body of
             [maybe_omp_for_stmt] \<Rightarrow>
               if is_omp_for maybe_omp_for_stmt then Some maybe_omp_for_stmt else None
           | _ \<Rightarrow> None)
      | _ \<Rightarrow> None)"
| "top_level_omp_for_in_stmt (GIMPLE_BIND loc vars body) = assignments_then_omp_for body"
| "top_level_omp_for_in_stmt _ = None"

subsection \<open>Building the child regions\<close>

definition make_gang_single_region ::
  "location \<Rightarrow> gimple list \<Rightarrow> omp_clause list \<Rightarrow> gimple"
where
  "make_gang_single_region loc stmts clauses =
     (let clauses = unshare_expr clauses;
          gang_single_clause =
            (build_omp_clause loc OMP_CLAUSE_NUM_GANGS)
              \<lparr>clause_operand := Some integer_one_node\<rparr>;
          single_body = gimple_build_bind [] stmts
      in GIMPLE_OMP_TARGET loc GF_OMP_TARGET_KIND_OACC_PARALLEL_KERNELS_GANG_SINGLE
           (gang_single_clause # clauses) (Some single_body))"

text \<open>
  \<open>transform_kernels_loop_clauses\<close> changes the loop in place (it may give it an
  \<open>auto\<close> clause) and returns the clauses of the new parallel region: the result is the
  loop as it is afterwards, and those clauses.
\<close>

definition transform_kernels_loop_clauses ::
  "gimple \<Rightarrow> omp_clause option \<Rightarrow> omp_clause list \<Rightarrow> gimple \<times> omp_clause list"
where
  "transform_kernels_loop_clauses omp_for num_gangs_clause clauses =
     (let omp_for' =
            (case omp_for of
               GIMPLE_OMP_FOR loc loop_clauses b \<Rightarrow>
                 if list_ex (\<lambda>c. clause_code c = OMP_CLAUSE_AUTO
                                \<or> clause_code c = OMP_CLAUSE_INDEPENDENT
                                \<or> clause_code c = OMP_CLAUSE_SEQ) loop_clauses
                 then omp_for
                 else GIMPLE_OMP_FOR loc
                        (build_omp_clause (gimple_location omp_for) OMP_CLAUSE_AUTO
                           # loop_clauses) b
             | _ \<Rightarrow> omp_for)
      in (omp_for',
          (case num_gangs_clause of
             None \<Rightarrow> clauses
           | Some g \<Rightarrow> unshare_expr g # clauses)))"

text \<open>
  The statement \<open>stmt\<close> holds the loop \<open>omp_for\<close> by reference, so a change of the loop
  shows in \<open>stmt\<close>: \<open>replace_omp_for old new\<close> puts the changed loop in the place of
  the old one, going through bind bodies and the bodies of try statements.
\<close>

fun replace_omp_for :: "gimple \<Rightarrow> gimple \<Rightarrow> gimple \<Rightarrow> gimple" where
  "replace_omp_for old new (GIMPLE_BIND loc vars body) =
     GIMPLE_BIND loc vars (map (replace_omp_for old new) body)"
| "replace_omp_for old new (GIMPLE_TRY loc body cleanup k) =
     GIMPLE_TRY loc (map (replace_omp_for old new) body) cleanup k"
| "replace_omp_for old new stmt = (if stmt = old then new else stmt)"

definition make_gang_parallel_loop_region ::
  "gimple \<Rightarrow> gimple \<Rightarrow> omp_clause option \<Rightarrow> omp_clause list \<Rightarrow> gimple"
where
  "make_gang_parallel_loop_region omp_for stmt num_gangs_clause clauses =
     (let clauses = unshare_expr clauses;
          (omp_for', clauses) = transform_kernels_loop_clauses omp_for num_gangs_clause clauses;
          stmt = replace_omp_for omp_for omp_for' stmt;
          parallel_body_bind = gimple_build_bind [] [stmt]
      in GIMPLE_OMP_TARGET (gimple_location stmt)
           GF_OMP_TARGET_KIND_OACC_PARALLEL_KERNELS_PARALLELIZED
           clauses (Some parallel_body_bind))"

subsection \<open>\<open>flatten_binds\<close>\<close>

text \<open>
  The loop of \<open>flatten_binds\<close> over the body of a bind.  The state is the chain \<open>vars\<close>
  and whether \<open>last_var\<close> is null.  A nested bind that holds no top-level loop is
  flattened with its own variables included, its statements are added to the new body,
  and its variables are linked behind \<open>last_var\<close> (or become \<open>vars\<close> when \<open>last_var\<close> is
  null); then \<open>last_var\<close> is the head of what was linked.  The result is \<open>None\<close> when
  the assertion on the inner sequence fails, which reads the code of its first
  statement.
\<close>

fun flatten_body ::
  "gimple list \<Rightarrow> tree_decl list \<times> bool \<Rightarrow> (gimple list \<times> tree_decl list \<times> bool) option"
where
  "flatten_body [] (vars, last_null) = Some ([], vars, last_null)"
| "flatten_body (GIMPLE_BIND loc bvars body # rest) (vars, last_null) =
     (if top_level_omp_for_in_stmt (GIMPLE_BIND loc bvars body) = None
      then (case flatten_body body (bvars, bvars = []) of
              None \<Rightarrow> None
            | Some (inner_sequence, inner_vars, _) \<Rightarrow>
                (case inner_sequence of
                   [] \<Rightarrow> None
                 | first # _ \<Rightarrow>
                     if is_bind first \<and> top_level_omp_for_in_stmt first = None then None
                     else (case flatten_body rest
                                  (if last_null then inner_vars else vars @ inner_vars,
                                   inner_vars = []) of
                             None \<Rightarrow> None
                           | Some (new_body, vars', last_null') \<Rightarrow>
                               Some (inner_sequence @ new_body, vars', last_null'))))
      else (case flatten_body rest (vars, last_null) of
              None \<Rightarrow> None
            | Some (new_body, vars', last_null') \<Rightarrow>
                Some (GIMPLE_BIND loc bvars body # new_body, vars', last_null')))"
| "flatten_body (stmt # rest) (vars, last_null) =
     (case flatten_body rest (vars, last_null) of
        None \<Rightarrow> None
      | Some (new_body, vars', last_null') \<Rightarrow> Some (stmt # new_body, vars', last_null'))"

text \<open>\<open>flatten_binds (bind, include_toplevel_vars)\<close>: the collected variables and the
  bind with its new body.\<close>

definition flatten_binds :: "gimple \<Rightarrow> bool \<Rightarrow> (tree_decl list \<times> gimple) option" where
  "flatten_binds bind' include_toplevel_vars =
     (case bind' of
        GIMPLE_BIND loc bvars body \<Rightarrow>
          (let vars = (if include_toplevel_vars then bvars else [])
           in case flatten_body body (vars, vars = []) of
                None \<Rightarrow> None
              | Some (new_body, vars', _) \<Rightarrow> Some (vars', GIMPLE_BIND loc bvars new_body))
      | _ \<Rightarrow> None)"

subsection \<open>Data regions\<close>

definition make_data_region_try_statement :: "location \<Rightarrow> gimple \<Rightarrow> gimple" where
  "make_data_region_try_statement loc body =
     GIMPLE_TRY UNKNOWN_LOCATION [gimple_set_location body loc]
       [GIMPLE_CALL UNKNOWN_LOCATION ''__builtin_GOACC_data_end''] GIMPLE_TRY_FINALLY"

text \<open>
  The loop of \<open>maybe_build_inner_data_region\<close> over the collected variables.  A
  variable that is artificial, a constant, or declared in a template instantiation is
  moved to the front of \<open>artificial_vars\<close> and cut out of \<open>inner_bind_vars\<close>; any other
  variable stays and gets a \<open>create\<close> clause at the front of \<open>inner_data_clauses\<close>.  The
  result is what is left of \<open>inner_bind_vars\<close>, \<open>artificial_vars\<close> and the clauses.
\<close>

fun split_inner_vars ::
  "bool \<Rightarrow> location \<Rightarrow> tree_decl list \<Rightarrow> tree_decl list \<times> omp_clause list
     \<Rightarrow> tree_decl list \<times> tree_decl list \<times> omp_clause list"
where
  "split_inner_vars in_template loc [] (artificial_vars, inner_data_clauses) =
     ([], artificial_vars, inner_data_clauses)"
| "split_inner_vars in_template loc (v # next) (artificial_vars, inner_data_clauses) =
     (if decl_artificial v \<or> decl_code v = CONST_DECL \<or> in_template
      then split_inner_vars in_template loc next (v # artificial_vars, inner_data_clauses)
      else (let new_clause =
                  (build_omp_clause loc OMP_CLAUSE_MAP)
                    \<lparr>clause_map_kind := GOMP_MAP_ALLOC, clause_operand := Some (DECL v),
                     clause_size := Some (SIZE_OF (decl_size_unit v))\<rparr>;
                (kept, a, cs) =
                  split_inner_vars in_template loc next
                    (artificial_vars, new_clause # inner_data_clauses)
            in (v # kept, a, cs)))"

text \<open>\<open>in_template\<close> is \<open>DECL_LANG_SPECIFIC (current_function_decl) &&
  DECL_TEMPLATE_INSTANTIATION (current_function_decl)\<close>; the cleanup \<open>inner_cleanup\<close> is
  null when the list is empty.\<close>

definition maybe_build_inner_data_region ::
  "bool \<Rightarrow> location \<Rightarrow> gimple \<Rightarrow> tree_decl list \<Rightarrow> gimple list \<Rightarrow> gimple"
where
  "maybe_build_inner_data_region in_template loc body inner_bind_vars inner_cleanup =
     (let (inner_bind_vars, artificial_vars, inner_data_clauses) =
            split_inner_vars in_template loc inner_bind_vars ([], []);
          body = (if artificial_vars \<noteq> [] then gimple_build_bind artificial_vars [body]
                  else body)
      in if inner_data_clauses \<noteq> []
         then (let try_stmt = make_data_region_try_statement loc body;
                   inner_data_region =
                     GIMPLE_OMP_TARGET loc GF_OMP_TARGET_KIND_OACC_DATA_KERNELS
                       inner_data_clauses (Some try_stmt);
                   bind_body =
                     (if inner_cleanup \<noteq> []
                      then GIMPLE_TRY UNKNOWN_LOCATION [inner_data_region] inner_cleanup
                             GIMPLE_TRY_FINALLY
                      else inner_data_region)
               in gimple_build_bind inner_bind_vars [bind_body])
         else body)"

subsection \<open>\<open>decompose_kernels_region_body\<close>\<close>

text \<open>The first loop: the first \<open>num_gangs\<close> clause is cut out of the chain.  The result
  is that clause (if there is one) and the chain without it.\<close>

fun separate_num_gangs :: "omp_clause list \<Rightarrow> omp_clause option \<times> omp_clause list" where
  "separate_num_gangs [] = (None, [])"
| "separate_num_gangs (c # chain) =
     (if clause_code c = OMP_CLAUSE_NUM_GANGS then (Some c, chain)
      else (let (num_gangs_clause, chain') = separate_num_gangs chain
            in (num_gangs_clause, c # chain')))"

text \<open>The \<open>present\<close> clauses of the collected variables, each put in front of the chain.\<close>

fun add_present_clauses ::
  "location \<Rightarrow> tree_decl list \<Rightarrow> omp_clause list \<Rightarrow> omp_clause list"
where
  "add_present_clauses loc [] present_clauses = present_clauses"
| "add_present_clauses loc (var # vars) present_clauses =
     (if \<not> decl_artificial var \<and> decl_code var \<noteq> CONST_DECL
      then add_present_clauses loc vars
             ((build_omp_clause loc OMP_CLAUSE_MAP)
                \<lparr>clause_map_kind := GOMP_MAP_FORCE_PRESENT, clause_operand := Some (DECL var),
                 clause_size := Some (SIZE_OF (decl_size_unit var))\<rparr> # present_clauses)
      else add_present_clauses loc vars present_clauses)"

text \<open>
  A body that starts with a try statement: its cleanup is kept as \<open>inner_cleanup\<close>, and
  the statements of its body take its place in the sequence.
\<close>

definition open_leading_try :: "gimple list \<Rightarrow> gimple list \<times> gimple list" where
  "open_leading_try body_sequence =
     (case body_sequence of
        GIMPLE_TRY _ try_body cleanup _ # rest \<Rightarrow> (cleanup, try_body @ rest)
      | _ \<Rightarrow> ([], body_sequence))"

definition is_simple_assignment :: "gimple \<Rightarrow> bool" where
  "is_simple_assignment stmt =
     (case stmt of
        GIMPLE_ASSIGN _ lhs _ \<Rightarrow>
          (case lhs of DECL d \<Rightarrow> decl_code d = VAR_DECL \<and> decl_artificial d | _ \<Rightarrow> False)
      | _ \<Rightarrow> False)"

text \<open>
  The loop over the statements of the body.  The state is \<open>region_body\<close>,
  \<open>gang_single_seq\<close> and \<open>only_simple_assignments\<close>.
\<close>

fun decompose_stmts ::
  "location \<Rightarrow> omp_clause option \<Rightarrow> omp_clause list \<Rightarrow> gimple list
     \<Rightarrow> gimple list \<times> gimple list \<times> bool \<Rightarrow> gimple list \<times> gimple list \<times> bool"
where
  "decompose_stmts loc num_gangs_clause kernels_clauses [] st = st"
| "decompose_stmts loc num_gangs_clause kernels_clauses (stmt # rest)
     (region_body, gang_single_seq, only_simple_assignments) =
     (case top_level_omp_for_in_stmt stmt of
        Some omp_for \<Rightarrow>
          (let region_body =
                 (if gang_single_seq \<noteq> [] \<and> \<not> only_simple_assignments
                  then region_body
                         @ [make_gang_single_region loc gang_single_seq kernels_clauses]
                  else region_body);
               stmt =
                 (if gang_single_seq \<noteq> [] \<and> only_simple_assignments
                  then gimple_build_bind [] (gang_single_seq @ [stmt])
                  else stmt);
               parallel_region =
                 make_gang_parallel_loop_region omp_for stmt num_gangs_clause kernels_clauses
           in decompose_stmts loc num_gangs_clause kernels_clauses rest
                (region_body @ [parallel_region], [], True))
      | None \<Rightarrow>
          decompose_stmts loc num_gangs_clause kernels_clauses rest
            (region_body, gang_single_seq @ [stmt],
             only_simple_assignments \<and> is_simple_assignment stmt))"

text \<open>
  The child regions: \<open>region_body\<close> as it is when \<open>decompose_kernels_region_body\<close>
  wraps it.  \<open>body_sequence\<close> is the flattened body with a leading try statement
  opened, \<open>kernels_clauses\<close> the clause chain without \<open>num_gangs\<close> and with the
  \<open>present\<close> clauses.
\<close>

definition build_region_body ::
  "location \<Rightarrow> omp_clause option \<Rightarrow> omp_clause list \<Rightarrow> gimple list \<Rightarrow> gimple list"
where
  "build_region_body loc num_gangs_clause kernels_clauses body_sequence =
     (let (region_body, gang_single_seq, _) =
            decompose_stmts loc num_gangs_clause kernels_clauses body_sequence ([], [], True);
          gang_single_seq =
            (if region_body = [] \<and> gang_single_seq = [] then [GIMPLE_NOP loc]
             else gang_single_seq)
      in if gang_single_seq \<noteq> []
         then region_body @ [make_gang_single_region loc gang_single_seq kernels_clauses]
         else region_body)"


definition child_regions :: "gimple \<Rightarrow> omp_clause list \<Rightarrow> gimple list option" where
  "child_regions kernels_region kernels_clauses =
     (case kernels_region of
        GIMPLE_OMP_TARGET loc _ _ (Some kernels_body) \<Rightarrow>
          (case flatten_binds kernels_body False of
             Some (inner_bind_vars, GIMPLE_BIND _ _ body_sequence) \<Rightarrow>
               (let (num_gangs_clause, chain) = separate_num_gangs kernels_clauses;
                    kernels_clauses = add_present_clauses loc inner_bind_vars chain;
                    (inner_cleanup, body_sequence) = open_leading_try body_sequence
                in Some (build_region_body loc num_gangs_clause kernels_clauses body_sequence))
           | _ \<Rightarrow> None)
      | _ \<Rightarrow> None)"

definition decompose_kernels_region_body ::
  "bool \<Rightarrow> gimple \<Rightarrow> omp_clause list \<Rightarrow> gimple option"
where
  "decompose_kernels_region_body in_template kernels_region kernels_clauses =
     (case kernels_region of
        GIMPLE_OMP_TARGET loc _ _ (Some kernels_body) \<Rightarrow>
          (case (flatten_binds kernels_body False,
                 child_regions kernels_region kernels_clauses) of
             (Some (inner_bind_vars, GIMPLE_BIND _ kernels_locals body_sequence),
              Some region_body) \<Rightarrow>
               (let (inner_cleanup, _) = open_leading_try body_sequence;
                    body = gimple_build_bind kernels_locals region_body
                in Some (maybe_build_inner_data_region in_template loc body inner_bind_vars
                           inner_cleanup))
           | _ \<Rightarrow> None)
      | _ \<Rightarrow> None)"

subsection \<open>\<open>transform_kernels_region\<close>\<close>

text \<open>
  The loop over the clauses of the kernels region: the clauses copied to the data
  region, in their original order, and the chain of the kernels region with the copied
  map clauses turned into \<open>present\<close> clauses.
\<close>

definition never_copied_kind :: "gomp_map_kind \<Rightarrow> bool" where
  "never_copied_kind k =
     (k = GOMP_MAP_POINTER \<or> k = GOMP_MAP_TO_PSET \<or> k = GOMP_MAP_FORCE_TOFROM
      \<or> k = GOMP_MAP_FIRSTPRIVATE_POINTER \<or> k = GOMP_MAP_FIRSTPRIVATE_REFERENCE)"

definition copy_to_data_region :: "omp_clause \<Rightarrow> bool" where
  "copy_to_data_region c =
     (clause_code c = OMP_CLAUSE_MAP \<and> \<not> never_copied_kind (clause_map_kind c)
      \<and> \<not> (clause_map_kind c = GOMP_MAP_ALLOC \<and> integer_zerop (clause_size c))
      \<and> (case clause_operand c of Some (DECL d) \<Rightarrow> \<not> decl_artificial d | _ \<Rightarrow> True))"

fun collect_data_clauses :: "omp_clause list \<Rightarrow> omp_clause list \<times> omp_clause list" where
  "collect_data_clauses [] = ([], [])"
| "collect_data_clauses (c # chain) =
     (let (data_clauses, chain') = collect_data_clauses chain
      in if copy_to_data_region c
         then ((build_omp_clause (clause_location c) OMP_CLAUSE_MAP)
                 \<lparr>clause_map_kind := clause_map_kind c,
                  clause_operand := unshare_expr (clause_operand c),
                  clause_size := clause_size c\<rparr> # data_clauses,
               c\<lparr>clause_map_kind := GOMP_MAP_FORCE_PRESENT\<rparr> # chain')
         else if clause_code c = TREE_OMP_CLAUSE_IF
         then (unshare_expr c # data_clauses, c # chain')
         else (data_clauses, c # chain'))"

definition transform_kernels_region :: "bool \<Rightarrow> gimple \<Rightarrow> gimple option" where
  "transform_kernels_region in_template kernels_region =
     (case kernels_region of
        GIMPLE_OMP_TARGET loc GF_OMP_TARGET_KIND_OACC_KERNELS kernels_clauses b \<Rightarrow>
          (let (data_clauses, kernels_clauses) = collect_data_clauses kernels_clauses
           in case decompose_kernels_region_body in_template kernels_region kernels_clauses of
                None \<Rightarrow> None
              | Some body \<Rightarrow>
                  Some (GIMPLE_OMP_TARGET loc GF_OMP_TARGET_KIND_OACC_DATA_KERNELS data_clauses
                          (Some (make_data_region_try_statement loc body))))
      | _ \<Rightarrow> None)"

text \<open>What a child region is made of.\<close>

fun target_kind :: "gimple \<Rightarrow> gf_omp_target_kind option" where
  "target_kind (GIMPLE_OMP_TARGET _ k _ _) = Some k"
| "target_kind _ = None"

fun target_clauses :: "gimple \<Rightarrow> omp_clause list" where
  "target_clauses (GIMPLE_OMP_TARGET _ _ c _) = c"
| "target_clauses _ = []"

text \<open>A child region is gang-single with \<open>num_gangs(1)\<close>, or a parallel-loop region with
  the clause \<open>g\<close>, in front of the clauses \<open>P\<close>.\<close>

definition routed ::
  "location \<Rightarrow> omp_clause \<Rightarrow> omp_clause list \<Rightarrow> gimple \<Rightarrow> bool"
where
  "routed loc g P r =
     ((target_kind r = Some GF_OMP_TARGET_KIND_OACC_PARALLEL_KERNELS_GANG_SINGLE
       \<and> target_clauses r
           = (build_omp_clause loc OMP_CLAUSE_NUM_GANGS)\<lparr>clause_operand := Some integer_one_node\<rparr>
               # P)
      \<or> (target_kind r = Some GF_OMP_TARGET_KIND_OACC_PARALLEL_KERNELS_PARALLELIZED
          \<and> target_clauses r = g # P))"

text \<open>
  The child regions in the result of the decomposition: the gang-single and the
  parallel-loop regions met when going down through the bind statements, the bodies of
  the try statements and the data regions that wrap them.
\<close>

fun child_regions_of :: "gimple \<Rightarrow> gimple list" where
  "child_regions_of (GIMPLE_BIND loc vars body) = concat (map child_regions_of body)"
| "child_regions_of (GIMPLE_TRY loc eval cleanup kind) = concat (map child_regions_of eval)"
| "child_regions_of (GIMPLE_OMP_TARGET loc k cl body) =
     (if k = GF_OMP_TARGET_KIND_OACC_PARALLEL_KERNELS_GANG_SINGLE
         \<or> k = GF_OMP_TARGET_KIND_OACC_PARALLEL_KERNELS_PARALLELIZED
      then [GIMPLE_OMP_TARGET loc k cl body]
      else (case body of None \<Rightarrow> [] | Some b \<Rightarrow> child_regions_of b))"
| "child_regions_of _ = []"

section \<open>Concrete inputs\<close>

text \<open>A plain scalar variable of a given intrinsic type, with no attribute set.\<close>

definition plain_attr :: symbol_attribute where
  "plain_attr =
     \<lparr> flavor = FL_VARIABLE, proc_pointer = False, dummy = False, attr_function = False,
       threadprivate = False, cray_pointee = False, cray_pointer = False, pointer = False,
       allocatable = False, in_namelist = False, attr_value = False,
       entry_master = False, intrinsic = False, external = False, generic = False,
       attr_entry = False, attr_result = False, subroutine = False, target = False,
       use_assoc = False, proc = PROC_UNKNOWN, if_source = IFSRC_UNKNOWN \<rparr>"

definition plain_ts :: "bt \<Rightarrow> gfc_typespec" where
  "plain_ts t =
     \<lparr> ts_type = t, ts_kind = 4,
       ts_derived = \<lparr> alloc_comp = False, from_intmod = INTMOD_NONE,
                      is_isocbinding_ptr = False \<rparr> \<rparr>"

definition plain_symbol :: "string \<Rightarrow> bt \<Rightarrow> gfc_symbol" where
  "plain_symbol n t =
     \<lparr> sym_name = n, attr = plain_attr, sym_ts = plain_ts t, sym_as = None, sym_ns = 0,
       sym_result = None, mark = False \<rparr>"

text \<open>
  A symbol heap: symbol 1 is a thread-private integer \<open>i\<close>, symbol 2 an allocatable
  integer \<open>a\<close>, symbol 3 a logical \<open>l\<close>, every other symbol a plain integer \<open>x\<close>.
\<close>

definition ex_syms :: sym_heap where
  "ex_syms p =
     (if p = 1 then (plain_symbol ''i'' BT_INTEGER)\<lparr>attr := plain_attr\<lparr>threadprivate := True\<rparr>\<rparr>
      else if p = 2 then (plain_symbol ''a'' BT_INTEGER)\<lparr>attr := plain_attr\<lparr>allocatable := True\<rparr>\<rparr>
      else if p = 3 then plain_symbol ''l'' BT_LOGICAL
      else plain_symbol ''x'' BT_INTEGER)"

text \<open>
  Collaborators for the concrete inputs: every expression resolves and is left as it
  is, the integer of a constant is its value, the basic types are ordered as the
  enumeration of GCC's header lists them, two types are the same when type and kind
  are, and a conversion wraps the expression into a call of the conversion intrinsic.
\<close>

fun ex_bt_num :: "bt \<Rightarrow> nat" where
  "ex_bt_num BT_UNKNOWN = 0"
| "ex_bt_num BT_INTEGER = 1"
| "ex_bt_num BT_LOGICAL = 2"
| "ex_bt_num BT_REAL = 3"
| "ex_bt_num BT_COMPLEX = 4"
| "ex_bt_num BT_DERIVED = 5"
| "ex_bt_num BT_CHARACTER = 6"
| "ex_bt_num BT_CLASS = 7"
| "ex_bt_num BT_PROCEDURE = 8"
| "ex_bt_num BT_HOLLERITH = 9"
| "ex_bt_num BT_VOID = 10"
| "ex_bt_num BT_ASSUMED = 11"

definition ex_ext :: gfc_ext where
  "ex_ext =
     \<lparr> gfc_resolve_expr = (\<lambda>e. (True, e)),
       gfc_extract_int = (\<lambda>e. constant_integer (Some e)),
       bt_gt = (\<lambda>a b. ex_bt_num a > ex_bt_num b),
       gfc_compare_types = (\<lambda>a b. ts_type a = ts_type b \<and> ts_kind a = ts_kind b),
       gfc_convert_type = (\<lambda>e t.
         Gfc_expr ((hdr e)\<lparr>e_ts := t, symtree := None\<rparr>) []
           (V_function (Some GFC_ISYM_CONVERSION) None [Some e])) \<rparr>"

definition ex_ns :: gfc_namespace where
  "ex_ns = Namespace 100 [] None"

text \<open>Clause sets that hold the one list, or the two lists, given.\<close>

definition clauses_with :: "(omp_list \<times> sym_ptr list) list \<Rightarrow> gfc_omp_clauses" where
  "clauses_with ls =
     gfc_get_omp_clauses\<lparr>omp_lists := (\<lambda>l.
        case map_of ls l of
          None \<Rightarrow> []
        | Some ps \<Rightarrow> map (\<lambda>p. \<lparr>nl_sym = p, nl_expr = None\<rparr>) ps)\<rparr>"

text \<open>Clause sets of four directives, on the plain integer 7 and the logical 3.\<close>

definition ex_private_shared :: gfc_omp_clauses where
  "ex_private_shared = clauses_with [(OMP_LIST_PRIVATE, [7]), (OMP_LIST_SHARED, [7])]"

definition ex_first_last :: gfc_omp_clauses where
  "ex_first_last = clauses_with [(OMP_LIST_FIRSTPRIVATE, [7]), (OMP_LIST_LASTPRIVATE, [7])]"

definition ex_reduction_plus :: gfc_omp_clauses where
  "ex_reduction_plus = clauses_with [(OMP_LIST_PLUS, [3])]"

definition ex_reduction_and :: gfc_omp_clauses where
  "ex_reduction_and = clauses_with [(OMP_LIST_AND, [3])]"

text \<open>One open parallel context, opened by statement 10, with nothing listed on it.\<close>

definition ex_omp_state :: omp_state where
  "ex_omp_state =
     \<lparr> omp_current_ctx = [\<lparr>ctx_code = 10, sharing_clauses = {}, private_iterators = {}\<rparr>],
       omp_current_do_code = None, omp_current_do_collapse = 0,
       ext_omp_clauses = (\<lambda>_. gfc_get_omp_clauses) \<rparr>"






subsection \<open>Atomic directives\<close>

text \<open>
  Scalar integer variables and binary operators over them; the node at address \<open>a\<close> is
  located at \<open>a\<close>.  Below, \<open>x\<close> is the symbol at 7, \<open>a\<close> the one at 8, \<open>b\<close> and \<open>v\<close>
  the one at 9, and the symbol at 2 is allocatable.
\<close>

definition ex_var :: "nat \<Rightarrow> sym_ptr \<Rightarrow> gfc_expr" where
  "ex_var a p =
     Gfc_expr \<lparr>e_addr = a, e_ts = plain_ts BT_INTEGER, e_rank = 0, symtree = Some p,
               e_where = a\<rparr> [] V_variable"

definition ex_binop :: "nat \<Rightarrow> gfc_intrinsic_op \<Rightarrow> gfc_expr \<Rightarrow> gfc_expr \<Rightarrow> gfc_expr" where
  "ex_binop a o1 l r =
     Gfc_expr \<lparr>e_addr = a, e_ts = plain_ts BT_INTEGER, e_rank = 0, symtree = None,
               e_where = a\<rparr> [] (V_op o1 l (Some r))"

definition ex_assign :: "locus \<Rightarrow> gfc_expr \<Rightarrow> gfc_expr \<Rightarrow> gfc_code" where
  "ex_assign loc l r = \<lparr>c_op = EXEC_ASSIGN, c_loc = loc, expr1 = l, expr2 = r\<rparr>"

definition ex_atomic :: "gfc_omp_atomic_op \<Rightarrow> gfc_code list \<Rightarrow> atomic_code" where
  "ex_atomic k stmts = \<lparr>omp_atomic = k, seq_cst = False, swap = False, block = stmts\<rparr>"

definition ex_x_eq_a_minus_x :: atomic_code where
  "ex_x_eq_a_minus_x =
     ex_atomic GFC_OMP_ATOMIC_UPDATE
       [ex_assign 50 (ex_var 51 7) (ex_binop 52 INTRINSIC_MINUS (ex_var 53 8) (ex_var 54 7))]"

definition ex_x_eq_x_minus_a :: atomic_code where
  "ex_x_eq_x_minus_a =
     ex_atomic GFC_OMP_ATOMIC_UPDATE
       [ex_assign 50 (ex_var 51 7) (ex_binop 52 INTRINSIC_MINUS (ex_var 53 7) (ex_var 54 8))]"

definition ex_x_eq_x_minus_a_minus_b :: atomic_code where
  "ex_x_eq_x_minus_a_minus_b =
     ex_atomic GFC_OMP_ATOMIC_UPDATE
       [ex_assign 50 (ex_var 51 7)
          (ex_binop 52 INTRINSIC_MINUS
             (ex_binop 53 INTRINSIC_MINUS (ex_var 54 7) (ex_var 55 8)) (ex_var 56 9))]"

text \<open>\<open>a = x - a\<close> for the allocatable variable at 2.\<close>

definition ex_alloc_minus :: atomic_code where
  "ex_alloc_minus =
     ex_atomic GFC_OMP_ATOMIC_UPDATE
       [ex_assign 50 (ex_var 51 2) (ex_binop 52 INTRINSIC_MINUS (ex_var 53 8) (ex_var 54 2))]"

definition ex_write_alloc :: atomic_code where
  "ex_write_alloc =
     ex_atomic GFC_OMP_ATOMIC_WRITE [ex_assign 50 (ex_var 51 2) (ex_var 52 8)]"

definition ex_read_alloc :: atomic_code where
  "ex_read_alloc =
     ex_atomic GFC_OMP_ATOMIC_READ [ex_assign 50 (ex_var 51 2) (ex_var 52 8)]"

definition ex_update_alloc :: atomic_code where
  "ex_update_alloc =
     ex_atomic GFC_OMP_ATOMIC_UPDATE
       [ex_assign 50 (ex_var 51 2) (ex_binop 52 INTRINSIC_PLUS (ex_var 53 2) (ex_var 54 8))]"

definition ex_capture :: atomic_code where
  "ex_capture =
     ex_atomic GFC_OMP_ATOMIC_CAPTURE
       [ex_assign 50 (ex_var 51 7) (ex_binop 52 INTRINSIC_PLUS (ex_var 53 7) (ex_var 54 8)),
        ex_assign 60 (ex_var 61 9) (ex_var 62 7)]"

definition ex_capture_other :: atomic_code where
  "ex_capture_other =
     ex_atomic GFC_OMP_ATOMIC_CAPTURE
       [ex_assign 50 (ex_var 51 7) (ex_binop 52 INTRINSIC_PLUS (ex_var 53 7) (ex_var 54 8)),
        ex_assign 60 (ex_var 61 9) (ex_var 62 8)]"

subsection \<open>Clause text\<close>

text \<open>
  A source text that is already cut into the pieces the matchers ask for: a locus is
  the index of a piece, and a matcher says yes when the piece at the locus is the one
  it looks for (the pattern of \<open>gfc_match\<close>, a symbol, a character, white space) and
  then moves to the next piece.  \<open>gfc_match_omp_eos\<close> says yes behind the last piece.
  Copies of an expression live 1000 addresses further on; the constant of
  \<open>gfc_get_constant_expr\<close> lives at 900.
\<close>

datatype token =
    Tok_pattern string
  | Tok_expr string gfc_expr
  | Tok_symbol sym_ptr
  | Tok_char char
  | Tok_space

definition ex_tok :: "token list \<Rightarrow> parse_state \<Rightarrow> token option" where
  "ex_tok ts st =
     (if gfc_current_locus st < length ts then Some (ts ! gfc_current_locus st) else None)"

definition ex_advance :: "parse_state \<Rightarrow> parse_state" where
  "ex_advance st = st\<lparr>gfc_current_locus := Suc (gfc_current_locus st)\<rparr>"

definition ex_matchers :: "token list \<Rightarrow> gfc_matchers" where
  "ex_matchers ts =
     \<lparr> gfc_match = (\<lambda>pat st. if ex_tok ts st = Some (Tok_pattern pat)
                              then (MATCH_YES, ex_advance st) else (MATCH_NO, st)),
       gfc_match_e = (\<lambda>pat st. case ex_tok ts st of
                         Some (Tok_expr p e) \<Rightarrow>
                           if p = pat then (MATCH_YES, Some e, ex_advance st)
                           else (MATCH_NO, None, st)
                       | _ \<Rightarrow> (MATCH_NO, None, st)),
       gfc_match_n = (\<lambda>pat st. (MATCH_NO, [], st)),
       gfc_match_symbol = (\<lambda>st. case ex_tok ts st of
                              Some (Tok_symbol p) \<Rightarrow> (MATCH_YES, p, ex_advance st)
                            | _ \<Rightarrow> (MATCH_NO, 0, st)),
       gfc_match_variable = (\<lambda>st. (MATCH_NO, None, st)),
       gfc_match_char = (\<lambda>ch st. if ex_tok ts st = Some (Tok_char ch)
                                  then (MATCH_YES, ex_advance st) else (MATCH_NO, st)),
       gfc_peek_ascii_char = (\<lambda>st. case ex_tok ts st of
                                 Some (Tok_char ch) \<Rightarrow> ch | _ \<Rightarrow> CHR '' ''),
       gfc_match_space = (\<lambda>st. if ex_tok ts st = Some Tok_space
                                then (MATCH_YES, ex_advance st) else (MATCH_NO, st)),
       gfc_gobble_whitespace = (\<lambda>st. st),
       gfc_match_name = (\<lambda>st. (MATCH_NO, [], st)),
       gfc_match_omp_eos = (\<lambda>st. if length ts \<le> gfc_current_locus st
                                  then (MATCH_YES, st) else (MATCH_NO, st)),
       gfc_find_symbol = (\<lambda>n st. None),
       gfc_find_common = (\<lambda>n st. None),
       gfc_set_sym_referenced = (\<lambda>sy st. st),
       gfc_add_flavor = (\<lambda>sy f st. (True, st)),
       gfc_add_intrinsic = (\<lambda>sy st. (True, st)),
       ns_proc_name = (\<lambda>ns. None),
       gfc_get_constant_expr =
         (\<lambda>t k w. Gfc_expr \<lparr>e_addr = 900, e_ts = (plain_ts t)\<lparr>ts_kind := k\<rparr>, e_rank = 0,
                              symtree = None, e_where = w\<rparr> [] (V_constant 0)),
       gfc_copy_expr =
         (\<lambda>e. Gfc_expr ((hdr e)\<lparr>e_addr := e_addr (hdr e) + 1000\<rparr>) (e_ref e) (e_val e)),
       gfc_default_integer_kind = 4 \<rparr>"

definition ex_const :: "nat \<Rightarrow> int \<Rightarrow> gfc_expr" where
  "ex_const a v =
     Gfc_expr \<lparr>e_addr = a, e_ts = plain_ts BT_INTEGER, e_rank = 0, symtree = None,
               e_where = a\<rparr> [] (V_constant v)"

definition ex_mask :: int where
  "ex_mask = OMP_CLAUSE_PRIVATE OR OMP_CLAUSE_ALIGNED OR OMP_CLAUSE_LINEAR OR OMP_CLAUSE_DEPEND"

definition ex_parse_state :: parse_state where
  "ex_parse_state = \<lparr>gfc_current_locus = 0, p_syms = ex_syms, p_errors = []\<rparr>"

definition ex_parse :: "token list \<Rightarrow> (match \<times> gfc_omp_clauses option \<times> parse_state) option" where
  "ex_parse ts = gfc_match_omp_clauses (ex_matchers ts) ex_ext ex_mask True True ex_parse_state"

definition ex_aligned :: "token list" where
  "ex_aligned =
     [Tok_space, Tok_pattern ''aligned ('', Tok_symbol 11, Tok_char CHR '','', Tok_symbol 12,
      Tok_char CHR '':'', Tok_expr '' %e )'' (ex_const 70 8)]"


definition ex_linear :: "token list" where
  "ex_linear =
     [Tok_space, Tok_pattern ''linear ('', Tok_symbol 11, Tok_char CHR '','', Tok_symbol 12,
      Tok_char CHR '')'']"

definition ex_depend :: "token list" where
  "ex_depend =
     [Tok_space, Tok_pattern ''depend ( in : '', Tok_symbol 11, Tok_char CHR '')'',
      Tok_pattern ''depend ( out : '', Tok_symbol 12, Tok_char CHR '')'',
      Tok_pattern ''depend ( inout : '', Tok_symbol 13, Tok_char CHR '')'']"

definition parsed_list :: "omp_list \<Rightarrow> (match \<times> gfc_omp_clauses option \<times> parse_state) option
    \<Rightarrow> gfc_omp_namelist list option" where
  "parsed_list l r =
     (case r of Some (MATCH_YES, Some c, st) \<Rightarrow> Some (omp_lists c l) | _ \<Rightarrow> None)"

definition ex_at :: "nat \<Rightarrow> parse_state" where
  "ex_at k = ex_parse_state\<lparr>gfc_current_locus := k\<rparr>"

definition ex_entry :: "sym_ptr \<Rightarrow> gfc_omp_namelist" where
  "ex_entry p = \<lparr>nl_sym = p, nl_expr = None\<rparr>"


section \<open>Theorems\<close>

subsection \<open>The marking passes, seen from one symbol\<close>

lemma mark_set_mark: "mark (set_mark syms q b p) = (if p = q then b else mark (syms p))"
  by (simp add: set_mark_def)

lemma mce_Nil: "multiple_clause_errors p [] = 0"
  by (simp add: multiple_clause_errors_def)

lemma mce_Cons:
  "multiple_clause_errors p (e # es) =
     (if e = Err_multiple_clauses p then 1 else 0) + multiple_clause_errors p es"
  by (simp add: multiple_clause_errors_def)

lemma mce_append:
  "multiple_clause_errors p (es @ fs) = multiple_clause_errors p es + multiple_clause_errors p fs"
  by (simp add: multiple_clause_errors_def)

lemma mce_absent: "Err_multiple_clauses p \<notin> set es \<Longrightarrow> multiple_clause_errors p es = 0"
  by (induction es) (auto simp: multiple_clause_errors_def)

lemma occ_Nil: "occurrences p [] = 0"
  by (simp add: occurrences_def)

lemma occ_Cons:
  "occurrences p (n # ns) = (if nl_sym n = p then 1 else 0) + occurrences p ns"
  by (simp add: occurrences_def)

lemma mark_or_report_sym:
  "mark_or_report syms ns = (syms', es) \<Longrightarrow>
     multiple_clause_errors p es
       = (if mark (syms p) then occurrences p ns else occurrences p ns - 1)
     \<and> mark (syms' p) = (mark (syms p) \<or> 0 < occurrences p ns)"
proof (induction ns arbitrary: syms syms' es)
  case Nil
  then show ?case by (simp add: mce_Nil occ_Nil)
next
  case (Cons n ns)
  show ?case
  proof (cases "mark (syms (nl_sym n))")
    case True
    obtain s1 e1 where r: "mark_or_report syms ns = (s1, e1)" by (cases "mark_or_report syms ns")
    with Cons.prems True have eq: "syms' = s1" "es = Err_multiple_clauses (nl_sym n) # e1"
      by auto
    from Cons.IH [OF r] True show ?thesis
      by (auto simp: eq mce_Cons occ_Cons)
  next
    case False
    with Cons.prems have r: "mark_or_report (set_mark syms (nl_sym n) True) ns = (syms', es)"
      by simp
    from Cons.IH [OF r] False show ?thesis
      by (auto simp: mark_set_mark occ_Cons)
  qed
qed

lemma report_and_unmark_sym:
  "report_and_unmark syms ns = (syms', es) \<Longrightarrow>
     multiple_clause_errors p es = (if mark (syms p) \<and> 0 < occurrences p ns then 1 else 0)
     \<and> mark (syms' p) = (mark (syms p) \<and> occurrences p ns = 0)"
proof (induction ns arbitrary: syms syms' es)
  case Nil
  then show ?case by (simp add: mce_Nil occ_Nil)
next
  case (Cons n ns)
  show ?case
  proof (cases "mark (syms (nl_sym n))")
    case True
    obtain s1 e1 where r: "report_and_unmark (set_mark syms (nl_sym n) False) ns = (s1, e1)"
      by (cases "report_and_unmark (set_mark syms (nl_sym n) False) ns")
    with Cons.prems True have eq: "syms' = s1" "es = Err_multiple_clauses (nl_sym n) # e1"
      by auto
    from Cons.IH [OF r] True show ?thesis
      by (auto simp: eq mce_Cons occ_Cons mark_set_mark)
  next
    case False
    with Cons.prems have r: "report_and_unmark syms ns = (syms', es)"
      by simp
    from Cons.IH [OF r] False show ?thesis
      by (auto simp: occ_Cons)
  qed
qed

lemma unmark_sym: "mark (unmark syms ns p) = (mark (syms p) \<and> occurrences p ns = 0)"
  by (induction ns arbitrary: syms) (auto simp: occ_Nil occ_Cons mark_set_mark)

lemma check_is_variable_no_multiple:
  "Err_multiple_clauses p \<notin> set (check_is_variable code_null ns cur syms q)"
  by (simp add: check_is_variable_def Let_def)

lemma clear_and_check_sym:
  "clear_and_check code_null ns cur syms nl = (syms', es) \<Longrightarrow>
     multiple_clause_errors p es = 0
     \<and> mark (syms' p) = (mark (syms p) \<and> occurrences p nl = 0)"
proof (induction nl arbitrary: syms syms' es)
  case Nil
  then show ?case by (simp add: mce_Nil occ_Nil)
next
  case (Cons n nl)
  obtain s1 e1 where r: "clear_and_check code_null ns cur (set_mark syms (nl_sym n) False) nl = (s1, e1)"
    by (cases "clear_and_check code_null ns cur (set_mark syms (nl_sym n) False) nl")
  with Cons.prems have eq: "syms' = s1"
    "es = check_is_variable code_null ns cur (set_mark syms (nl_sym n) False) (nl_sym n) @ e1"
    by (auto simp: Let_def)
  from Cons.IH [OF r] show ?case
    by (auto simp: eq mce_append mce_absent check_is_variable_no_multiple occ_Cons mark_set_mark)
qed

lemma occ_lists_Nil: "occ_lists p c [] = 0"
  by (simp add: occ_lists_def)

lemma occ_lists_Cons:
  "occ_lists p c (l # ls) = occurrences p (omp_lists c l) + occ_lists p c ls"
  by (simp add: occ_lists_def)

lemma over_lists_mark_or_report:
  "over_lists mark_or_report c syms ls = (syms', es) \<Longrightarrow>
     multiple_clause_errors p es
       = (if mark (syms p) then occ_lists p c ls else occ_lists p c ls - 1)
     \<and> mark (syms' p) = (mark (syms p) \<or> 0 < occ_lists p c ls)"
proof (induction ls arbitrary: syms syms' es)
  case Nil
  then show ?case by (simp add: mce_Nil occ_lists_Nil)
next
  case (Cons l ls)
  obtain s1 e1 where a: "mark_or_report syms (omp_lists c l) = (s1, e1)"
    by (cases "mark_or_report syms (omp_lists c l)")
  obtain s2 e2 where b: "over_lists mark_or_report c s1 ls = (s2, e2)"
    by (cases "over_lists mark_or_report c s1 ls")
  from Cons.prems a b have eq: "syms' = s2" "es = e1 @ e2" by auto
  from mark_or_report_sym [OF a, of p] Cons.IH [OF b] show ?case
    by (auto simp: eq mce_append occ_lists_Cons)
qed

lemma over_lists_report_and_unmark:
  "over_lists report_and_unmark c syms ls = (syms', es) \<Longrightarrow>
     multiple_clause_errors p es = (if mark (syms p) \<and> 0 < occ_lists p c ls then 1 else 0)
     \<and> mark (syms' p) = (mark (syms p) \<and> occ_lists p c ls = 0)"
proof (induction ls arbitrary: syms syms' es)
  case Nil
  then show ?case by (simp add: mce_Nil occ_lists_Nil)
next
  case (Cons l ls)
  obtain s1 e1 where a: "report_and_unmark syms (omp_lists c l) = (s1, e1)"
    by (cases "report_and_unmark syms (omp_lists c l)")
  obtain s2 e2 where b: "over_lists report_and_unmark c s1 ls = (s2, e2)"
    by (cases "over_lists report_and_unmark c s1 ls")
  from Cons.prems a b have eq: "syms' = s2" "es = e1 @ e2" by auto
  from report_and_unmark_sym [OF a, of p] Cons.IH [OF b] show ?case
    by (auto simp: eq mce_append occ_lists_Cons)
qed

lemma over_lists_clear_and_check:
  "over_lists (clear_and_check code_null ns cur) c syms ls = (syms', es) \<Longrightarrow>
     multiple_clause_errors p es = 0
     \<and> mark (syms' p) = (mark (syms p) \<and> occ_lists p c ls = 0)"
proof (induction ls arbitrary: syms syms' es)
  case Nil
  then show ?case by (simp add: mce_Nil occ_lists_Nil)
next
  case (Cons l ls)
  obtain s1 e1 where a: "clear_and_check code_null ns cur syms (omp_lists c l) = (s1, e1)"
    by (cases "clear_and_check code_null ns cur syms (omp_lists c l)")
  obtain s2 e2 where b: "over_lists (clear_and_check code_null ns cur) c s1 ls = (s2, e2)"
    by (cases "over_lists (clear_and_check code_null ns cur) c s1 ls")
  from Cons.prems a b have eq: "syms' = s2" "es = e1 @ e2" by auto
  from clear_and_check_sym [OF a, of p] Cons.IH [OF b] show ?case
    by (auto simp: eq mce_append occ_lists_Cons)
qed


lemma occ_lists_member:
  "l \<in> set ls \<Longrightarrow> occurrences p (omp_lists c l) \<le> occ_lists p c ls"
  by (induction ls) (auto simp: occ_lists_Cons)

lemma occ_lists_none:
  "(\<And>l. l \<in> set ls \<Longrightarrow> occurrences p (omp_lists c l) = 0) \<Longrightarrow> occ_lists p c ls = 0"
  by (induction ls) (auto simp: occ_lists_Nil occ_lists_Cons)

lemma occ_lists_one:
  "distinct ls \<Longrightarrow> A \<in> set ls \<Longrightarrow>
   (\<And>l. l \<in> set ls \<Longrightarrow> l \<noteq> A \<Longrightarrow> occurrences p (omp_lists c l) = 0) \<Longrightarrow>
   occ_lists p c ls = occurrences p (omp_lists c A)"
proof (induction ls)
  case Nil
  then show ?case by simp
next
  case (Cons l ls)
  show ?case
  proof (cases "l = A")
    case True
    with Cons.prems have "occ_lists p c ls = 0"
      by (intro occ_lists_none) auto
    with True show ?thesis by (simp add: occ_lists_Cons)
  next
    case False
    with Cons.prems have "occurrences p (omp_lists c l) = 0" by simp
    moreover from False Cons.prems have "occ_lists p c ls = occurrences p (omp_lists c A)"
      by (intro Cons.IH) auto
    ultimately show ?thesis by (simp add: occ_lists_Cons)
  qed
qed

lemma occ_lists_two:
  "distinct ls \<Longrightarrow> A \<in> set ls \<Longrightarrow> B \<in> set ls \<Longrightarrow> A \<noteq> B \<Longrightarrow>
   (\<And>l. l \<in> set ls \<Longrightarrow> l \<noteq> A \<Longrightarrow> l \<noteq> B \<Longrightarrow> occurrences p (omp_lists c l) = 0) \<Longrightarrow>
   occ_lists p c ls = occurrences p (omp_lists c A) + occurrences p (omp_lists c B)"
proof (induction ls)
  case Nil
  then show ?case by simp
next
  case (Cons l ls)
  show ?case
  proof (cases "l = A")
    case True
    with Cons.prems have "occ_lists p c ls = occurrences p (omp_lists c B)"
      by (intro occ_lists_one) auto
    with True show ?thesis by (simp add: occ_lists_Cons)
  next
    case notA: False
    show ?thesis
    proof (cases "l = B")
      case True
      with Cons.prems have "occ_lists p c ls = occurrences p (omp_lists c A)"
        by (intro occ_lists_one) auto
      with True show ?thesis by (simp add: occ_lists_Cons)
    next
      case False
      with notA Cons.prems have "occurrences p (omp_lists c l) = 0" by simp
      moreover from notA False Cons.prems
      have "occ_lists p c ls = occurrences p (omp_lists c A) + occurrences p (omp_lists c B)"
        by (intro Cons.IH) auto
      ultimately show ?thesis by (simp add: occ_lists_Cons)
    qed
  qed
qed

lemma all_omp_lists_complete: "l \<in> set all_omp_lists"
  by (cases l) (simp_all add: all_omp_lists_def)

lemma all_omp_lists_distinct: "distinct all_omp_lists"
  by (simp add: all_omp_lists_def)

text \<open>The number of reports for one symbol out of the marking passes.\<close>

lemma check_multiple_clauses_count:
  assumes run: "check_multiple_clauses code_null ns cur c syms = (syms', es)"
  shows "multiple_clause_errors p es =
     (let m0 = (mark (syms p) \<and> occ_lists p c all_omp_lists = 0);
          k1 = occ_lists p c (filter (\<lambda>l. \<not> exempt_from_marking l) all_omp_lists);
          m1 = (m0 \<or> 0 < k1);
          k2 = occ_lists p c [OMP_LIST_FIRSTPRIVATE, OMP_LIST_LASTPRIVATE];
          m2 = (m1 \<and> k2 = 0);
          kf = occurrences p (omp_lists c OMP_LIST_FIRSTPRIVATE);
          kl = occurrences p (omp_lists c OMP_LIST_LASTPRIVATE);
          ka = occurrences p (omp_lists c OMP_LIST_ALIGNED)
      in (if m0 then k1 else k1 - 1) + (if m1 \<and> 0 < k2 then 1 else 0)
         + (if m2 then kf else kf - 1) + (kl - 1) + (ka - 1))"
proof -
  obtain s0 e0 where p0:
    "over_lists (clear_and_check code_null ns cur) c syms all_omp_lists = (s0, e0)"
    by (cases "over_lists (clear_and_check code_null ns cur) c syms all_omp_lists")
  obtain s1 e1 where p1:
    "over_lists mark_or_report c s0 (filter (\<lambda>l. \<not> exempt_from_marking l) all_omp_lists)
       = (s1, e1)"
    by (cases "over_lists mark_or_report c s0
                 (filter (\<lambda>l. \<not> exempt_from_marking l) all_omp_lists)")
  obtain s2 e2 where p2:
    "over_lists report_and_unmark c s1 [OMP_LIST_FIRSTPRIVATE, OMP_LIST_LASTPRIVATE] = (s2, e2)"
    by (cases "over_lists report_and_unmark c s1 [OMP_LIST_FIRSTPRIVATE, OMP_LIST_LASTPRIVATE]")
  obtain s3 e3 where p3: "mark_or_report s2 (omp_lists c OMP_LIST_FIRSTPRIVATE) = (s3, e3)"
    by (cases "mark_or_report s2 (omp_lists c OMP_LIST_FIRSTPRIVATE)")
  define s4 where "s4 = unmark s3 (omp_lists c OMP_LIST_LASTPRIVATE)"
  obtain s5 e5 where p5: "mark_or_report s4 (omp_lists c OMP_LIST_LASTPRIVATE) = (s5, e5)"
    by (cases "mark_or_report s4 (omp_lists c OMP_LIST_LASTPRIVATE)")
  define s6 where "s6 = unmark s5 (omp_lists c OMP_LIST_ALIGNED)"
  obtain s7 e7 where p7: "mark_or_report s6 (omp_lists c OMP_LIST_ALIGNED) = (s7, e7)"
    by (cases "mark_or_report s6 (omp_lists c OMP_LIST_ALIGNED)")
  have es: "es = e0 @ e1 @ e2 @ e3 @ e5 @ e7"
    using run p0 p1 p2 p3 p5 p7
    by (simp add: check_multiple_clauses_def s4_def [symmetric] s6_def [symmetric])
  note f0 = over_lists_clear_and_check [OF p0, of p]
  note f1 = over_lists_mark_or_report [OF p1, of p]
  note f2 = over_lists_report_and_unmark [OF p2, of p]
  note f3 = mark_or_report_sym [OF p3, of p]
  have f4: "mark (s4 p) = (mark (s3 p) \<and> occurrences p (omp_lists c OMP_LIST_LASTPRIVATE) = 0)"
    by (simp add: s4_def unmark_sym)
  note f5 = mark_or_report_sym [OF p5, of p]
  have f6: "mark (s6 p) = (mark (s5 p) \<and> occurrences p (omp_lists c OMP_LIST_ALIGNED) = 0)"
    by (simp add: s6_def unmark_sym)
  note f7 = mark_or_report_sym [OF p7, of p]
  show ?thesis
    unfolding es mce_append Let_def
    using f0 f1 f2 f3 f4 f5 f6 f7 by auto
qed

subsection \<open>What the other checks of the validator report\<close>

lemma check_scalar_clause_no_multiple:
  "(\<And>w. err w \<noteq> Err_multiple_clauses p) \<Longrightarrow>
     multiple_clause_errors p (check_scalar_clause ext t err x) = 0"
  by (cases x) (auto simp: check_scalar_clause_def multiple_clause_errors_def)

lemma until_abort_member:
  "e \<in> set (fst (until_abort f xs)) \<Longrightarrow> \<exists>x\<in>set xs. e \<in> set (fst (f x))"
  by (induction xs) (auto split: prod.splits if_splits)

lemma until_abort_all:
  "\<not> snd (until_abort f xs) \<Longrightarrow> x \<in> set xs \<Longrightarrow> e \<in> set (fst (f x)) \<Longrightarrow>
     e \<in> set (fst (until_abort f xs))"
  by (induction xs) (auto split: prod.splits if_splits)

lemma until_abort_not_stopped:
  "\<not> snd (until_abort f xs) \<Longrightarrow> x \<in> set xs \<Longrightarrow> \<not> snd (f x)"
  by (induction xs) (auto split: prod.splits if_splits)

lemma check_depend_dims_no_multiple:
  "Err_multiple_clauses p \<notin> set (check_depend_dims q ds)"
  by (induction ds) (auto split: option.splits)

lemma check_depend_dims_no_reduction:
  "e \<in> set (check_depend_dims q ds) \<Longrightarrow> \<not> is_reduction_type_error l p e"
  by (induction ds) (auto simp: is_reduction_type_error_def split: option.splits if_splits)

lemma check_linear_no_multiple:
  "Err_multiple_clauses p \<notin> set (check_linear ext code syms n)"
  by (simp add: check_linear_def Let_def split: option.splits prod.splits)

lemma check_list_switch_no_multiple:
  "Err_multiple_clauses p \<notin> set (fst (check_list_switch ext code syms l n))"
  by (cases l) (simp_all add: check_list_switch_def Let_def check_linear_no_multiple)

lemma check_default_no_multiple:
  "Err_multiple_clauses p \<notin> set (fst (check_default ext code syms l n))"
proof -
  obtain es ab where sw: "check_list_switch ext code syms l n = (es, ab)"
    by (cases "check_list_switch ext code syms l n")
  with check_list_switch_no_multiple [of p ext code syms l n]
  have "Err_multiple_clauses p \<notin> set es" by simp
  then show ?thesis by (simp add: check_default_def Let_def sw)
qed

lemma check_aligned_no_multiple:
  "Err_multiple_clauses p \<notin> set (check_aligned ext syms n)"
  by (simp add: check_aligned_def Let_def split: option.splits prod.splits)

lemma check_depend_no_multiple:
  "Err_multiple_clauses p \<notin> set (check_depend ext n)"
  by (simp add: check_depend_def Let_def check_depend_dims_no_multiple
      split: option.splits prod.splits list.splits gfc_ref.splits)

lemma check_entry_no_multiple:
  "Err_multiple_clauses p \<notin> set (fst (check_entry ext code syms l n))"
  by (simp add: check_entry_def check_copyin_def check_copyprivate_def check_shared_def
      check_aligned_no_multiple check_depend_no_multiple check_default_no_multiple Let_def)

lemma check_lists_no_multiple:
  "multiple_clause_errors p (fst (check_lists ext code syms c)) = 0"
proof (rule mce_absent, rule notI)
  assume "Err_multiple_clauses p \<in> set (fst (check_lists ext code syms c))"
  then obtain l where
    "Err_multiple_clauses p
       \<in> set (fst (until_abort (check_entry ext code syms l) (omp_lists c l)))"
    unfolding check_lists_def by (blast dest: until_abort_member)
  then obtain n where "Err_multiple_clauses p \<in> set (fst (check_entry ext code syms l n))"
    by (blast dest: until_abort_member)
  with check_entry_no_multiple show False by blast
qed

lemma resolve_multiple_reports:
  "multiple_reports ext cur syms code c ns p =
     multiple_clause_errors p (snd (check_multiple_clauses (code = None) ns cur c syms))"
proof -
  obtain s' es where m: "check_multiple_clauses (code = None) ns cur c syms = (s', es)"
    by (cases "check_multiple_clauses (code = None) ns cur c syms")
  obtain el ab where l: "check_lists ext code s' c = (el, ab)"
    by (cases "check_lists ext code s' c")
  have "multiple_clause_errors p el = 0"
    using check_lists_no_multiple [of p ext code s' c] l by simp
  then show ?thesis
    by (simp add: multiple_reports_def resolve_omp_clauses_def Let_def m l mce_append
        check_scalar_clause_no_multiple)
qed

lemma exempt_from_marking_iff:
  "exempt_from_marking l \<longleftrightarrow>
     l \<in> {OMP_LIST_FIRSTPRIVATE, OMP_LIST_LASTPRIVATE, OMP_LIST_ALIGNED,
          OMP_LIST_DEPEND_IN, OMP_LIST_DEPEND_OUT}"
  by (auto simp: exempt_from_marking_def)

lemma two_lists_one_report:
  assumes ne: "A \<noteq> B"
    and exA: "\<not> exempt_from_marking A" and exB: "\<not> exempt_from_marking B"
    and occA: "occurrences p (omp_lists c A) = 1"
    and occB: "occurrences p (omp_lists c B) = 1"
    and others: "\<forall>l. l \<noteq> A \<and> l \<noteq> B \<longrightarrow> occurrences p (omp_lists c l) = 0"
  shows "multiple_reports ext cur syms code c ns p = 1"
proof -
  obtain s' es where m: "check_multiple_clauses (code = None) ns cur c syms = (s', es)"
    by (cases "check_multiple_clauses (code = None) ns cur c syms")
  let ?marked = "filter (\<lambda>l. \<not> exempt_from_marking l) all_omp_lists"
  have "occurrences p (omp_lists c A) \<le> occ_lists p c all_omp_lists"
    by (rule occ_lists_member) (rule all_omp_lists_complete)
  with occA have k0: "occ_lists p c all_omp_lists \<noteq> 0" by simp
  have "occ_lists p c ?marked
          = occurrences p (omp_lists c A) + occurrences p (omp_lists c B)"
    using ne exA exB others
    by (intro occ_lists_two) (auto simp: all_omp_lists_distinct all_omp_lists_complete)
  with occA occB have k1: "occ_lists p c ?marked = 2" by simp
  have fp: "occurrences p (omp_lists c OMP_LIST_FIRSTPRIVATE) = 0"
    using exA exB others by (auto simp: exempt_from_marking_def)
  have lp: "occurrences p (omp_lists c OMP_LIST_LASTPRIVATE) = 0"
    using exA exB others by (auto simp: exempt_from_marking_def)
  have al: "occurrences p (omp_lists c OMP_LIST_ALIGNED) = 0"
    using exA exB others by (auto simp: exempt_from_marking_def)
  have "multiple_clause_errors p es = 1"
    using check_multiple_clauses_count [OF m, of p]
    by (simp add: Let_def k0 k1 fp lp al occ_lists_Cons occ_lists_Nil)
  then show ?thesis by (simp add: resolve_multiple_reports m)
qed

lemma first_and_last_private_no_report:
  assumes occF: "occurrences p (omp_lists c OMP_LIST_FIRSTPRIVATE) = 1"
    and occL: "occurrences p (omp_lists c OMP_LIST_LASTPRIVATE) = 1"
    and others: "\<forall>l. l \<noteq> OMP_LIST_FIRSTPRIVATE \<and> l \<noteq> OMP_LIST_LASTPRIVATE
                   \<longrightarrow> occurrences p (omp_lists c l) = 0"
  shows "multiple_reports ext cur syms code c ns p = 0"
proof -
  obtain s' es where m: "check_multiple_clauses (code = None) ns cur c syms = (s', es)"
    by (cases "check_multiple_clauses (code = None) ns cur c syms")
  let ?marked = "filter (\<lambda>l. \<not> exempt_from_marking l) all_omp_lists"
  have "occurrences p (omp_lists c OMP_LIST_FIRSTPRIVATE) \<le> occ_lists p c all_omp_lists"
    by (rule occ_lists_member) (rule all_omp_lists_complete)
  with occF have k0: "occ_lists p c all_omp_lists \<noteq> 0" by simp
  have k1: "occ_lists p c ?marked = 0"
    using others by (intro occ_lists_none) (auto simp: exempt_from_marking_def)
  have al: "occurrences p (omp_lists c OMP_LIST_ALIGNED) = 0"
    using others by simp
  have "multiple_clause_errors p es = 0"
    using check_multiple_clauses_count [OF m, of p]
    by (simp add: Let_def k0 k1 occF occL al occ_lists_Cons occ_lists_Nil)
  then show ?thesis by (simp add: resolve_multiple_reports m)
qed


subsection \<open>C1: a symbol on two list-classes\<close>

text \<open>
  C1.  Let the symbol \<open>p\<close> stand once on each of two list-classes and on no other.
  When neither class is one of firstprivate, lastprivate, aligned, depend-in and
  depend-out, validating the clause set reports "present on multiple clauses" for \<open>p\<close>
  exactly once.  When the two classes are firstprivate and lastprivate, it reports
  none.  In particular a symbol on private and shared is reported exactly once.
\<close>

theorem exclusivity_of_list_classes:
  "(A \<noteq> B
    \<and> A \<notin> {OMP_LIST_FIRSTPRIVATE, OMP_LIST_LASTPRIVATE, OMP_LIST_ALIGNED,
             OMP_LIST_DEPEND_IN, OMP_LIST_DEPEND_OUT}
    \<and> B \<notin> {OMP_LIST_FIRSTPRIVATE, OMP_LIST_LASTPRIVATE, OMP_LIST_ALIGNED,
             OMP_LIST_DEPEND_IN, OMP_LIST_DEPEND_OUT}
    \<and> occurrences p (omp_lists c A) = 1 \<and> occurrences p (omp_lists c B) = 1
    \<and> (\<forall>l. l \<noteq> A \<and> l \<noteq> B \<longrightarrow> occurrences p (omp_lists c l) = 0)
    \<longrightarrow> multiple_reports ext cur syms code c ns p = 1)
   \<and> (occurrences p (omp_lists c OMP_LIST_FIRSTPRIVATE) = 1
      \<and> occurrences p (omp_lists c OMP_LIST_LASTPRIVATE) = 1
      \<and> (\<forall>l. l \<noteq> OMP_LIST_FIRSTPRIVATE \<and> l \<noteq> OMP_LIST_LASTPRIVATE
               \<longrightarrow> occurrences p (omp_lists c l) = 0)
      \<longrightarrow> multiple_reports ext cur syms code c ns p = 0)
   \<and> (occurrences p (omp_lists c OMP_LIST_PRIVATE) = 1
      \<and> occurrences p (omp_lists c OMP_LIST_SHARED) = 1
      \<and> (\<forall>l. l \<noteq> OMP_LIST_PRIVATE \<and> l \<noteq> OMP_LIST_SHARED
               \<longrightarrow> occurrences p (omp_lists c l) = 0)
      \<longrightarrow> multiple_reports ext cur syms code c ns p = 1)"
proof (intro conjI impI)
  assume "A \<noteq> B
    \<and> A \<notin> {OMP_LIST_FIRSTPRIVATE, OMP_LIST_LASTPRIVATE, OMP_LIST_ALIGNED,
             OMP_LIST_DEPEND_IN, OMP_LIST_DEPEND_OUT}
    \<and> B \<notin> {OMP_LIST_FIRSTPRIVATE, OMP_LIST_LASTPRIVATE, OMP_LIST_ALIGNED,
             OMP_LIST_DEPEND_IN, OMP_LIST_DEPEND_OUT}
    \<and> occurrences p (omp_lists c A) = 1 \<and> occurrences p (omp_lists c B) = 1
    \<and> (\<forall>l. l \<noteq> A \<and> l \<noteq> B \<longrightarrow> occurrences p (omp_lists c l) = 0)"
  then show "multiple_reports ext cur syms code c ns p = 1"
    by (intro two_lists_one_report [of A B]) (simp_all add: exempt_from_marking_iff)
next
  assume "occurrences p (omp_lists c OMP_LIST_FIRSTPRIVATE) = 1
      \<and> occurrences p (omp_lists c OMP_LIST_LASTPRIVATE) = 1
      \<and> (\<forall>l. l \<noteq> OMP_LIST_FIRSTPRIVATE \<and> l \<noteq> OMP_LIST_LASTPRIVATE
               \<longrightarrow> occurrences p (omp_lists c l) = 0)"
  then show "multiple_reports ext cur syms code c ns p = 0"
    by (intro first_and_last_private_no_report) simp_all
next
  assume "occurrences p (omp_lists c OMP_LIST_PRIVATE) = 1
      \<and> occurrences p (omp_lists c OMP_LIST_SHARED) = 1
      \<and> (\<forall>l. l \<noteq> OMP_LIST_PRIVATE \<and> l \<noteq> OMP_LIST_SHARED
               \<longrightarrow> occurrences p (omp_lists c l) = 0)"
  then show "multiple_reports ext cur syms code c ns p = 1"
    by (intro two_lists_one_report [of OMP_LIST_PRIVATE OMP_LIST_SHARED])
       (simp_all add: exempt_from_marking_def)
qed



text \<open>
  \<open>private(x) shared(x)\<close> and \<open>firstprivate(x) lastprivate(x)\<close> for the plain
  integer variable at address 7.
\<close>

lemma ex_private_shared_lists:
  "omp_lists ex_private_shared l =
     (if l = OMP_LIST_PRIVATE \<or> l = OMP_LIST_SHARED then [\<lparr>nl_sym = 7, nl_expr = None\<rparr>] else [])"
  by (simp add: ex_private_shared_def clauses_with_def)

lemma ex_first_last_lists:
  "omp_lists ex_first_last l =
     (if l = OMP_LIST_FIRSTPRIVATE \<or> l = OMP_LIST_LASTPRIVATE
      then [\<lparr>nl_sym = 7, nl_expr = None\<rparr>] else [])"
  by (simp add: ex_first_last_def clauses_with_def)

theorem exclusivity_of_list_classes_witness:
  "multiple_reports ex_ext ex_ns ex_syms (Some EXEC_OMP_DIRECTIVE) ex_private_shared 0 7 = 1
   \<and> multiple_reports ex_ext ex_ns ex_syms (Some EXEC_OMP_DIRECTIVE) ex_first_last 0 7 = 0
   \<and> reported (resolve_omp_clauses ex_ext ex_ns ex_syms (Some EXEC_OMP_DIRECTIVE)
         (Some ex_private_shared) 0) = [Err_multiple_clauses 7]
   \<and> reported (resolve_omp_clauses ex_ext ex_ns ex_syms (Some EXEC_OMP_DIRECTIVE)
         (Some ex_first_last) 0) = []"
proof -
  have r1: "reported (resolve_omp_clauses ex_ext ex_ns ex_syms (Some EXEC_OMP_DIRECTIVE)
         (Some ex_private_shared) 0) = [Err_multiple_clauses 7]"
    by code_simp
  have r2: "reported (resolve_omp_clauses ex_ext ex_ns ex_syms (Some EXEC_OMP_DIRECTIVE)
         (Some ex_first_last) 0) = []"
    by code_simp
  have a: "occurrences 7 (omp_lists ex_private_shared OMP_LIST_PRIVATE) = 1
      \<and> occurrences 7 (omp_lists ex_private_shared OMP_LIST_SHARED) = 1
      \<and> (\<forall>l. l \<noteq> OMP_LIST_PRIVATE \<and> l \<noteq> OMP_LIST_SHARED
               \<longrightarrow> occurrences 7 (omp_lists ex_private_shared l) = 0)"
    by (simp add: ex_private_shared_lists occurrences_def)
  have b: "occurrences 7 (omp_lists ex_first_last OMP_LIST_FIRSTPRIVATE) = 1
      \<and> occurrences 7 (omp_lists ex_first_last OMP_LIST_LASTPRIVATE) = 1
      \<and> (\<forall>l. l \<noteq> OMP_LIST_FIRSTPRIVATE \<and> l \<noteq> OMP_LIST_LASTPRIVATE
               \<longrightarrow> occurrences 7 (omp_lists ex_first_last l) = 0)"
    by (simp add: ex_first_last_lists occurrences_def)
  from a b
    exclusivity_of_list_classes [of OMP_LIST_PRIVATE OMP_LIST_SHARED 7 ex_private_shared
      ex_ext ex_ns ex_syms "Some EXEC_OMP_DIRECTIVE" 0]
    exclusivity_of_list_classes [of OMP_LIST_PRIVATE OMP_LIST_SHARED 7 ex_first_last
      ex_ext ex_ns ex_syms "Some EXEC_OMP_DIRECTIVE" 0]
  have "multiple_reports ex_ext ex_ns ex_syms (Some EXEC_OMP_DIRECTIVE) ex_private_shared 0 7 = 1
   \<and> multiple_reports ex_ext ex_ns ex_syms (Some EXEC_OMP_DIRECTIVE) ex_first_last 0 7 = 0"
    by blast
  with r1 r2 show ?thesis by simp
qed

subsection \<open>The marking passes leave the types alone\<close>

lemma sym_ts_set_mark: "sym_ts (set_mark syms q b p) = sym_ts (syms p)"
  by (simp add: set_mark_def)

lemma mark_or_report_ts: "sym_ts (fst (mark_or_report syms ns) p) = sym_ts (syms p)"
  by (induction ns arbitrary: syms) (simp_all add: sym_ts_set_mark split_beta)

lemma report_and_unmark_ts: "sym_ts (fst (report_and_unmark syms ns) p) = sym_ts (syms p)"
  by (induction ns arbitrary: syms) (simp_all add: sym_ts_set_mark split_beta)

lemma unmark_ts: "sym_ts (unmark syms ns p) = sym_ts (syms p)"
  by (induction ns arbitrary: syms) (simp_all add: sym_ts_set_mark)

lemma clear_and_check_ts:
  "sym_ts (fst (clear_and_check code_null ns cur syms nl) p) = sym_ts (syms p)"
  by (induction nl arbitrary: syms) (simp_all add: sym_ts_set_mark Let_def split_beta)

lemma over_lists_ts:
  "(\<And>syms ns. sym_ts (fst (f syms ns) p) = sym_ts (syms p)) \<Longrightarrow>
     sym_ts (fst (over_lists f c syms ls) p) = sym_ts (syms p)"
proof (induction ls arbitrary: syms)
  case Nil
  then show ?case by simp
next
  case (Cons l ls)
  obtain s1 e1 where a: "f syms (omp_lists c l) = (s1, e1)" by (cases "f syms (omp_lists c l)")
  obtain s2 e2 where b: "over_lists f c s1 ls = (s2, e2)" by (cases "over_lists f c s1 ls")
  have "sym_ts (s1 p) = sym_ts (syms p)" using Cons.prems [of syms "omp_lists c l"] a by simp
  moreover have "sym_ts (s2 p) = sym_ts (s1 p)" using Cons.IH [OF Cons.prems, of s1] b by simp
  ultimately show ?case by (simp add: a b)
qed

lemma over_lists_clear_and_check_ts:
  "over_lists (clear_and_check code_null ns cur) c syms ls = (s', es) \<Longrightarrow>
     sym_ts (s' p) = sym_ts (syms p)"
  using over_lists_ts [of "clear_and_check code_null ns cur" p c syms ls]
  by (simp add: clear_and_check_ts)

lemma over_lists_mark_or_report_ts:
  "over_lists mark_or_report c syms ls = (s', es) \<Longrightarrow> sym_ts (s' p) = sym_ts (syms p)"
  using over_lists_ts [of mark_or_report p c syms ls] by (simp add: mark_or_report_ts)

lemma over_lists_report_and_unmark_ts:
  "over_lists report_and_unmark c syms ls = (s', es) \<Longrightarrow> sym_ts (s' p) = sym_ts (syms p)"
  using over_lists_ts [of report_and_unmark p c syms ls] by (simp add: report_and_unmark_ts)

lemma check_multiple_clauses_ts:
  "sym_ts (fst (check_multiple_clauses code_null ns cur c syms) p) = sym_ts (syms p)"
proof -
  obtain s0 e0 where p0:
    "over_lists (clear_and_check code_null ns cur) c syms all_omp_lists = (s0, e0)"
    by (cases "over_lists (clear_and_check code_null ns cur) c syms all_omp_lists")
  obtain s1 e1 where p1:
    "over_lists mark_or_report c s0 (filter (\<lambda>l. \<not> exempt_from_marking l) all_omp_lists)
       = (s1, e1)"
    by (cases "over_lists mark_or_report c s0
                 (filter (\<lambda>l. \<not> exempt_from_marking l) all_omp_lists)")
  obtain s2 e2 where p2:
    "over_lists report_and_unmark c s1 [OMP_LIST_FIRSTPRIVATE, OMP_LIST_LASTPRIVATE] = (s2, e2)"
    by (cases "over_lists report_and_unmark c s1 [OMP_LIST_FIRSTPRIVATE, OMP_LIST_LASTPRIVATE]")
  obtain s3 e3 where p3: "mark_or_report s2 (omp_lists c OMP_LIST_FIRSTPRIVATE) = (s3, e3)"
    by (cases "mark_or_report s2 (omp_lists c OMP_LIST_FIRSTPRIVATE)")
  define s4 where "s4 = unmark s3 (omp_lists c OMP_LIST_LASTPRIVATE)"
  obtain s5 e5 where p5: "mark_or_report s4 (omp_lists c OMP_LIST_LASTPRIVATE) = (s5, e5)"
    by (cases "mark_or_report s4 (omp_lists c OMP_LIST_LASTPRIVATE)")
  define s6 where "s6 = unmark s5 (omp_lists c OMP_LIST_ALIGNED)"
  obtain s7 e7 where p7: "mark_or_report s6 (omp_lists c OMP_LIST_ALIGNED) = (s7, e7)"
    by (cases "mark_or_report s6 (omp_lists c OMP_LIST_ALIGNED)")
  have res: "fst (check_multiple_clauses code_null ns cur c syms) = s7"
    using p0 p1 p2 p3 p5 p7
    by (simp add: check_multiple_clauses_def s4_def [symmetric] s6_def [symmetric])
  have "sym_ts (s0 p) = sym_ts (syms p)"
    by (rule over_lists_clear_and_check_ts [OF p0])
  moreover have "sym_ts (s1 p) = sym_ts (s0 p)"
    by (rule over_lists_mark_or_report_ts [OF p1])
  moreover have "sym_ts (s2 p) = sym_ts (s1 p)"
    by (rule over_lists_report_and_unmark_ts [OF p2])
  moreover have "sym_ts (s3 p) = sym_ts (s2 p)"
    using mark_or_report_ts [of s2 "omp_lists c OMP_LIST_FIRSTPRIVATE" p] p3 by simp
  moreover have "sym_ts (s4 p) = sym_ts (s3 p)" by (simp add: s4_def unmark_ts)
  moreover have "sym_ts (s5 p) = sym_ts (s4 p)"
    using mark_or_report_ts [of s4 "omp_lists c OMP_LIST_LASTPRIVATE" p] p5 by simp
  moreover have "sym_ts (s6 p) = sym_ts (s5 p)" by (simp add: s6_def unmark_ts)
  moreover have "sym_ts (s7 p) = sym_ts (s6 p)"
    using mark_or_report_ts [of s6 "omp_lists c OMP_LIST_ALIGNED" p] p7 by simp
  ultimately show ?thesis by (simp add: res)
qed

lemma is_reduction_list_iff:
  "is_reduction_list l \<longleftrightarrow>
     l \<in> {OMP_LIST_PLUS, OMP_LIST_MULT, OMP_LIST_SUB, OMP_LIST_AND, OMP_LIST_OR, OMP_LIST_EQV,
          OMP_LIST_NEQV, OMP_LIST_MAX, OMP_LIST_MIN, OMP_LIST_IAND, OMP_LIST_IOR, OMP_LIST_IEOR}"
  by (cases l)
     (simp_all add: is_reduction_list_def OMP_LIST_REDUCTION_FIRST_def OMP_LIST_REDUCTION_LAST_def)

lemma check_linear_no_reduction:
  "e \<in> set (check_linear ext code syms n) \<Longrightarrow> \<not> is_reduction_type_error l p e"
  by (auto simp: check_linear_def Let_def is_reduction_type_error_def
      split: option.splits prod.splits if_splits)

lemma check_list_switch_reduction_error:
  "e \<in> set (fst (check_list_switch ext code syms l' n')) \<Longrightarrow> is_reduction_type_error l p e \<Longrightarrow>
     l' = l \<and> nl_sym n' = p \<and> \<not> spec_reduction_type_ok l (sym_ts (syms p))"
  by (cases l')
     (auto simp: check_list_switch_def Let_def is_reduction_type_error_def gfc_numeric_ts_def
        spec_reduction_type_ok_def dest: check_linear_no_reduction split: if_splits)

lemma check_list_switch_reduction_violation:
  "is_reduction_list l \<Longrightarrow> \<not> spec_reduction_type_ok l (sym_ts (syms (nl_sym n))) \<Longrightarrow>
     \<exists>e\<in>set (fst (check_list_switch ext code syms l n)). is_reduction_type_error l (nl_sym n) e"
  by (cases l)
     (simp_all add: is_reduction_list_iff check_list_switch_def Let_def
        is_reduction_type_error_def gfc_numeric_ts_def spec_reduction_type_ok_def)

lemma check_default_reduction_error:
  assumes "e \<in> set (fst (check_default ext code syms l' n'))"
    and "is_reduction_type_error l p e"
  shows "l' = l \<and> nl_sym n' = p \<and> \<not> spec_reduction_type_ok l (sym_ts (syms p))"
proof -
  obtain es ab where sw: "check_list_switch ext code syms l' n' = (es, ab)"
    by (cases "check_list_switch ext code syms l' n'")
  from assms have "e \<in> set es"
    by (auto simp: check_default_def Let_def sw is_reduction_type_error_def split: if_splits)
  with sw check_list_switch_reduction_error [of e ext code syms l' n' l p] assms(2)
  show ?thesis by simp
qed

lemma check_aligned_no_reduction:
  "e \<in> set (check_aligned ext syms n) \<Longrightarrow> \<not> is_reduction_type_error l p e"
  by (auto simp: check_aligned_def Let_def is_reduction_type_error_def
      split: option.splits prod.splits if_splits)

lemma check_depend_no_reduction:
  "e \<in> set (check_depend ext n) \<Longrightarrow> \<not> is_reduction_type_error l p e"
  by (auto simp: check_depend_def Let_def is_reduction_type_error_def
      dest: check_depend_dims_no_reduction
      split: option.splits prod.splits if_splits list.splits gfc_ref.splits)

lemma check_entry_default:
  "l \<noteq> OMP_LIST_COPYIN \<Longrightarrow> l \<noteq> OMP_LIST_COPYPRIVATE \<Longrightarrow> l \<noteq> OMP_LIST_SHARED \<Longrightarrow>
   l \<noteq> OMP_LIST_ALIGNED \<Longrightarrow> l \<noteq> OMP_LIST_DEPEND_IN \<Longrightarrow> l \<noteq> OMP_LIST_DEPEND_OUT \<Longrightarrow>
     check_entry ext code syms l n = check_default ext code syms l n"
  by (simp add: check_entry_def)

lemma check_entry_reduction_error:
  assumes "e \<in> set (fst (check_entry ext code syms l' n'))"
    and "is_reduction_type_error l p e"
  shows "l' = l \<and> nl_sym n' = p \<and> \<not> spec_reduction_type_ok l (sym_ts (syms p))"
proof -
  consider "l' = OMP_LIST_COPYIN" | "l' = OMP_LIST_COPYPRIVATE" | "l' = OMP_LIST_SHARED"
    | "l' = OMP_LIST_ALIGNED" | "l' = OMP_LIST_DEPEND_IN \<or> l' = OMP_LIST_DEPEND_OUT"
    | "check_entry ext code syms l' n' = check_default ext code syms l' n'"
    using check_entry_default [of l' ext code syms n'] by blast
  then show ?thesis
  proof cases
    case 1
    with assms show ?thesis
      by (auto simp: check_entry_def check_copyin_def Let_def is_reduction_type_error_def
          split: if_splits)
  next
    case 2
    with assms show ?thesis
      by (auto simp: check_entry_def check_copyprivate_def Let_def is_reduction_type_error_def
          split: if_splits)
  next
    case 3
    with assms show ?thesis
      by (auto simp: check_entry_def check_shared_def Let_def is_reduction_type_error_def
          split: if_splits)
  next
    case 4
    with assms check_aligned_no_reduction [of e ext syms n' l p] show ?thesis
      by (simp add: check_entry_def)
  next
    case 5
    with assms check_depend_no_reduction [of e ext n' l p] show ?thesis
      by (auto simp: check_entry_def)
  next
    case 6
    with assms check_default_reduction_error [of e ext code syms l' n' l p] show ?thesis
      by simp
  qed
qed

lemma check_entry_reduction_violation:
  assumes red: "is_reduction_list l"
    and bad: "\<not> spec_reduction_type_ok l (sym_ts (syms (nl_sym n)))"
  shows "\<exists>e\<in>set (fst (check_entry ext code syms l n)). is_reduction_type_error l (nl_sym n) e"
proof -
  obtain es ab where sw: "check_list_switch ext code syms l n = (es, ab)"
    by (cases "check_list_switch ext code syms l n")
  from check_list_switch_reduction_violation [of l syms n ext code, OF red bad] sw
  obtain e where e: "e \<in> set es" "is_reduction_type_error l (nl_sym n) e" by auto
  from red have "check_entry ext code syms l n = check_default ext code syms l n"
    by (auto simp: check_entry_def is_reduction_list_iff)
  moreover from e have "e \<in> set (fst (check_default ext code syms l n))"
    by (simp add: check_default_def Let_def sw)
  ultimately show ?thesis using e by auto
qed

lemma check_is_variable_no_reduction:
  "e \<in> set (check_is_variable code_null ns cur syms q) \<Longrightarrow> \<not> is_reduction_type_error l p e"
  by (auto simp: check_is_variable_def Let_def is_reduction_type_error_def split: if_splits)

lemma clear_and_check_no_reduction:
  "e \<in> set (snd (clear_and_check code_null ns cur syms nl)) \<Longrightarrow>
     \<not> is_reduction_type_error l p e"
  by (induction nl arbitrary: syms)
     (auto simp: Let_def split_beta dest: check_is_variable_no_reduction)

lemma mark_or_report_no_reduction:
  "e \<in> set (snd (mark_or_report syms nl)) \<Longrightarrow> \<not> is_reduction_type_error l p e"
  by (induction nl arbitrary: syms)
     (auto simp: split_beta is_reduction_type_error_def split: if_splits)

lemma report_and_unmark_no_reduction:
  "e \<in> set (snd (report_and_unmark syms nl)) \<Longrightarrow> \<not> is_reduction_type_error l p e"
  by (induction nl arbitrary: syms)
     (auto simp: split_beta is_reduction_type_error_def split: if_splits)

lemma over_lists_no_reduction:
  "(\<And>syms nl e. e \<in> set (snd (f syms nl)) \<Longrightarrow> \<not> is_reduction_type_error l p e) \<Longrightarrow>
     e \<in> set (snd (over_lists f c syms ls)) \<Longrightarrow> \<not> is_reduction_type_error l p e"
proof (induction ls arbitrary: syms)
  case Nil
  then show ?case by simp
next
  case (Cons a ls)
  obtain s1 e1 where a: "f syms (omp_lists c a) = (s1, e1)" by (cases "f syms (omp_lists c a)")
  obtain s2 e2 where b: "over_lists f c s1 ls = (s2, e2)" by (cases "over_lists f c s1 ls")
  from Cons.prems(2) a b have "e \<in> set e1 \<or> e \<in> set e2" by simp
  then show ?case
  proof
    assume "e \<in> set e1"
    with Cons.prems(1) [where syms = syms and nl = "omp_lists c a" and e = e] a
    show ?thesis by simp
  next
    assume "e \<in> set e2"
    with Cons.IH [OF Cons.prems(1), where syms = s1] b show ?thesis by simp
  qed
qed

lemma check_multiple_clauses_no_reduction:
  assumes "e \<in> set (snd (check_multiple_clauses code_null ns cur c syms))"
  shows "\<not> is_reduction_type_error l p e"
proof -
  obtain s0 e0 where p0:
    "over_lists (clear_and_check code_null ns cur) c syms all_omp_lists = (s0, e0)"
    by (cases "over_lists (clear_and_check code_null ns cur) c syms all_omp_lists")
  obtain s1 e1 where p1:
    "over_lists mark_or_report c s0 (filter (\<lambda>l. \<not> exempt_from_marking l) all_omp_lists)
       = (s1, e1)"
    by (cases "over_lists mark_or_report c s0
                 (filter (\<lambda>l. \<not> exempt_from_marking l) all_omp_lists)")
  obtain s2 e2 where p2:
    "over_lists report_and_unmark c s1 [OMP_LIST_FIRSTPRIVATE, OMP_LIST_LASTPRIVATE] = (s2, e2)"
    by (cases "over_lists report_and_unmark c s1 [OMP_LIST_FIRSTPRIVATE, OMP_LIST_LASTPRIVATE]")
  obtain s3 e3 where p3: "mark_or_report s2 (omp_lists c OMP_LIST_FIRSTPRIVATE) = (s3, e3)"
    by (cases "mark_or_report s2 (omp_lists c OMP_LIST_FIRSTPRIVATE)")
  define s4 where "s4 = unmark s3 (omp_lists c OMP_LIST_LASTPRIVATE)"
  obtain s5 e5 where p5: "mark_or_report s4 (omp_lists c OMP_LIST_LASTPRIVATE) = (s5, e5)"
    by (cases "mark_or_report s4 (omp_lists c OMP_LIST_LASTPRIVATE)")
  define s6 where "s6 = unmark s5 (omp_lists c OMP_LIST_ALIGNED)"
  obtain s7 e7 where p7: "mark_or_report s6 (omp_lists c OMP_LIST_ALIGNED) = (s7, e7)"
    by (cases "mark_or_report s6 (omp_lists c OMP_LIST_ALIGNED)")
  have res: "snd (check_multiple_clauses code_null ns cur c syms) = e0 @ e1 @ e2 @ e3 @ e5 @ e7"
    using p0 p1 p2 p3 p5 p7
    by (simp add: check_multiple_clauses_def s4_def [symmetric] s6_def [symmetric])
  have n0: "e \<in> set e0 \<Longrightarrow> ?thesis"
    using over_lists_no_reduction
      [of "clear_and_check code_null ns cur" l p e c syms all_omp_lists] p0
    by (auto dest: clear_and_check_no_reduction)
  have n1: "e \<in> set e1 \<Longrightarrow> ?thesis"
    using over_lists_no_reduction [of mark_or_report l p e c s0
      "filter (\<lambda>l. \<not> exempt_from_marking l) all_omp_lists"] p1
    by (auto dest: mark_or_report_no_reduction)
  have n2: "e \<in> set e2 \<Longrightarrow> ?thesis"
    using over_lists_no_reduction [of report_and_unmark l p e c s1
      "[OMP_LIST_FIRSTPRIVATE, OMP_LIST_LASTPRIVATE]"] p2
    by (auto dest: report_and_unmark_no_reduction)
  have n3: "e \<in> set e3 \<Longrightarrow> ?thesis"
    using mark_or_report_no_reduction [of e s2 "omp_lists c OMP_LIST_FIRSTPRIVATE" l p] p3
    by simp
  have n5: "e \<in> set e5 \<Longrightarrow> ?thesis"
    using mark_or_report_no_reduction [of e s4 "omp_lists c OMP_LIST_LASTPRIVATE" l p] p5
    by simp
  have n7: "e \<in> set e7 \<Longrightarrow> ?thesis"
    using mark_or_report_no_reduction [of e s6 "omp_lists c OMP_LIST_ALIGNED" l p] p7
    by simp
  from assms res n0 n1 n2 n3 n5 n7 show ?thesis by auto
qed

lemma check_scalar_clause_no_reduction:
  "(\<And>w. \<not> is_reduction_type_error l p (err w)) \<Longrightarrow>
     e \<in> set (check_scalar_clause ext t err x) \<Longrightarrow> \<not> is_reduction_type_error l p e"
  by (cases x) (auto simp: check_scalar_clause_def split: if_splits)


subsection \<open>C2: the type of a reduction variable\<close>

text \<open>
  C2.  When validation of a clause set runs to its end, then for every entry of a
  reduction list-class \<open>l\<close> a type error for that class and that symbol is among the
  reported errors if and only if the type of the symbol does not meet the requirement
  of the operator: numeric for \<open>+\<close>, \<open>*\<close> and \<open>-\<close>, logical for \<open>.and.\<close>, \<open>.or.\<close>,
  \<open>.eqv.\<close> and \<open>.neqv.\<close>, integer or real for \<open>max\<close> and \<open>min\<close>, integer for \<open>iand\<close>,
  \<open>ior\<close> and \<open>ieor\<close>.
\<close>

theorem reduction_type_check:
  assumes run: "\<not> stopped (resolve_omp_clauses ext cur syms code (Some c) ns)"
    and red: "is_reduction_list l"
    and mem: "n \<in> set (omp_lists c l)"
  shows "(\<exists>e\<in>set (reported (resolve_omp_clauses ext cur syms code (Some c) ns)).
            is_reduction_type_error l (nl_sym n) e)
         \<longleftrightarrow> \<not> spec_reduction_type_ok l (sym_ts (syms (nl_sym n)))"
proof -
  obtain s' em where m: "check_multiple_clauses (code = None) ns cur c syms = (s', em)"
    by (cases "check_multiple_clauses (code = None) ns cur c syms")
  obtain el ab where cl: "check_lists ext code s' c = (el, ab)"
    by (cases "check_lists ext code s' c")
  from run have ab: "\<not> ab"
    by (auto simp: resolve_omp_clauses_def Let_def m cl split: if_splits)
  have ts: "sym_ts (s' q) = sym_ts (syms q)" for q
    using check_multiple_clauses_ts [of "code = None" ns cur c syms q] m by simp
  have marks: "e \<in> set em \<Longrightarrow> \<not> is_reduction_type_error l (nl_sym n) e" for e
    using check_multiple_clauses_no_reduction [of e "code = None" ns cur c syms l "nl_sym n"] m
    by simp
  have rep: "(\<exists>e\<in>set (reported (resolve_omp_clauses ext cur syms code (Some c) ns)).
                is_reduction_type_error l (nl_sym n) e)
             \<longleftrightarrow> (\<exists>e\<in>set el. is_reduction_type_error l (nl_sym n) e)"
    using ab marks
    by (auto simp: resolve_omp_clauses_def Let_def m cl is_reduction_type_error_def
        dest!: check_scalar_clause_no_reduction [rotated])
  show ?thesis
  proof
    assume "\<exists>e\<in>set (reported (resolve_omp_clauses ext cur syms code (Some c) ns)).
              is_reduction_type_error l (nl_sym n) e"
    with rep obtain e where e: "e \<in> set el" "is_reduction_type_error l (nl_sym n) e" by auto
    from e(1) cl have
      "e \<in> set (fst (until_abort
          (\<lambda>l. until_abort (check_entry ext code s' l) (omp_lists c l)) all_omp_lists))"
      by (simp add: check_lists_def)
    then obtain l' where
      "e \<in> set (fst (until_abort (check_entry ext code s' l') (omp_lists c l')))"
      by (blast dest: until_abort_member)
    then obtain n' where "e \<in> set (fst (check_entry ext code s' l' n'))"
      by (blast dest: until_abort_member)
    from check_entry_reduction_error [OF this e(2)] ts
    show "\<not> spec_reduction_type_ok l (sym_ts (syms (nl_sym n)))" by simp
  next
    assume "\<not> spec_reduction_type_ok l (sym_ts (syms (nl_sym n)))"
    with ts have "\<not> spec_reduction_type_ok l (sym_ts (s' (nl_sym n)))" by simp
    from check_entry_reduction_violation [of l s' n ext code, OF red this]
    obtain e where e: "e \<in> set (fst (check_entry ext code s' l n))"
      "is_reduction_type_error l (nl_sym n) e" by auto
    let ?inner = "\<lambda>l. until_abort (check_entry ext code s' l) (omp_lists c l)"
    from ab cl have outer: "\<not> snd (until_abort ?inner all_omp_lists)"
      by (simp add: check_lists_def)
    then have "\<not> snd (?inner l)"
      by (rule until_abort_not_stopped) (rule all_omp_lists_complete)
    then have "e \<in> set (fst (?inner l))"
      using mem e(1) by (rule until_abort_all)
    with outer have "e \<in> set (fst (until_abort ?inner all_omp_lists))"
      by (intro until_abort_all [of ?inner all_omp_lists l]) (simp_all add: all_omp_lists_complete)
    with cl have "e \<in> set el" by (simp add: check_lists_def)
    with rep e(2) show "\<exists>e\<in>set (reported (resolve_omp_clauses ext cur syms code (Some c) ns)).
              is_reduction_type_error l (nl_sym n) e" by auto
  qed
qed

text \<open>
  \<open>reduction(+:l)\<close> with the logical variable at address 3 reports the type error and
  nothing else; \<open>reduction(.and.:l)\<close> reports nothing.
\<close>

theorem reduction_type_check_witness:
  "reported (resolve_omp_clauses ex_ext ex_ns ex_syms (Some EXEC_OMP_DIRECTIVE)
      (Some ex_reduction_plus) 0) = [Err_reduction_numeric OMP_LIST_PLUS ''+'' 3]
   \<and> reported (resolve_omp_clauses ex_ext ex_ns ex_syms (Some EXEC_OMP_DIRECTIVE)
      (Some ex_reduction_and) 0) = []
   \<and> \<not> spec_reduction_type_ok OMP_LIST_PLUS (sym_ts (ex_syms 3))
   \<and> spec_reduction_type_ok OMP_LIST_AND (sym_ts (ex_syms 3))"
proof -
  let ?n = "\<lparr>nl_sym = 3, nl_expr = None\<rparr>"
  have run: "\<not> stopped (resolve_omp_clauses ex_ext ex_ns ex_syms (Some EXEC_OMP_DIRECTIVE)
      (Some ex_reduction_plus) 0)"
    by code_simp
  have run': "\<not> stopped (resolve_omp_clauses ex_ext ex_ns ex_syms (Some EXEC_OMP_DIRECTIVE)
      (Some ex_reduction_and) 0)"
    by code_simp
  have rep: "reported (resolve_omp_clauses ex_ext ex_ns ex_syms (Some EXEC_OMP_DIRECTIVE)
      (Some ex_reduction_plus) 0) = [Err_reduction_numeric OMP_LIST_PLUS ''+'' 3]"
    by code_simp
  have rep': "reported (resolve_omp_clauses ex_ext ex_ns ex_syms (Some EXEC_OMP_DIRECTIVE)
      (Some ex_reduction_and) 0) = []"
    by code_simp
  have red: "is_reduction_list OMP_LIST_PLUS" "is_reduction_list OMP_LIST_AND"
    by (simp_all add: is_reduction_list_iff)
  have mem: "?n \<in> set (omp_lists ex_reduction_plus OMP_LIST_PLUS)"
    by (simp add: ex_reduction_plus_def clauses_with_def)
  have mem': "?n \<in> set (omp_lists ex_reduction_and OMP_LIST_AND)"
    by (simp add: ex_reduction_and_def clauses_with_def)
  from reduction_type_check [OF run red(1) mem] rep
  have "\<not> spec_reduction_type_ok OMP_LIST_PLUS (sym_ts (ex_syms 3))"
    by (simp add: is_reduction_type_error_def)
  moreover from reduction_type_check [OF run' red(2) mem'] rep'
  have "spec_reduction_type_ok OMP_LIST_AND (sym_ts (ex_syms 3))"
    by simp
  ultimately show ?thesis using rep rep' by simp
qed

subsection \<open>C5: where the num_gangs clause goes\<close>

lemma make_gang_single_region_routed:
  "routed loc g P (make_gang_single_region loc stmts P)"
  by (simp add: routed_def make_gang_single_region_def Let_def unshare_expr_def)

lemma make_gang_parallel_loop_region_routed:
  "routed loc g P (make_gang_parallel_loop_region omp_for stmt (Some g) P)"
  by (simp add: routed_def make_gang_parallel_loop_region_def transform_kernels_loop_clauses_def
      Let_def unshare_expr_def)

lemma decompose_stmts_routed:
  "\<forall>r\<in>set region_body. routed loc g P r \<Longrightarrow>
   \<forall>r\<in>set (fst (decompose_stmts loc (Some g) P stmts (region_body, gss, osa))).
      routed loc g P r"
proof (induction stmts arbitrary: region_body gss osa)
  case Nil
  then show ?case by simp
next
  case (Cons stmt rest)
  show ?case
  proof (cases "top_level_omp_for_in_stmt stmt")
    case None
    with Cons.IH [OF Cons.prems] show ?thesis by simp
  next
    case (Some omp_for)
    let ?rb = "(if gss \<noteq> [] \<and> \<not> osa then region_body @ [make_gang_single_region loc gss P]
                else region_body)"
    let ?stmt = "(if gss \<noteq> [] \<and> osa then gimple_build_bind [] (gss @ [stmt]) else stmt)"
    have "\<forall>r\<in>set (?rb @ [make_gang_parallel_loop_region omp_for ?stmt (Some g) P]).
            routed loc g P r"
      using Cons.prems
      by (auto simp: make_gang_single_region_routed make_gang_parallel_loop_region_routed)
    from Cons.IH [OF this] Some show ?thesis by (simp add: Let_def)
  qed
qed

lemma build_region_body_routed:
  "\<forall>r\<in>set (build_region_body loc (Some g) P body_sequence). routed loc g P r"
proof -
  obtain rb gss osa where d:
    "decompose_stmts loc (Some g) P body_sequence ([], [], True) = (rb, gss, osa)"
    by (cases "decompose_stmts loc (Some g) P body_sequence ([], [], True)")
  have "\<forall>r\<in>set rb. routed loc g P r"
    using decompose_stmts_routed [of "[]" loc g P body_sequence "[]" True] d by simp
  then show ?thesis
    by (auto simp: build_region_body_def d Let_def make_gang_single_region_routed)
qed


lemma add_present_clauses_shape:
  "\<exists>present. add_present_clauses loc vars cs = present @ cs
      \<and> (\<forall>c\<in>set present. clause_code c = OMP_CLAUSE_MAP)"
proof (induction vars arbitrary: cs)
  case Nil
  show ?case by simp
next
  case (Cons v vars)
  show ?case
  proof (cases "\<not> decl_artificial v \<and> decl_code v \<noteq> CONST_DECL")
    case True
    let ?c = "(build_omp_clause loc OMP_CLAUSE_MAP)
                \<lparr>clause_map_kind := GOMP_MAP_FORCE_PRESENT, clause_operand := Some (DECL v),
                 clause_size := Some (SIZE_OF (decl_size_unit v))\<rparr>"
    from Cons.IH [of "?c # cs"] obtain present where
      p: "add_present_clauses loc vars (?c # cs) = present @ ?c # cs"
         "\<forall>c\<in>set present. clause_code c = OMP_CLAUSE_MAP" by blast
    have "add_present_clauses loc (v # vars) cs = (present @ [?c]) @ cs"
      using True p(1) by simp
    moreover have "\<forall>c\<in>set (present @ [?c]). clause_code c = OMP_CLAUSE_MAP"
      using p(2) by (simp add: build_omp_clause_def)
    ultimately show ?thesis by blast
  next
    case False
    with Cons.IH [of cs] show ?thesis by auto
  qed
qed


lemma routed_child_region: "routed loc g P r \<Longrightarrow> child_regions_of r = [r]"
  by (cases r) (auto simp: routed_def)

lemma child_regions_of_routed_list:
  "\<forall>r\<in>set rs. routed loc g P r \<Longrightarrow> concat (map child_regions_of rs) = rs"
  by (induction rs) (auto dest: routed_child_region)

lemma child_regions_of_bind_location:
  "child_regions_of (gimple_set_location (GIMPLE_BIND l v b) loc)
     = child_regions_of (GIMPLE_BIND l v b)"
  by simp

lemma child_regions_of_inner_data_region:
  "child_regions_of (maybe_build_inner_data_region in_template loc (GIMPLE_BIND l v b) vars cleanup)
     = child_regions_of (GIMPLE_BIND l v b)"
  by (simp add: maybe_build_inner_data_region_def Let_def split_beta gimple_build_bind_def
        make_data_region_try_statement_def)

lemma inner_data_region_is_bind:
  "\<exists>l' v' b'. maybe_build_inner_data_region in_template loc (GIMPLE_BIND l v b) vars cleanup
      = GIMPLE_BIND l' v' b'"
  by (simp add: maybe_build_inner_data_region_def Let_def split_beta gimple_build_bind_def)

lemma build_region_body_not_empty:
  "build_region_body loc num_gangs_clause P body_sequence \<noteq> []"
  by (auto simp: build_region_body_def Let_def split_beta)

lemma decompose_result:
  assumes run: "decompose_kernels_region_body in_template kernels_region kernels_clauses
                  = Some result"
    and sep: "separate_num_gangs kernels_clauses = (Some g, chain)"
  shows "child_regions kernels_region kernels_clauses = Some (child_regions_of result)
       \<and> (\<exists>l v b. result = GIMPLE_BIND l v b)
       \<and> child_regions_of result \<noteq> []
       \<and> (\<exists>loc P. \<forall>r\<in>set (child_regions_of result). routed loc g P r)"
proof -
  from run obtain loc k cl kernels_body where kr:
    "kernels_region = GIMPLE_OMP_TARGET loc k cl (Some kernels_body)"
    by (auto simp: decompose_kernels_region_body_def split: gimple.splits option.splits)
  from run kr obtain inner_bind_vars bl kernels_locals body_sequence regions where
    fl: "flatten_binds kernels_body False
           = Some (inner_bind_vars, GIMPLE_BIND bl kernels_locals body_sequence)"
    and cr: "child_regions kernels_region kernels_clauses = Some regions"
    and res: "result = maybe_build_inner_data_region in_template loc
                (gimple_build_bind kernels_locals regions) inner_bind_vars
                (fst (open_leading_try body_sequence))"
    by (auto simp: decompose_kernels_region_body_def Let_def split_beta
          split: gimple.splits option.splits prod.splits)
  obtain present where pr:
    "add_present_clauses loc inner_bind_vars chain = present @ chain"
    using add_present_clauses_shape [of loc inner_bind_vars chain] by blast
  have regions: "regions = build_region_body loc (Some g) (present @ chain)
                             (snd (open_leading_try body_sequence))"
    using cr by (simp add: child_regions_def kr fl sep pr split_beta)
  have routed: "\<forall>r\<in>set regions. routed loc g (present @ chain) r"
    unfolding regions by (rule build_region_body_routed)
  then have "concat (map child_regions_of regions) = regions"
    by (rule child_regions_of_routed_list)
  then have same: "child_regions_of result = regions"
    by (simp add: res gimple_build_bind_def child_regions_of_inner_data_region)
  moreover have "\<exists>l v b. result = GIMPLE_BIND l v b"
    unfolding res gimple_build_bind_def by (rule inner_data_region_is_bind)
  moreover have "regions \<noteq> []"
    unfolding regions by (rule build_region_body_not_empty)
  moreover from routed same
  have "\<exists>loc P. \<forall>r\<in>set (child_regions_of result). routed loc g P r" by auto
  ultimately show ?thesis using cr by simp
qed



text \<open>
  The same for \<open>transform_kernels_region\<close>, which reads the chain from the region:
  the clauses it turns into \<open>present\<close> clauses are map clauses, so the first \<open>num_gangs\<close>
  clause of the region is the one that is cut out.
\<close>

lemma collect_data_clauses_num_gangs:
  "separate_num_gangs cl = (Some g, chain) \<Longrightarrow>
   separate_num_gangs (snd (collect_data_clauses cl)) = (Some g, snd (collect_data_clauses chain))"
proof (induction cl arbitrary: chain)
  case Nil
  then show ?case by simp
next
  case (Cons c cl)
  show ?case
  proof (cases "clause_code c = OMP_CLAUSE_NUM_GANGS")
    case True
    with Cons.prems show ?thesis
      by (simp add: split_beta Let_def copy_to_data_region_def)
  next
    case False
    obtain n ch where r: "separate_num_gangs cl = (n, ch)" by (cases "separate_num_gangs cl")
    with False Cons.prems have eq: "n = Some g" "chain = c # ch" by simp_all
    from Cons.IH [of ch] r eq
    have ih: "separate_num_gangs (snd (collect_data_clauses cl))
                = (Some g, snd (collect_data_clauses ch))" by simp
    show ?thesis using False ih eq
      by (simp add: split_beta Let_def unshare_expr_def)
  qed
qed

lemma transform_kernels_region_routing:
  assumes kr: "kernels_region = GIMPLE_OMP_TARGET loc k kernels_clauses b"
    and sep: "separate_num_gangs kernels_clauses = (Some g, chain)"
    and run: "transform_kernels_region in_template kernels_region = Some result"
  shows "child_regions_of result \<noteq> []
       \<and> (\<forall>r\<in>set (child_regions_of result).
             (target_kind r = Some GF_OMP_TARGET_KIND_OACC_PARALLEL_KERNELS_GANG_SINGLE
              \<and> (\<exists>c. hd (target_clauses r) = c
                      \<and> clause_code c = OMP_CLAUSE_NUM_GANGS
                      \<and> clause_operand c = Some (INTEGER_CST 1)))
             \<or> (target_kind r = Some GF_OMP_TARGET_KIND_OACC_PARALLEL_KERNELS_PARALLELIZED
                 \<and> hd (target_clauses r) = g))"
proof -
  let ?kc = "snd (collect_data_clauses kernels_clauses)"
  from run kr obtain body where
    dec: "decompose_kernels_region_body in_template kernels_region ?kc = Some body"
    and res: "result = GIMPLE_OMP_TARGET loc GF_OMP_TARGET_KIND_OACC_DATA_KERNELS
                (fst (collect_data_clauses kernels_clauses))
                (Some (make_data_region_try_statement loc body))"
    by (auto simp: transform_kernels_region_def split_beta Let_def
          split: gf_omp_target_kind.splits option.splits)
  note sep' = collect_data_clauses_num_gangs [OF sep]
  from decompose_result [OF dec sep'] obtain l v bb loc' P where
    bind: "body = GIMPLE_BIND l v bb"
    and ne: "child_regions_of body \<noteq> []"
    and routed: "\<forall>r\<in>set (child_regions_of body). routed loc' g P r"
    by blast
  have same: "child_regions_of result = child_regions_of body"
    by (simp add: res make_data_region_try_statement_def bind)
  from routed ne show ?thesis
    unfolding same by (auto simp: routed_def build_omp_clause_def integer_one_node_def)
qed

subsection \<open>The atomic resolver: shapes and their diagnostics\<close>

text \<open>Leaving a node out of the search can only lose references.\<close>

lemma expr_references_sym_skip:
  "expr_references_sym e s (Some ad) \<Longrightarrow> expr_references_sym e s None"
  by (induction e s "Some ad" rule: expr_references_sym.induct)
     (fastforce simp: list_ex_iff split: if_splits gfc_value.splits option.splits list.splits
        gfc_ref.splits)

lemma is_conversion_op [simp]:
  "is_conversion ext (Gfc_expr h r (V_op o1 a b)) w = None"
  by (simp add: is_conversion_def)

lemma choose_expr2_op [simp]:
  "choose_expr2 ext (Gfc_expr h r (V_op o1 a b)) w = (Gfc_expr h r (V_op o1 a b), True)"
  by (simp add: choose_expr2_def)

lemma is_var_references: "is_var e x \<Longrightarrow> expr_references_sym e x None"
  by (cases e; cases "e_val e") (auto simp: is_var_def)

lemma conversion_of_var_references:
  "is_conversion ext e w = Some c \<Longrightarrow> is_var c x \<Longrightarrow> expr_references_sym e x None"
  by (cases e)
     (auto simp: is_conversion_def Let_def list_ex_iff dest: is_var_references
        split: gfc_value.splits option.splits list.splits gfc_isym_id.splits if_splits)

lemma scan_actual_args_returned:
  "scan_actual_args var f va args = Some (errs, True, va') \<Longrightarrow> errs \<noteq> []"
  by (induction var f va args rule: scan_actual_args.induct)
     (auto simp: Let_def split: if_splits)

lemma check_expr_scalar_no_var_returned:
  "check_expr_scalar_no_var errs code var e v loc = (errs', True, c) \<Longrightarrow> errs' \<noteq> []"
  by (auto simp: check_expr_scalar_no_var_def split: if_splits)

lemma resolve_atomic_op_returned:
  "resolve_atomic_op ext var code e2 is_rhs = Some (errs, True, c) \<Longrightarrow> errs \<noteq> []"
  by (auto simp: resolve_atomic_op_def Let_def dest: check_expr_scalar_no_var_returned
        split: gfc_expr.splits gfc_value.splits option.splits if_splits var_search.splits)

lemma resolve_atomic_intrinsic_returned:
  "resolve_atomic_intrinsic var code e2 is_rhs = Some (errs, True, c) \<Longrightarrow> errs \<noteq> []"
  by (auto simp: resolve_atomic_intrinsic_def Let_def dest: scan_actual_args_returned
        split: gfc_expr.splits gfc_value.splits option.splits if_splits prod.splits)

lemma resolve_atomic_shape_returned:
  "resolve_atomic_shape ext var code e2 is_rhs = Some (errs, True, c) \<Longrightarrow> errs \<noteq> []"
  by (auto simp: resolve_atomic_shape_def
        dest: resolve_atomic_op_returned resolve_atomic_intrinsic_returned
        split: gfc_value.splits option.splits list.splits)

text \<open>A shape that passes without a diagnostic is an operator or one of the five
  intrinsics: no variable and no conversion.\<close>

lemma resolve_atomic_shape_clean:
  assumes "resolve_atomic_shape ext var code e2 is_rhs = Some ([], r, c)"
  shows "expr_type e2 \<noteq> EXPR_VARIABLE \<and> is_conversion ext e2 w = None"
  using assms
  by (cases e2)
     (auto simp: resolve_atomic_shape_def resolve_atomic_intrinsic_def is_conversion_def
        split: gfc_value.splits option.splits list.splits if_splits)

lemma choose_expr2_is_rhs:
  "choose_expr2 ext rhs w = (e2, True) \<Longrightarrow> e2 = rhs"
  by (auto simp: choose_expr2_def split: option.splits if_splits)

lemma capture_expr2_tmp_clean:
  assumes ch: "choose_expr2 ext rhs False = (e2, is_rhs)"
    and sh: "resolve_atomic_shape ext var code e2 is_rhs = Some ([], r, c)"
  shows "expr_type (capture_expr2_tmp ext rhs) \<noteq> EXPR_VARIABLE"
proof (cases is_rhs)
  case True
  with ch have "e2 = rhs" by (simp add: choose_expr2_is_rhs)
  with resolve_atomic_shape_clean [OF sh, of True] resolve_atomic_shape_clean [OF sh, of False]
  show ?thesis using ch True by (simp add: capture_expr2_tmp_def)
next
  case False
  with resolve_atomic_shape_clean [OF sh, of True] ch
  show ?thesis by (simp add: capture_expr2_tmp_def)
qed

lemma resolve_atomic_update_clean:
  assumes "resolve_atomic_update ext syms GFC_OMP_ATOMIC_UPDATE var code None e2 is_rhs
             = Some ([], code', sw)"
  shows "\<not> allocatable (attr (syms var)) \<and> \<not> sw
       \<and> resolve_atomic_shape ext var code e2 is_rhs = Some ([], False, code')"
  using assms
  by (auto simp: resolve_atomic_update_def dest: resolve_atomic_shape_returned
        split: if_splits option.splits prod.splits)

lemma capture_behind_update:
  assumes kind: "omp_atomic a = GFC_OMP_ATOMIC_CAPTURE"
    and blk: "block a = [s1, s2]"
    and asg: "c_op s2 = EXEC_ASSIGN"
    and var: "symtree (hdr (expr1 s1)) = Some var"
    and upd: "resolve_omp_atomic ext syms (a\<lparr>omp_atomic := GFC_OMP_ATOMIC_UPDATE, block := [s1]\<rparr>)
                = Some ([], u)"
  shows "resolve_omp_atomic ext syms a
           = Some (check_capture_statement ext var s2,
                   u\<lparr>omp_atomic := GFC_OMP_ATOMIC_CAPTURE, block := block u @ [s2]\<rparr>)
         \<and> swap u = swap a"
proof -
  obtain e2 is_rhs where ch: "choose_expr2 ext (expr2 s1) False = (e2, is_rhs)"
    by (cases "choose_expr2 ext (expr2 s1) False")
  from upd var ch have s1: "c_op s1 = EXEC_ASSIGN" "scalar_intrinsic_variable (expr1 s1)"
    by (auto simp: resolve_omp_atomic_def atomic_block_ok_def Let_def split: if_splits)
  from upd var ch s1 obtain code' sw where
    ru: "resolve_atomic_update ext syms GFC_OMP_ATOMIC_UPDATE var s1 None e2 is_rhs
           = Some ([], code', sw)"
    and u: "u = a\<lparr>omp_atomic := GFC_OMP_ATOMIC_UPDATE, block := [code'], swap := swap a \<or> sw\<rparr>"
    by (auto simp: resolve_omp_atomic_def atomic_block_ok_def Let_def
          split: option.splits)
  from resolve_atomic_update_clean [OF ru]
  have nal: "\<not> allocatable (attr (syms var))" and sw: "\<not> sw"
    and sh: "resolve_atomic_shape ext var s1 e2 is_rhs = Some ([], False, code')"
    by simp_all
  from capture_expr2_tmp_clean [OF ch sh]
  have nv: "expr_type (capture_expr2_tmp ext (expr2 s1)) \<noteq> EXPR_VARIABLE" .
  have "resolve_atomic_update ext syms GFC_OMP_ATOMIC_CAPTURE var s1 (Some s2) e2 is_rhs
          = Some (check_capture_statement ext var s2, code', False)"
    using nal sh by (simp add: resolve_atomic_update_def)
  then show ?thesis
    using kind blk asg var s1 ch nv u sw
    by (simp add: resolve_omp_atomic_def atomic_block_ok_def Let_def)
qed

subsection \<open>C3: an update with a minus on its right-hand side\<close>

text \<open>
  The update \<open>x = a - x\<close> comes back as it went in: the right operand of the minus is
  \<open>x\<close>, so the first test of the operator branch finds the variable, nothing is rotated
  and nothing is reported.
\<close>

theorem minus_update_counterexample:
  "resolve_omp_atomic ex_ext ex_syms ex_x_eq_a_minus_x = Some ([], ex_x_eq_a_minus_x)"
  by code_simp

text \<open>
  C3, amended.  An update \<open>x = expr - x\<close> or \<open>x = x - expr\<close>, where \<open>x\<close> stands as a scalar
  operand of the minus and the other operand does not reference \<open>x\<close>, is left as it is
  written: the statement is not rewritten and no diagnostic about mathematical
  equivalence is given.  Nothing at all is reported when \<open>x\<close> is a scalar variable of
  intrinsic type that is not allocatable; a left-hand side that is no scalar variable of
  intrinsic type is reported, and so is, behind that test, an allocatable \<open>x\<close>: one error
  each time.
\<close>

theorem minus_update_kept_as_written:
  assumes blk: "block a = [s]" and kind: "omp_atomic a = GFC_OMP_ATOMIC_UPDATE"
    and asg: "c_op s = EXEC_ASSIGN"
    and lhs: "is_var (expr1 s) x"
    and rhs: "expr2 s = Gfc_expr h r (V_op INTRINSIC_MINUS l (Some rt))"
    and shape: "(is_var rt x \<and> e_rank (hdr rt) = 0 \<and> \<not> expr_references_sym l x None)
              \<or> (is_var l x \<and> e_rank (hdr l) = 0 \<and> \<not> expr_references_sym rt x None)"
  shows "resolve_omp_atomic ext syms a
           = Some (if \<not> scalar_intrinsic_variable (expr1 s)
                   then [Err_atomic_must_set_scalar (c_loc s)]
                   else if allocatable (attr (syms x))
                   then [Err_atomic_allocatable (c_loc s)]
                   else [], a)"
proof -
  from lhs have st: "symtree (hdr (expr1 s)) = Some x" by (simp add: is_var_def)
  have ok: "atomic_block_ok GFC_OMP_ATOMIC_UPDATE [s]"
    using asg by (simp add: atomic_block_ok_def)
  show ?thesis
  proof (cases "scalar_intrinsic_variable (expr1 s)")
    case False
    then show ?thesis
      using blk kind ok st by (simp add: resolve_omp_atomic_def Let_def)
  next
    case scalar: True
    show ?thesis
    proof (cases "allocatable (attr (syms x))")
      case True
      then have "resolve_atomic_update ext syms GFC_OMP_ATOMIC_UPDATE x s None (expr2 s) True
                   = Some ([Err_atomic_allocatable (c_loc s)], s, False)"
        by (simp add: resolve_atomic_update_def)
      then show ?thesis
        using blk kind ok st scalar True rhs
        by (simp add: resolve_omp_atomic_def Let_def)
    next
      case nal: False
      have op: "resolve_atomic_op ext x s (expr2 s) True = Some ([], False, s)"
        using shape
      proof
        assume h1: "is_var rt x \<and> e_rank (hdr rt) = 0 \<and> \<not> expr_references_sym l x None"
        then have nol: "\<not> expr_references_sym l x (Some (e_addr (hdr rt)))"
          by (blast dest: expr_references_sym_skip)
        have chk: "check_expr_scalar_no_var [] s x rt rt (e_where h) = ([], False, s)"
          using h1 nol rhs by (cases rt) (simp add: check_expr_scalar_no_var_def)
        show ?thesis using h1 by (simp add: resolve_atomic_op_def rhs chk)
      next
        assume h2: "is_var l x \<and> e_rank (hdr l) = 0 \<and> \<not> expr_references_sym rt x None"
        then have nor: "\<not> expr_references_sym rt x (Some (e_addr (hdr l)))"
          by (blast dest: expr_references_sym_skip)
        from h2 have nv: "\<not> is_var rt x" by (blast dest: is_var_references)
        from h2 have nc:
          "\<not> (case is_conversion ext rt True of None \<Rightarrow> False | Some c \<Rightarrow> is_var c x)"
          by (auto dest: conversion_of_var_references split: option.splits)
        have fnd: "find_var_in_op1 ext INTRINSIC_MINUS INTRINSIC_PLUS x l = Found_direct l"
          using h2 by (cases l) simp
        have chk: "check_expr_scalar_no_var [] s x l l (e_where h) = ([], False, s)"
          using h2 nor rhs by (cases l) (simp add: check_expr_scalar_no_var_def)
        show ?thesis using nv nc by (simp add: resolve_atomic_op_def rhs fnd chk)
      qed
      then have "resolve_atomic_shape ext x s (expr2 s) True = Some ([], False, s)"
        by (simp add: resolve_atomic_shape_def rhs)
      then have "resolve_atomic_update ext syms GFC_OMP_ATOMIC_UPDATE x s None (expr2 s) True
                   = Some ([], s, False)"
        using nal by (simp add: resolve_atomic_update_def)
      then show ?thesis
        using blk kind ok st scalar nal rhs
        by (simp add: resolve_omp_atomic_def Let_def)
    qed
  qed
qed

text \<open>\<open>x = a - x\<close>, \<open>x = x - a\<close>, and \<open>a = x - a\<close> for an allocatable \<open>a\<close>.\<close>

theorem minus_update_kept_witness:
  "resolve_omp_atomic ex_ext ex_syms ex_x_eq_a_minus_x = Some ([], ex_x_eq_a_minus_x)
   \<and> resolve_omp_atomic ex_ext ex_syms ex_x_eq_x_minus_a = Some ([], ex_x_eq_x_minus_a)
   \<and> resolve_omp_atomic ex_ext ex_syms ex_alloc_minus
       = Some ([Err_atomic_allocatable 50], ex_alloc_minus)"
proof -
  let ?h = "\<lparr>e_addr = 52, e_ts = plain_ts BT_INTEGER, e_rank = 0, symtree = None, e_where = 52\<rparr>"
  let ?s = "\<lambda>x l r. ex_assign 50 (ex_var 51 x) (ex_binop 52 INTRINSIC_MINUS l r)"
  have blk: "block ex_x_eq_a_minus_x = [?s 7 (ex_var 53 8) (ex_var 54 7)]"
    "block ex_x_eq_x_minus_a = [?s 7 (ex_var 53 7) (ex_var 54 8)]"
    "block ex_alloc_minus = [?s 2 (ex_var 53 8) (ex_var 54 2)]"
    by (simp_all add: ex_x_eq_a_minus_x_def ex_x_eq_x_minus_a_def ex_alloc_minus_def
          ex_atomic_def)
  have kind: "omp_atomic ex_x_eq_a_minus_x = GFC_OMP_ATOMIC_UPDATE"
    "omp_atomic ex_x_eq_x_minus_a = GFC_OMP_ATOMIC_UPDATE"
    "omp_atomic ex_alloc_minus = GFC_OMP_ATOMIC_UPDATE"
    by (simp_all add: ex_x_eq_a_minus_x_def ex_x_eq_x_minus_a_def ex_alloc_minus_def
          ex_atomic_def)
  have asg: "c_op (?s x l r) = EXEC_ASSIGN" for x l r by (simp add: ex_assign_def)
  have lhs: "is_var (expr1 (?s x l r)) x" for x l r
    by (simp add: is_var_def ex_assign_def ex_var_def)
  have scalar: "scalar_intrinsic_variable (expr1 (?s x l r))" for x l r
    by (simp add: scalar_intrinsic_variable_def ex_assign_def ex_var_def intrinsic_type_def
          plain_ts_def)
  have loc: "c_loc (?s x l r) = 50" for x l r by (simp add: ex_assign_def)
  have al: "\<not> allocatable (attr (ex_syms 7))" "allocatable (attr (ex_syms 2))" by code_simp+
  have rhs: "expr2 (?s x l r) = Gfc_expr ?h [] (V_op INTRINSIC_MINUS l (Some r))" for x l r
    by (simp add: ex_assign_def ex_binop_def)
  have ops: "is_var (ex_var 54 7) 7 \<and> e_rank (hdr (ex_var 54 7)) = 0
               \<and> \<not> expr_references_sym (ex_var 53 8) 7 None"
    "is_var (ex_var 53 7) 7 \<and> e_rank (hdr (ex_var 53 7)) = 0
               \<and> \<not> expr_references_sym (ex_var 54 8) 7 None"
    "is_var (ex_var 54 2) 2 \<and> e_rank (hdr (ex_var 54 2)) = 0
               \<and> \<not> expr_references_sym (ex_var 53 8) 2 None"
    by (simp_all add: is_var_def ex_var_def)
  from minus_update_kept_as_written [where ext = ex_ext and syms = ex_syms and x = 7,
      OF blk(1) kind(1) asg lhs rhs disjI1 [OF ops(1)]]
  have "resolve_omp_atomic ex_ext ex_syms ex_x_eq_a_minus_x = Some ([], ex_x_eq_a_minus_x)"
    using scalar al by simp
  moreover
  from minus_update_kept_as_written [where ext = ex_ext and syms = ex_syms and x = 7,
      OF blk(2) kind(2) asg lhs rhs disjI2 [OF ops(2)]]
  have "resolve_omp_atomic ex_ext ex_syms ex_x_eq_x_minus_a = Some ([], ex_x_eq_x_minus_a)"
    using scalar al by simp
  moreover
  from minus_update_kept_as_written [where ext = ex_ext and syms = ex_syms and x = 2,
      OF blk(3) kind(3) asg lhs rhs disjI1 [OF ops(3)]]
  have "resolve_omp_atomic ex_ext ex_syms ex_alloc_minus
       = Some ([Err_atomic_allocatable 50], ex_alloc_minus)"
    using scalar al loc by simp
  ultimately show ?thesis by simp
qed

text \<open>
  The rewriting into \<open>var = var op (expr)\<close> is for a variable deeper in the left spine:
  \<open>x = (x - a) - b\<close> becomes \<open>x = x - (a - b)\<close> and is reported as not mathematically
  equivalent.
\<close>

lemma minus_spine_is_canonicalised:
  "map_option fst (resolve_omp_atomic ex_ext ex_syms ex_x_eq_x_minus_a_minus_b)
    = Some [Err_atomic_not_mathematically_equivalent 52]"
  by code_simp

subsection \<open>C4: the capture statement behind an update\<close>

text \<open>
  C4.  A capture directive of two statements whose first statement, taken alone as an
  update of \<open>var\<close>, resolves without a diagnostic.  When the second statement reads a
  variable other than \<open>var\<close>, exactly one error is reported (for a well-shaped second
  statement it is the one about the different variable) and it is the last thing the
  resolver does.  When the second statement sets a scalar variable of intrinsic type
  from \<open>var\<close>, nothing is reported and the directive is still a capture, its swap flag
  untouched.
\<close>

theorem capture_statement_behind_update:
  assumes kind: "omp_atomic a = GFC_OMP_ATOMIC_CAPTURE"
    and blk: "block a = [s1, s2]"
    and asg: "c_op s2 = EXEC_ASSIGN"
    and var: "symtree (hdr (expr1 s1)) = Some var"
    and upd: "resolve_omp_atomic ext syms (a\<lparr>omp_atomic := GFC_OMP_ATOMIC_UPDATE, block := [s1]\<rparr>)
                = Some ([], u)"
    and src: "r = fst (choose_expr2 ext (expr2 s2) True)"
  shows "(is_var r y \<and> y \<noteq> var
            \<longrightarrow> (\<exists>e a'. resolve_omp_atomic ext syms a = Some ([e], a')
                   \<and> (scalar_intrinsic_variable (expr1 s2) \<and> scalar_intrinsic_variable r
                        \<longrightarrow> e = Err_capture_different_variable (e_where (hdr r)))))
       \<and> (scalar_intrinsic_variable (expr1 s2) \<and> scalar_intrinsic_variable r \<and> is_var r var
            \<longrightarrow> (\<exists>a'. resolve_omp_atomic ext syms a = Some ([], a')
                   \<and> omp_atomic a' = GFC_OMP_ATOMIC_CAPTURE \<and> swap a' = swap a
                   \<and> block a' = block u @ [s2]))"
  using capture_behind_update [OF kind blk asg var upd] src
  by (auto simp: check_capture_statement_def split_beta is_var_def)

text \<open>\<open>x = x + a; v = x\<close> resolves; \<open>x = x + a; v = a\<close> reports the different variable.\<close>

theorem capture_statement_behind_update_witness:
  "map_option fst (resolve_omp_atomic ex_ext ex_syms ex_capture) = Some []
   \<and> map_option (omp_atomic \<circ> snd) (resolve_omp_atomic ex_ext ex_syms ex_capture)
       = Some GFC_OMP_ATOMIC_CAPTURE
   \<and> map_option fst (resolve_omp_atomic ex_ext ex_syms ex_capture_other)
       = Some [Err_capture_different_variable 62]"
proof -
  let ?s1 = "ex_assign 50 (ex_var 51 7) (ex_binop 52 INTRINSIC_PLUS (ex_var 53 7) (ex_var 54 8))"
  let ?u = "ex_atomic GFC_OMP_ATOMIC_UPDATE [?s1]"
  have kind: "omp_atomic ex_capture = GFC_OMP_ATOMIC_CAPTURE"
    "omp_atomic ex_capture_other = GFC_OMP_ATOMIC_CAPTURE"
    by (simp_all add: ex_capture_def ex_capture_other_def ex_atomic_def)
  have blk: "block ex_capture = [?s1, ex_assign 60 (ex_var 61 9) (ex_var 62 7)]"
    "block ex_capture_other = [?s1, ex_assign 60 (ex_var 61 9) (ex_var 62 8)]"
    by (simp_all add: ex_capture_def ex_capture_other_def ex_atomic_def)
  have asg: "c_op (ex_assign 60 (ex_var 61 9) (ex_var 62 y)) = EXEC_ASSIGN" for y
    by (simp add: ex_assign_def)
  have var: "symtree (hdr (expr1 ?s1)) = Some 7"
    by (simp add: ex_assign_def ex_var_def)
  have upd: "resolve_omp_atomic ex_ext ex_syms
               (ex_capture\<lparr>omp_atomic := GFC_OMP_ATOMIC_UPDATE, block := [?s1]\<rparr>) = Some ([], ?u)"
    "resolve_omp_atomic ex_ext ex_syms
               (ex_capture_other\<lparr>omp_atomic := GFC_OMP_ATOMIC_UPDATE, block := [?s1]\<rparr>)
       = Some ([], ?u)"
    by code_simp+
  have src: "ex_var 62 y = fst (choose_expr2 ex_ext (expr2 (ex_assign 60 (ex_var 61 9) (ex_var 62 y))) True)"
    for y
    by (simp add: choose_expr2_def is_conversion_def ex_assign_def ex_var_def)
  have shape: "scalar_intrinsic_variable (expr1 (ex_assign 60 (ex_var 61 9) (ex_var 62 y)))"
    "scalar_intrinsic_variable (ex_var 62 y)" "is_var (ex_var 62 y) y" for y
    by (simp_all add: scalar_intrinsic_variable_def is_var_def ex_assign_def ex_var_def
          intrinsic_type_def plain_ts_def)
  from capture_statement_behind_update [OF kind(1) blk(1) asg var upd(1) src, of 7]
  have "\<exists>a'. resolve_omp_atomic ex_ext ex_syms ex_capture = Some ([], a')
          \<and> omp_atomic a' = GFC_OMP_ATOMIC_CAPTURE"
    using shape [of 7] by blast
  moreover
  from capture_statement_behind_update [OF kind(2) blk(2) asg var upd(2) src, of 8]
  have "\<exists>a'. resolve_omp_atomic ex_ext ex_syms ex_capture_other
          = Some ([Err_capture_different_variable 62], a')"
    using shape [of 8] by (auto simp: ex_var_def)
  ultimately show ?thesis by auto
qed

subsection \<open>C7: allocatable variables\<close>

lemma resolve_atomic_update_allocatable:
  "allocatable (attr (syms x)) \<Longrightarrow>
   resolve_atomic_update ext syms aop x code next e2 is_rhs
     = Some ([Err_atomic_allocatable (c_loc code)], code, False)"
  by (simp add: resolve_atomic_update_def)

lemma resolve_capture_then_update_allocatable:
  assumes nx: "next = [upd]" and ux: "symtree (hdr (expr1 upd)) = Some x"
    and al: "allocatable (attr (syms x))"
  shows "\<exists>errs a'. resolve_capture_then_update ext syms a var code next = Some (errs, a')
           \<and> errs \<noteq> []"
proof (cases "\<not> scalar_intrinsic_variable (capture_expr2_tmp ext (expr2 code))
               \<or> symtree (hdr (capture_expr2_tmp ext (expr2 code))) = Some var")
  case True
  then show ?thesis by (simp add: resolve_capture_then_update_def Let_def)
next
  case False
  then obtain v where v: "symtree (hdr (capture_expr2_tmp ext (expr2 code))) = Some v"
    by (auto simp: scalar_intrinsic_variable_def)
  show ?thesis
  proof (cases "scalar_intrinsic_variable (expr1 upd) \<and> v = x")
    case True
    then show ?thesis
      using False v nx ux al
      by (simp add: resolve_capture_then_update_def Let_def split_beta
            resolve_atomic_update_allocatable)
  next
    case nok: False
    then show ?thesis
      using False v nx ux
      by (auto simp: resolve_capture_then_update_def Let_def)
  qed
qed

lemma read_write_ignore_symbols:
  assumes "omp_atomic a = GFC_OMP_ATOMIC_READ \<or> omp_atomic a = GFC_OMP_ATOMIC_WRITE"
  shows "resolve_omp_atomic ext syms a = resolve_omp_atomic ext syms' a"
proof (cases "block a")
  case Nil
  then show ?thesis by (simp add: resolve_omp_atomic_def Let_def)
next
  case (Cons code rest)
  then show ?thesis
    using assms
    by (cases "symtree (hdr (expr1 code))")
       (auto simp: resolve_omp_atomic_def Let_def split_beta)
qed

text \<open>
  The write \<open>a = x\<close> and the read \<open>a = x\<close> into the allocatable variable at 2 are
  resolved without a diagnostic: both cases of the switch return before the test of the
  attribute.
\<close>

theorem allocatable_write_counterexample:
  "allocatable (attr (ex_syms 2))
   \<and> updated_variable ex_ext ex_write_alloc = Some 2
   \<and> resolve_omp_atomic ex_ext ex_syms ex_write_alloc = Some ([], ex_write_alloc)
   \<and> updated_variable ex_ext ex_read_alloc = Some 2
   \<and> resolve_omp_atomic ex_ext ex_syms ex_read_alloc = Some ([], ex_read_alloc)"
  by code_simp

text \<open>
  C7, amended.  An update or capture directive whose updated variable is allocatable is
  reported.  For a read or a write directive the resolver does not look at the symbols
  at all: its outcome is the same under every symbol heap.
\<close>

theorem allocatable_rejected_for_update_and_capture:
  assumes ok: "atomic_block_ok (omp_atomic a) (block a)"
    and upd: "updated_variable ext a = Some x"
    and al: "allocatable (attr (syms x))"
  shows "(omp_atomic a = GFC_OMP_ATOMIC_UPDATE \<or> omp_atomic a = GFC_OMP_ATOMIC_CAPTURE
            \<longrightarrow> (\<exists>errs a'. resolve_omp_atomic ext syms a = Some (errs, a') \<and> errs \<noteq> []))
       \<and> (omp_atomic a = GFC_OMP_ATOMIC_READ \<or> omp_atomic a = GFC_OMP_ATOMIC_WRITE
            \<longrightarrow> resolve_omp_atomic ext syms a = resolve_omp_atomic ext syms' a)"
proof (intro conjI impI)
  assume kind: "omp_atomic a = GFC_OMP_ATOMIC_UPDATE \<or> omp_atomic a = GFC_OMP_ATOMIC_CAPTURE"
  from ok obtain code "next" where blk: "block a = code # next"
    by (cases "block a") (simp_all add: atomic_block_ok_def)
  show "\<exists>errs a'. resolve_omp_atomic ext syms a = Some (errs, a') \<and> errs \<noteq> []"
  proof (cases "omp_atomic a = GFC_OMP_ATOMIC_CAPTURE
                 \<and> expr_type (capture_expr2_tmp ext (expr2 code)) = EXPR_VARIABLE")
    case True
    with ok blk obtain u where nx: "next = [u]"
      by (auto simp: atomic_block_ok_def split: list.splits)
    with upd blk True have ux: "symtree (hdr (expr1 u)) = Some x"
      by (simp add: updated_variable_def update_statement_def)
    from resolve_capture_then_update_allocatable [where syms = syms, OF nx ux al]
    have "\<And>v. \<exists>errs a'. resolve_capture_then_update ext syms a v code next = Some (errs, a')
           \<and> errs \<noteq> []" .
    then show ?thesis
      using ok blk True
      by (auto simp: resolve_omp_atomic_def Let_def split: option.splits prod.splits)
  next
    case False
    with upd blk have cx: "symtree (hdr (expr1 code)) = Some x"
      by (auto simp: updated_variable_def update_statement_def split: if_splits)
    show ?thesis
      using ok blk False kind cx al
      by (auto simp: resolve_omp_atomic_def Let_def resolve_atomic_update_allocatable
            split: prod.splits)
  qed
next
  assume "omp_atomic a = GFC_OMP_ATOMIC_READ \<or> omp_atomic a = GFC_OMP_ATOMIC_WRITE"
  then show "resolve_omp_atomic ext syms a = resolve_omp_atomic ext syms' a"
    by (rule read_write_ignore_symbols)
qed

text \<open>The update \<open>a = a + x\<close> of the allocatable variable at 2.\<close>

theorem allocatable_rejected_witness:
  "atomic_block_ok (omp_atomic ex_update_alloc) (block ex_update_alloc)
   \<and> updated_variable ex_ext ex_update_alloc = Some 2
   \<and> allocatable (attr (ex_syms 2))
   \<and> omp_atomic ex_update_alloc = GFC_OMP_ATOMIC_UPDATE
   \<and> (\<exists>errs a'. resolve_omp_atomic ex_ext ex_syms ex_update_alloc = Some (errs, a') \<and> errs \<noteq> [])"
proof -
  have 1: "atomic_block_ok (omp_atomic ex_update_alloc) (block ex_update_alloc)" by code_simp
  have 2: "updated_variable ex_ext ex_update_alloc = Some 2" by code_simp
  have 3: "allocatable (attr (ex_syms 2))" by code_simp
  have 4: "omp_atomic ex_update_alloc = GFC_OMP_ATOMIC_UPDATE" by code_simp
  from allocatable_rejected_for_update_and_capture [of ex_update_alloc ex_ext 2 ex_syms, OF 1 2 3] 4
  show ?thesis using 1 2 3 by blast
qed

subsection \<open>The entries of a variable list\<close>

text \<open>
  A variable list that is read without common blocks has an entry, and one that is read
  without array sections has no expression in any entry.
\<close>

lemma match_list_item_entries:
  assumes "match_list_item env allow_common allow_sections st = Item_entries ps st1"
  shows "(\<not> allow_common \<longrightarrow> ps \<noteq> [])
       \<and> (\<not> allow_sections \<longrightarrow> (\<forall>n\<in>set ps. nl_expr n = None))"
  using assms
  by (auto simp: match_list_item_def Let_def gfc_get_omp_namelist_def
        split: prod.splits match.splits if_splits option.splits)

lemma variable_list_loop_entries:
  assumes run: "variable_list_loop env allow_common with_end_colon allow_sections old_loc head st
             = Some y"
  shows "fst y = MATCH_YES \<longrightarrow>
           (\<not> allow_common \<longrightarrow> fst (snd y) \<noteq> [])
         \<and> (\<not> allow_sections \<and> (\<forall>n\<in>set head. nl_expr n = None)
              \<longrightarrow> (\<forall>n\<in>set (fst (snd y)). nl_expr n = None))"
proof (rule variable_list_loop.raw_induct
    [where P = "\<lambda>env allow_common with_end_colon allow_sections old_loc head st y.
       fst y = MATCH_YES \<longrightarrow>
           (\<not> allow_common \<longrightarrow> fst (snd y) \<noteq> [])
         \<and> (\<not> allow_sections \<and> (\<forall>n\<in>set head. nl_expr n = None)
              \<longrightarrow> (\<forall>n\<in>set (fst (snd y)). nl_expr n = None))", OF _ run], goal_cases)
  case (1 loop env allow_common with_end_colon allow_sections old_loc head st y)
  show ?case
  proof (cases "match_list_item env allow_common allow_sections st")
    case (Item_entries ps st1)
    note ps = match_list_item_entries [OF Item_entries]
    show ?thesis
    proof (cases "next_item env with_end_colon st1")
      case (Ends_at_colon st2)
      with 1(2) Item_entries ps show ?thesis by auto
    next
      case (Ends_at_paren st2)
      with 1(2) Item_entries ps show ?thesis by auto
    next
      case (Goes_on st2)
      with 1(2) Item_entries
      have "loop env allow_common with_end_colon allow_sections old_loc (head @ ps) st2 = Some y"
        by simp
      from 1(1) [OF this] ps show ?thesis by auto
    next
      case (No_separator st2)
      with 1(2) Item_entries show ?thesis by (auto simp: list_syntax_def list_cleanup_def)
    qed
  next
    case (Item_syntax st1)
    with 1(2) show ?thesis by (auto simp: list_syntax_def list_cleanup_def)
  next
    case (Item_cleanup st1)
    with 1(2) show ?thesis by (auto simp: list_cleanup_def)
  qed
qed

lemma variable_list_result:
  assumes "gfc_match_omp_variable_list env str lst allow_common with_end_colon allow_sections st
             = Some (MATCH_YES, lst', head, end_colon, st')"
  shows "lst' = lst @ head
       \<and> (\<not> allow_common \<longrightarrow> head \<noteq> [])
       \<and> (\<not> allow_sections \<longrightarrow> (\<forall>n\<in>set head. nl_expr n = None))"
proof -
  from assms obtain st1 where
    loop: "variable_list_loop env allow_common with_end_colon allow_sections
             (gfc_current_locus st) [] st1 = Some (MATCH_YES, head, end_colon, st')"
    and lst': "lst' = lst @ head"
    by (auto simp: gfc_match_omp_variable_list_def Let_def
          split: prod.splits match.splits option.splits)
  from variable_list_loop_entries [OF loop] lst' show ?thesis by simp
qed



text \<open>Unfolding the matchers of the clause texts.\<close>

lemmas ex_eval = ex_matchers_def ex_tok_def ex_advance_def ex_at_def ex_entry_def
  gfc_match_omp_variable_list_def variable_list_loop.simps match_list_item_def next_item_def
  gfc_get_omp_namelist_def Let_def gfc_get_omp_clauses_def list_syntax_def list_cleanup_def

subsection \<open>C6: the expression behind the colon of \<open>aligned\<close> and \<open>linear\<close>\<close>




lemma parse_aligned:
  "parsed_list OMP_LIST_ALIGNED (ex_parse ex_aligned)
     = Some [\<lparr>nl_sym = 11, nl_expr = Some (gfc_copy_expr (ex_matchers []) (ex_const 70 8))\<rparr>,
             \<lparr>nl_sym = 12, nl_expr = Some (ex_const 70 8)\<rparr>]"
  by code_simp

subsection \<open>C8: the list-classes of \<open>depend\<close>\<close>

lemma match_list_clause_yes:
  assumes "allowed msk b"
    and "gfc_match_omp_variable_list env str (omp_lists c l) allow_common False allow_sections st
           = Some (MATCH_YES, lst, head, ec, st1)"
  shows "match_list_clause env msk b str l allow_common allow_sections c st
           = Some (Clause_continue (c\<lparr>omp_lists := (omp_lists c)(l := omp_lists c l @ head)\<rparr>)
                     False st1)"
  using assms variable_list_result [OF assms(2)] by (simp add: match_list_clause_def)

lemma match_list_clause_no:
  assumes "gfc_match_omp_variable_list env str (omp_lists c l) allow_common False allow_sections st
           = Some (m, lst, head, ec, st1)" "m \<noteq> MATCH_YES"
  shows "match_list_clause env msk b str l allow_common allow_sections c st
           = Some (Clause_next c (if allowed msk b then st1 else st))"
  using assms by (cases m) (simp_all add: match_list_clause_def)

lemma clause_matchers_split:
  "clause_matchers env ext msk = tests_before_depend env ext msk @ depend_matchers env msk"
  by (simp add: clause_matchers_def)

lemma lists_extend_refl [simp]: "lists_extend c c"
  by (simp add: lists_extend_def)

lemma lists_extend_trans: "lists_extend a b \<Longrightarrow> lists_extend b c \<Longrightarrow> lists_extend a c"
  unfolding lists_extend_def
proof
  fix l
  assume ab: "\<forall>l. \<exists>rest. omp_lists b l = omp_lists a l @ rest"
    and bc: "\<forall>l. \<exists>rest. omp_lists c l = omp_lists b l @ rest"
  from ab obtain r1 where "omp_lists b l = omp_lists a l @ r1" by blast
  moreover from bc obtain r2 where "omp_lists c l = omp_lists b l @ r2" by blast
  ultimately have "omp_lists c l = omp_lists a l @ r1 @ r2" by simp
  then show "\<exists>rest. omp_lists c l = omp_lists a l @ rest" ..
qed

lemma lists_extend_same: "omp_lists c' = omp_lists c \<Longrightarrow> lists_extend c c'"
  by (simp add: lists_extend_def)

lemma lists_extend_append [simp]:
  "lists_extend c (c\<lparr>omp_lists := (omp_lists c)(l := omp_lists c l @ xs)\<rparr>)"
  by (simp add: lists_extend_def)

lemma grows_expr_clause:
  assumes "\<And>e c. omp_lists (set_field e c) = omp_lists c"
  shows "grows (match_expr_clause env msk b pat field set_field)"
  using assms
  by (auto simp: grows_def match_expr_clause_def outcome_extends_def lists_extend_same
        split: if_splits prod.splits match.splits)

lemma grows_flag_clause:
  assumes "\<And>c. omp_lists (set_field c) = omp_lists c"
  shows "grows (match_flag_clause env msk b word field set_field)"
  using assms
  by (auto simp: grows_def match_flag_clause_def outcome_extends_def lists_extend_same
        split: if_splits prod.splits match.splits)

lemma variable_list_yes_append:
  "gfc_match_omp_variable_list env str lst ac wc as st = Some (MATCH_YES, lst', head, ec, st')
     \<Longrightarrow> lst' = lst @ head"
  by (simp add: variable_list_result)

lemma grows_list_clause: "grows (match_list_clause env msk b str l ac as)"
  by (auto simp: grows_def match_list_clause_def outcome_extends_def
        dest!: variable_list_yes_append
        split: if_splits prod.splits match.splits option.splits)

lemma grows_reduction: "grows (match_reduction env msk)"
  by (auto simp: grows_def match_reduction_def outcome_extends_def Let_def
        dest!: variable_list_yes_append
        split: if_splits prod.splits match.splits option.splits bool.splits)

lemma grows_default: "grows (match_default env msk)"
  by (auto simp: grows_def match_default_def outcome_extends_def lists_extend_same
        split: if_splits prod.splits option.splits)

lemma grows_schedule: "grows (match_schedule env msk)"
  by (auto simp: grows_def match_schedule_def outcome_extends_def lists_extend_same Let_def
        split: if_splits prod.splits option.splits match.splits)

lemma grows_collapse: "grows (match_collapse env ext msk)"
  by (auto simp: grows_def match_collapse_def outcome_extends_def lists_extend_same
        split: if_splits prod.splits option.splits match.splits)

lemma grows_proc_bind: "grows (match_proc_bind env msk)"
  by (auto simp: grows_def match_proc_bind_def outcome_extends_def lists_extend_same
        split: if_splits prod.splits option.splits)

lemma grows_aligned: "grows (match_aligned env msk)"
  by (auto simp: grows_def match_aligned_def outcome_extends_def Let_def
        split: if_splits prod.splits match.splits option.splits)

lemma grows_linear: "grows (match_linear env msk)"
  by (auto simp: grows_def match_linear_def outcome_extends_def Let_def
        split: if_splits prod.splits match.splits option.splits list.splits)

lemma grows_clause_matchers: "\<forall>m\<in>set (clause_matchers env ext msk). grows m"
  by (simp add: clause_matchers_def tests_before_depend_def depend_matchers_def
        grows_expr_clause grows_flag_clause
        grows_list_clause grows_reduction grows_default grows_schedule grows_collapse
        grows_proc_bind grows_aligned grows_linear)

lemma first_match_grows:
  assumes "\<forall>m\<in>set ms. grows m" and "first_match ms c st = Some r"
  shows "outcome_extends c r"
  using assms
proof (induction ms arbitrary: c st)
  case Nil
  then show ?case by (auto simp: outcome_extends_def)
next
  case (Cons m ms)
  from Cons.prems(1) have gm: "grows m" and gms: "\<forall>m\<in>set ms. grows m" by simp_all
  show ?case
  proof (cases "m c st")
    case None
    with Cons.prems(2) show ?thesis by simp
  next
    case (Some o1)
    with gm have e1: "outcome_extends c o1" by (simp add: grows_def)
    show ?thesis
    proof (cases o1)
      case (Clause_next c1 st1)
      with Some Cons.prems(2) have "first_match ms c1 st1 = Some r" by simp
      from Cons.IH [OF gms this] have "outcome_extends c1 r" .
      moreover from e1 Clause_next have "lists_extend c c1" by (simp add: outcome_extends_def)
      ultimately show ?thesis
        by (cases r) (auto simp: outcome_extends_def intro: lists_extend_trans)
    qed (use Some Cons.prems(2) e1 in auto)
  qed
qed

lemma clauses_loop_extends:
  assumes run: "clauses_loop env ext msk first needs_space c st = Some y"
  shows "\<forall>cf stf. y = Inr (cf, stf) \<longrightarrow> lists_extend c cf"
proof (rule clauses_loop.raw_induct
    [where P = "\<lambda>env ext msk first needs_space c st y.
                  \<forall>cf stf. y = Inr (cf, stf) \<longrightarrow> lists_extend c cf", OF _ run], goal_cases)
  case (1 loop env ext msk first needs_space c st y)
  obtain leave st1 where sep: "clause_separator env first needs_space st = (leave, st1)"
    by (cases "clause_separator env first needs_space st")
  show ?case
  proof (cases leave)
    case True
    with 1(2) sep show ?thesis by auto
  next
    case False
    with 1(2) sep obtain outcome where
      fm: "first_match (clause_matchers env ext msk) c st1 = Some outcome"
      by (auto split: option.splits)
    from first_match_grows [OF grows_clause_matchers fm]
    have ext: "outcome_extends c outcome" .
    show ?thesis
    proof (cases outcome)
      case (Clause_continue c1 ns1 st2)
      with 1(2) sep False fm have "loop env ext msk False ns1 c1 st2 = Some y" by simp
      from 1(1) [OF this] have "\<forall>cf stf. y = Inr (cf, stf) \<longrightarrow> lists_extend c1 cf" .
      moreover from ext Clause_continue have "lists_extend c c1"
        by (simp add: outcome_extends_def)
      ultimately show ?thesis by (blast intro: lists_extend_trans)
    qed (use 1(2) sep False fm ext in \<open>auto simp: outcome_extends_def\<close>)
  qed
qed

lemma clause_iterations_loop:
  "clause_iterations n env ext msk first needs_space c st = Some (f, ns, c', st')
     \<Longrightarrow> clauses_loop env ext msk first needs_space c st = clauses_loop env ext msk f ns c' st'"
proof (induction n arbitrary: first needs_space c st)
  case 0
  then show ?case by simp
next
  case (Suc n)
  obtain leave st1 where sep: "clause_separator env first needs_space st = (leave, st1)"
    by (cases "clause_separator env first needs_space st")
  with Suc.prems have nl: "\<not> leave" by (auto split: if_splits)
  with Suc.prems sep obtain c1 ns1 st2 where
    fm: "first_match (clause_matchers env ext msk) c st1 = Some (Clause_continue c1 ns1 st2)"
    and it: "clause_iterations n env ext msk False ns1 c1 st2 = Some (f, ns, c', st')"
    by (auto split: option.splits clause_outcome.splits)
  have "clauses_loop env ext msk first needs_space c st = clauses_loop env ext msk False ns1 c1 st2"
    by (subst clauses_loop.simps) (simp add: sep nl fm)
  with Suc.IH [OF it] show ?case by simp
qed

lemma falls_through_first_match:
  "falls_through ms c st = Some (c2, st2)
     \<Longrightarrow> first_match (ms @ ms') c st = first_match ms' c2 st2"
  by (induction ms arbitrary: c st)
     (auto split: option.splits clause_outcome.splits)

lemma first_yes_value: "first_yes ms st = (Some v, st') \<Longrightarrow> v \<in> fst ` set ms"
  by (induction ms st rule: first_yes.induct) (force split: prod.splits match.splits)+

lemma keeps_expr_clause: "keeps_clauses (match_expr_clause env msk b pat field set_field)"
  by (auto simp: keeps_clauses_def match_expr_clause_def
        split: if_splits prod.splits match.splits)

lemma keeps_flag_clause: "keeps_clauses (match_flag_clause env msk b word field set_field)"
  by (auto simp: keeps_clauses_def match_flag_clause_def
        split: if_splits prod.splits match.splits)

lemma keeps_list_clause: "keeps_clauses (match_list_clause env msk b str l ac as)"
  by (auto simp: keeps_clauses_def match_list_clause_def
        split: if_splits prod.splits match.splits option.splits)

lemma keeps_reduction: "keeps_clauses (match_reduction env msk)"
  by (auto simp: keeps_clauses_def match_reduction_def Let_def
        split: if_splits prod.splits match.splits option.splits bool.splits)

lemma keeps_default: "keeps_clauses (match_default env msk)"
  by (auto simp: keeps_clauses_def match_default_def dest!: first_yes_value
        split: if_splits prod.splits option.splits)

lemma keeps_schedule: "keeps_clauses (match_schedule env msk)"
  by (auto simp: keeps_clauses_def match_schedule_def Let_def
        split: if_splits prod.splits option.splits match.splits)

lemma keeps_collapse: "keeps_clauses (match_collapse env ext msk)"
  by (auto simp: keeps_clauses_def match_collapse_def
        split: if_splits prod.splits option.splits match.splits)

lemma keeps_proc_bind: "keeps_clauses (match_proc_bind env msk)"
  by (auto simp: keeps_clauses_def match_proc_bind_def dest!: first_yes_value
        split: if_splits prod.splits option.splits)

lemma keeps_aligned: "keeps_clauses (match_aligned env msk)"
  by (auto simp: keeps_clauses_def match_aligned_def Let_def
        split: if_splits prod.splits match.splits option.splits)

lemma keeps_linear: "keeps_clauses (match_linear env msk)"
  by (auto simp: keeps_clauses_def match_linear_def Let_def
        split: if_splits prod.splits match.splits option.splits list.splits)

lemma falls_through_keeps:
  "\<forall>m\<in>set ms. keeps_clauses m \<Longrightarrow> falls_through ms c st = Some (c2, st2) \<Longrightarrow> c2 = c"
proof (induction ms arbitrary: c st)
  case Nil
  then show ?case by simp
next
  case (Cons m ms)
  from Cons.prems(2) obtain c1 st1 where
    m: "m c st = Some (Clause_next c1 st1)" and rest: "falls_through ms c1 st1 = Some (c2, st2)"
    by (auto split: option.splits clause_outcome.splits)
  from Cons.prems(1) m have "c1 = c" by (auto simp: keeps_clauses_def)
  with Cons.IH [OF _ rest] Cons.prems(1) show ?case by simp
qed

lemma tests_before_depend_keep:
  assumes "falls_through (tests_before_depend env ext msk) c st = Some (c2, st2)"
  shows "c2 = c"
proof -
  have "\<forall>m\<in>set (tests_before_depend env ext msk). keeps_clauses m"
    by (simp add: tests_before_depend_def keeps_expr_clause keeps_flag_clause
        keeps_list_clause keeps_reduction keeps_default keeps_schedule keeps_collapse
        keeps_proc_bind keeps_aligned keeps_linear)
  then show ?thesis using assms by (rule falls_through_keeps)
qed

text \<open>What the parser returns when one pass of the loop body ends in \<open>continue\<close>.\<close>

lemma parse_after_continue:
  assumes parse: "gfc_match_omp_clauses env ext msk first needs_space st0
                    = Some (MATCH_YES, Some cf, stf)"
    and reach: "clause_iterations n env ext msk first needs_space gfc_get_omp_clauses st0
                  = Some (f, ns, c, st)"
    and sep: "clause_separator env f ns st = (False, st1)"
    and body: "first_match (clause_matchers env ext msk) c st1
                 = Some (Clause_continue c' ns' st')"
  shows "lists_extend c' cf"
proof -
  from parse obtain st_e where
    loop: "clauses_loop env ext msk first needs_space gfc_get_omp_clauses st0
             = Some (Inr (cf, st_e))"
    by (auto simp: gfc_match_omp_clauses_def
          split: option.splits sum.splits prod.splits match.splits)
  from clause_iterations_loop [OF reach] loop
  have "clauses_loop env ext msk f ns c st = Some (Inr (cf, st_e))" by simp
  moreover have "clauses_loop env ext msk f ns c st = clauses_loop env ext msk False ns' c' st'"
    by (subst clauses_loop.simps) (simp add: sep body)
  ultimately have "clauses_loop env ext msk False ns' c' st' = Some (Inr (cf, st_e))" by simp
  from clauses_loop_extends [OF this] show ?thesis by simp
qed

text \<open>
  C8.  Let \<open>gfc_match_omp_clauses\<close> return \<open>MATCH_YES\<close> with the clause set \<open>cf\<close>, and
  let a pass of its loop, begun with the clause set \<open>c\<close>, come to the \<open>depend\<close> tests
  (the clause is allowed and no test before them matches).  A variable list read there
  behind \<open>depend ( in :\<close> stands in \<open>OMP_LIST_DEPEND_IN\<close> of \<open>cf\<close>, behind the entries \<open>c\<close>
  had there; a variable list read behind \<open>depend ( out :\<close> and one read behind
  \<open>depend ( inout :\<close> both stand in \<open>OMP_LIST_DEPEND_OUT\<close> of \<open>cf\<close>.  An entry records its
  symbol and its expression only, so nothing tells an \<open>out\<close> entry from an \<open>inout\<close> entry
  afterwards.
\<close>

theorem depend_list_classes_after_parsing:
  assumes dep: "allowed msk OMP_CLAUSE_DEPEND"
    and parse: "gfc_match_omp_clauses env ext msk first needs_space st0
                  = Some (MATCH_YES, Some cf, stf)"
    and reach: "clause_iterations n env ext msk first needs_space gfc_get_omp_clauses st0
                  = Some (f, ns, c, st)"
    and sep: "clause_separator env f ns st = (False, st1)"
    and before: "falls_through (tests_before_depend env ext msk) c st1 = Some (c2, st2)"
  shows "(gfc_match_omp_variable_list env ''depend ( in : '' (omp_lists c OMP_LIST_DEPEND_IN)
            False False True st2 = Some (MATCH_YES, lst, head, ec, st')
          \<longrightarrow> (\<exists>rest. omp_lists cf OMP_LIST_DEPEND_IN
                        = omp_lists c OMP_LIST_DEPEND_IN @ head @ rest))
       \<and> (gfc_match_omp_variable_list env ''depend ( in : '' (omp_lists c OMP_LIST_DEPEND_IN)
            False False True st2 = Some (m1, lst1, head1, ec1, st3) \<and> m1 \<noteq> MATCH_YES
          \<and> gfc_match_omp_variable_list env ''depend ( out : '' (omp_lists c OMP_LIST_DEPEND_OUT)
              False False True st3 = Some (MATCH_YES, lst, head, ec, st')
          \<longrightarrow> (\<exists>rest. omp_lists cf OMP_LIST_DEPEND_OUT
                        = omp_lists c OMP_LIST_DEPEND_OUT @ head @ rest))
       \<and> (gfc_match_omp_variable_list env ''depend ( in : '' (omp_lists c OMP_LIST_DEPEND_IN)
            False False True st2 = Some (m1, lst1, head1, ec1, st3) \<and> m1 \<noteq> MATCH_YES
          \<and> gfc_match_omp_variable_list env ''depend ( out : '' (omp_lists c OMP_LIST_DEPEND_OUT)
              False False True st3 = Some (m2, lst2, head2, ec2, st4) \<and> m2 \<noteq> MATCH_YES
          \<and> gfc_match_omp_variable_list env ''depend ( inout : ''
              (omp_lists c OMP_LIST_DEPEND_OUT) False False True st4
              = Some (MATCH_YES, lst, head, ec, st')
          \<longrightarrow> (\<exists>rest. omp_lists cf OMP_LIST_DEPEND_OUT
                        = omp_lists c OMP_LIST_DEPEND_OUT @ head @ rest))"
proof -
  from tests_before_depend_keep [OF before] have c2: "c2 = c" .
  have body: "first_match (clause_matchers env ext msk) c st1
                = first_match (depend_matchers env msk) c st2"
    using falls_through_first_match [OF before] by (simp add: clause_matchers_split c2)
  have after: "\<exists>rest. omp_lists cf l = omp_lists c l @ head @ rest"
    if "first_match (depend_matchers env msk) c st2
          = Some (Clause_continue (c\<lparr>omp_lists := (omp_lists c)(l := omp_lists c l @ head)\<rparr>)
                    False st')" for l head st'
  proof -
    from that body have "first_match (clause_matchers env ext msk) c st1
          = Some (Clause_continue (c\<lparr>omp_lists := (omp_lists c)(l := omp_lists c l @ head)\<rparr>)
                    False st')" by simp
    from parse_after_continue [OF parse reach sep this]
    obtain rest where "omp_lists cf l = (omp_lists c l @ head) @ rest"
      by (auto simp: lists_extend_def dest: spec [of _ l])
    then show ?thesis by simp
  qed
  show ?thesis
    using dep
    by (intro conjI impI after)
       (auto simp: depend_matchers_def match_list_clause_yes match_list_clause_no)
qed

text \<open>\<open>depend (in: p) depend (out: q) depend (inout: r)\<close>: the three passes of the loop,
  and what the parser returns.\<close>

lemma ex_allowed:
  "\<not> allowed ex_mask OMP_CLAUSE_IF" "\<not> allowed ex_mask OMP_CLAUSE_FINAL"
  "\<not> allowed ex_mask OMP_CLAUSE_NUM_THREADS" "allowed ex_mask OMP_CLAUSE_PRIVATE"
  "\<not> allowed ex_mask OMP_CLAUSE_FIRSTPRIVATE" "\<not> allowed ex_mask OMP_CLAUSE_LASTPRIVATE"
  "\<not> allowed ex_mask OMP_CLAUSE_COPYPRIVATE" "\<not> allowed ex_mask OMP_CLAUSE_SHARED"
  "\<not> allowed ex_mask OMP_CLAUSE_COPYIN" "\<not> allowed ex_mask OMP_CLAUSE_REDUCTION"
  "\<not> allowed ex_mask OMP_CLAUSE_DEFAULT" "\<not> allowed ex_mask OMP_CLAUSE_SCHEDULE"
  "\<not> allowed ex_mask OMP_CLAUSE_ORDERED" "\<not> allowed ex_mask OMP_CLAUSE_UNTIED"
  "\<not> allowed ex_mask OMP_CLAUSE_MERGEABLE" "\<not> allowed ex_mask OMP_CLAUSE_COLLAPSE"
  "\<not> allowed ex_mask OMP_CLAUSE_INBRANCH" "\<not> allowed ex_mask OMP_CLAUSE_NOTINBRANCH"
  "\<not> allowed ex_mask OMP_CLAUSE_PROC_BIND" "\<not> allowed ex_mask OMP_CLAUSE_SAFELEN"
  "\<not> allowed ex_mask OMP_CLAUSE_SIMDLEN" "\<not> allowed ex_mask OMP_CLAUSE_UNIFORM"
  "allowed ex_mask OMP_CLAUSE_ALIGNED" "allowed ex_mask OMP_CLAUSE_LINEAR"
  "allowed ex_mask OMP_CLAUSE_DEPEND"
  by code_simp+

lemmas ex_clause_eval = ex_eval ex_allowed tests_before_depend_def match_expr_clause_def
  match_list_clause_def match_reduction_def match_default_def match_schedule_def
  match_flag_clause_def match_collapse_def match_proc_bind_def match_aligned_def
  match_linear_def clause_separator_def ex_depend_def

lemma ex_depend_before:
  "falls_through (tests_before_depend (ex_matchers ex_depend) ex_ext ex_mask) c (ex_at 1)
     = Some (c, ex_at 1)"
  "falls_through (tests_before_depend (ex_matchers ex_depend) ex_ext ex_mask) c (ex_at 4)
     = Some (c, ex_at 4)"
  "falls_through (tests_before_depend (ex_matchers ex_depend) ex_ext ex_mask) c (ex_at 7)
     = Some (c, ex_at 7)"
  "falls_through (tests_before_depend (ex_matchers ex_depend) ex_ext ex_mask) c (ex_at 10)
     = Some (c, ex_at 10)"
  by (simp_all add: ex_clause_eval)

lemma ex_depend_separator:
  "clause_separator (ex_matchers ex_depend) True True (ex_at 0) = (False, ex_at 1)"
  "clause_separator (ex_matchers ex_depend) False False (ex_at 4) = (False, ex_at 4)"
  "clause_separator (ex_matchers ex_depend) False False (ex_at 7) = (False, ex_at 7)"
  "clause_separator (ex_matchers ex_depend) False False (ex_at 10) = (False, ex_at 10)"
  by (simp_all add: ex_clause_eval)

lemma clauses_loop_continue:
  assumes "clause_separator env first needs_space st = (False, st1)"
    and "first_match (clause_matchers env ext msk) c st1 = Some (Clause_continue c' ns' st')"
  shows "clauses_loop env ext msk first needs_space c st = clauses_loop env ext msk False ns' c' st'"
  by (subst clauses_loop.simps) (simp add: assms)

lemma clauses_loop_break:
  assumes "clause_separator env first needs_space st = (False, st1)"
    and "first_match (clause_matchers env ext msk) c st1 = Some (Clause_break c' st')"
  shows "clauses_loop env ext msk first needs_space c st = Some (Inr (c', st'))"
  by (subst clauses_loop.simps) (simp add: assms)

theorem depend_list_classes_after_parsing_witness:
  "\<exists>cf stf. ex_parse ex_depend = Some (MATCH_YES, Some cf, stf)
     \<and> (\<exists>rest. omp_lists cf OMP_LIST_DEPEND_IN = [ex_entry 11] @ rest)
     \<and> (\<exists>rest. omp_lists cf OMP_LIST_DEPEND_OUT = [ex_entry 12] @ rest)
     \<and> (\<exists>rest. omp_lists cf OMP_LIST_DEPEND_OUT = [ex_entry 12, ex_entry 13] @ rest)"
proof -
  let ?env = "ex_matchers ex_depend"
  let ?c0 = gfc_get_omp_clauses
  let ?c1 = "?c0\<lparr>omp_lists := (omp_lists ?c0)
               (OMP_LIST_DEPEND_IN := omp_lists ?c0 OMP_LIST_DEPEND_IN @ [ex_entry 11])\<rparr>"
  let ?c2 = "?c1\<lparr>omp_lists := (omp_lists ?c1)
               (OMP_LIST_DEPEND_OUT := omp_lists ?c1 OMP_LIST_DEPEND_OUT @ [ex_entry 12])\<rparr>"
  let ?c3 = "?c2\<lparr>omp_lists := (omp_lists ?c2)
               (OMP_LIST_DEPEND_OUT := omp_lists ?c2 OMP_LIST_DEPEND_OUT @ [ex_entry 13])\<rparr>"
  note dep = ex_allowed(25)
  have start: "ex_parse_state = ex_at 0" by (simp add: ex_at_def ex_parse_state_def)
  have v_in: "gfc_match_omp_variable_list ?env ''depend ( in : '' lst False False True (ex_at 1)
                = Some (MATCH_YES, lst @ [ex_entry 11], [ex_entry 11], False, ex_at 4)" for lst
    by (simp add: ex_eval ex_depend_def)
  have no_in: "gfc_match_omp_variable_list ?env ''depend ( in : '' lst False False True (ex_at k)
                = Some (MATCH_NO, lst, [], False, ex_at k)" if "k = 4 \<or> k = 7 \<or> k = 10" for lst k
    using that by (auto simp: ex_eval ex_depend_def)
  have v_out: "gfc_match_omp_variable_list ?env ''depend ( out : '' lst False False True (ex_at 4)
                = Some (MATCH_YES, lst @ [ex_entry 12], [ex_entry 12], False, ex_at 7)" for lst
    by (simp add: ex_eval ex_depend_def)
  have no_out: "gfc_match_omp_variable_list ?env ''depend ( out : '' lst False False True (ex_at k)
                = Some (MATCH_NO, lst, [], False, ex_at k)" if "k = 7 \<or> k = 10" for lst k
    using that by (auto simp: ex_eval ex_depend_def)
  have v_inout: "gfc_match_omp_variable_list ?env ''depend ( inout : '' lst False False True
                   (ex_at 7)
                = Some (MATCH_YES, lst @ [ex_entry 13], [ex_entry 13], False, ex_at 10)" for lst
    by (simp add: ex_eval ex_depend_def)
  have no_inout: "gfc_match_omp_variable_list ?env ''depend ( inout : '' lst False False True
                   (ex_at 10) = Some (MATCH_NO, lst, [], False, ex_at 10)" for lst
    by (simp add: ex_eval ex_depend_def)
  have body: "first_match (clause_matchers ?env ex_ext ex_mask) c (ex_at k)
                = first_match (depend_matchers ?env ex_mask) c (ex_at k)"
    if "k = 1 \<or> k = 4 \<or> k = 7 \<or> k = 10" for c k
    using that falls_through_first_match [OF ex_depend_before(1)]
      falls_through_first_match [OF ex_depend_before(2)]
      falls_through_first_match [OF ex_depend_before(3)]
      falls_through_first_match [OF ex_depend_before(4)]
    by (auto simp: clause_matchers_split)
  have b1: "first_match (clause_matchers ?env ex_ext ex_mask) ?c0 (ex_at 1)
              = Some (Clause_continue ?c1 False (ex_at 4))"
    by (simp del: One_nat_def add: body depend_matchers_def match_list_clause_yes [OF dep v_in])
  have b2: "first_match (clause_matchers ?env ex_ext ex_mask) ?c1 (ex_at 4)
              = Some (Clause_continue ?c2 False (ex_at 7))"
    by (simp add: body depend_matchers_def match_list_clause_no [OF no_in] dep
          match_list_clause_yes [OF dep v_out])
  have b3: "first_match (clause_matchers ?env ex_ext ex_mask) ?c2 (ex_at 7)
              = Some (Clause_continue ?c3 False (ex_at 10))"
    by (simp add: body depend_matchers_def match_list_clause_no [OF no_in]
          match_list_clause_no [OF no_out] dep match_list_clause_yes [OF dep v_inout])
  have b4: "first_match (clause_matchers ?env ex_ext ex_mask) ?c3 (ex_at 10)
              = Some (Clause_break ?c3 (ex_at 10))"
    by (simp add: body depend_matchers_def match_list_clause_no [OF no_in]
          match_list_clause_no [OF no_out] match_list_clause_no [OF no_inout] dep)
  note sep = ex_depend_separator
  have "clauses_loop ?env ex_ext ex_mask True True ?c0 (ex_at 0) = Some (Inr (?c3, ex_at 10))"
    by (simp only: clauses_loop_continue [OF sep(1) b1] clauses_loop_continue [OF sep(2) b2]
          clauses_loop_continue [OF sep(3) b3] clauses_loop_break [OF sep(4) b4])
  moreover have "gfc_match_omp_eos ?env (ex_at 10) = (MATCH_YES, ex_at 10)"
    by (simp add: ex_eval ex_depend_def)
  ultimately have parse: "gfc_match_omp_clauses ?env ex_ext ex_mask True True (ex_at 0)
                   = Some (MATCH_YES, Some ?c3, ex_at 10)"
    by (simp add: gfc_match_omp_clauses_def)
  have r0: "clause_iterations 0 ?env ex_ext ex_mask True True ?c0 (ex_at 0)
              = Some (True, True, ?c0, ex_at 0)"
    by simp
  have r1: "clause_iterations (Suc 0) ?env ex_ext ex_mask True True ?c0 (ex_at 0)
              = Some (False, False, ?c1, ex_at 4)"
    by (simp del: One_nat_def add: sep(1) b1)
  have r2: "clause_iterations (Suc (Suc 0)) ?env ex_ext ex_mask True True ?c0 (ex_at 0)
              = Some (False, False, ?c2, ex_at 7)"
    by (simp del: One_nat_def add: sep b1 b2)
  from depend_list_classes_after_parsing [OF dep parse r0 sep(1) ex_depend_before(1),
      where lst = "omp_lists ?c0 OMP_LIST_DEPEND_IN @ [ex_entry 11]" and head = "[ex_entry 11]"
        and ec = False and st' = "ex_at 4"] v_in
  have i: "\<exists>rest. omp_lists ?c3 OMP_LIST_DEPEND_IN = [ex_entry 11] @ rest"
    by (simp add: gfc_get_omp_clauses_def)
  from depend_list_classes_after_parsing [OF dep parse r1 sep(2) ex_depend_before(2),
      where ?m1.0 = MATCH_NO and ?lst1.0 = "omp_lists ?c1 OMP_LIST_DEPEND_IN"
        and ?head1.0 = "[]" and ?ec1.0 = False and ?st3.0 = "ex_at 4"
        and lst = "omp_lists ?c1 OMP_LIST_DEPEND_OUT @ [ex_entry 12]" and head = "[ex_entry 12]"
        and ec = False and st' = "ex_at 7"]
    no_in [of 4] v_out
  have ii: "\<exists>rest. omp_lists ?c3 OMP_LIST_DEPEND_OUT = [ex_entry 12] @ rest"
    by (simp add: gfc_get_omp_clauses_def)
  from depend_list_classes_after_parsing [OF dep parse r2 sep(3) ex_depend_before(3),
      where ?m1.0 = MATCH_NO and ?lst1.0 = "omp_lists ?c2 OMP_LIST_DEPEND_IN"
        and ?head1.0 = "[]" and ?ec1.0 = False and ?st3.0 = "ex_at 7"
        and ?m2.0 = MATCH_NO and ?lst2.0 = "omp_lists ?c2 OMP_LIST_DEPEND_OUT"
        and ?head2.0 = "[]" and ?ec2.0 = False and ?st4.0 = "ex_at 7"
        and lst = "omp_lists ?c2 OMP_LIST_DEPEND_OUT @ [ex_entry 13]" and head = "[ex_entry 13]"
        and ec = False and st' = "ex_at 10"]
    no_in [of 7] no_out [of 7] v_inout
  have iii: "\<exists>rest. omp_lists ?c3 OMP_LIST_DEPEND_OUT = [ex_entry 12, ex_entry 13] @ rest"
    by (simp add: gfc_get_omp_clauses_def)
  from parse have "ex_parse ex_depend = Some (MATCH_YES, Some ?c3, ex_at 10)"
    by (simp add: ex_parse_def start)
  with i ii iii show ?thesis by blast
qed

lemma parse_depend:
  "parsed_list OMP_LIST_DEPEND_IN (ex_parse ex_depend) = Some [ex_entry 11]"
  "parsed_list OMP_LIST_DEPEND_OUT (ex_parse ex_depend) = Some [ex_entry 12, ex_entry 13]"
  by code_simp+

subsection \<open>C9: the step of a \<open>linear\<close> clause without a colon\<close>



lemma parse_linear:
  "parsed_list OMP_LIST_LINEAR (ex_parse ex_linear)
     = Some [\<lparr>nl_sym = 11, nl_expr = Some (default_linear_step (ex_matchers []) 1)\<rparr>,
             ex_entry 12]"
  by code_simp

subsection \<open>C10: a thread-private DO iterator leaves the resolution state alone\<close>

text \<open>
  C10.  A call of \<open>gfc_resolve_do_iterator\<close> with a symbol that carries the
  thread-private attribute returns at once: the state after the call is the state
  before it, so no context's private list and no context's private-iterators set
  has changed, whatever the statement, the loop nest and the open contexts are.
\<close>

theorem do_iterator_threadprivate_frame:
  "threadprivate (attr (syms sy)) \<Longrightarrow>
     gfc_resolve_do_iterator syms block_next st code sy = Some st"
  by (simp add: gfc_resolve_do_iterator_def)

text \<open>
  At the thread-private symbol 1 the state is returned as it was; for contrast, the
  same call with the plain symbol 7 prepends an entry to the private list of
  statement 10.
\<close>

theorem do_iterator_threadprivate_frame_witness:
  "threadprivate (attr (ex_syms 1))
   \<and> gfc_resolve_do_iterator ex_syms (\<lambda>_. None) ex_omp_state 20 1 = Some ex_omp_state
   \<and> map_option (\<lambda>st. map nl_sym (omp_lists (ext_omp_clauses st 10) OMP_LIST_PRIVATE))
        (gfc_resolve_do_iterator ex_syms (\<lambda>_. None) ex_omp_state 20 7) = Some [7]"
proof -
  have tp: "threadprivate (attr (ex_syms 1))"
    by (simp add: ex_syms_def plain_symbol_def plain_attr_def)
  have other: "\<not> threadprivate (attr (ex_syms 7))"
    by (simp add: ex_syms_def plain_symbol_def plain_attr_def)
  have "map_option (\<lambda>st. map nl_sym (omp_lists (ext_omp_clauses st 10) OMP_LIST_PRIVATE))
          (gfc_resolve_do_iterator ex_syms (\<lambda>_. None) ex_omp_state 20 7) = Some [7]"
    using other
    by (simp add: gfc_resolve_do_iterator_def ex_omp_state_def gfc_get_omp_clauses_def)
  with tp do_iterator_threadprivate_frame
         [of ex_syms 1 "\<lambda>_. None" ex_omp_state 20, OF tp]
  show ?thesis by simp
qed

end
